(* ===== verification/Prelude.thy ===== *)
theory Prelude
  imports Main "HOL-Library.Word" "HOL-Library.List_Lexorder" "HOL-Library.Char_ord"
begin

text \<open>
  Generic material shared by the components: the theorem collections, the window of the
  last entries of a list (every audit log and dead-letter buffer of the program is such a
  window), the byte view of Go strings, big-endian integers, decimal rendering of
  integers, and the small part of Go's \<open>strings\<close> package the code uses. Nothing here is
  specific to one package of the program.
\<close>

text \<open>A reading of the wall clock.\<close>

type_synonym go_time = int

named_theorems go_defs \<open>definitions unfolded when a handler is evaluated or split\<close>
named_theorems go_inv \<open>facts that say an operation keeps an invariant\<close>

subsection \<open>Outcomes\<close>

text \<open>What a call can do: return, return an error (its text), or panic.\<close>

datatype 'a go_result = Ret 'a | Err string | Panic

fun then_do :: "'a go_result \<Rightarrow> ('a \<Rightarrow> 'b go_result) \<Rightarrow> 'b go_result" where
  "then_do (Ret x) f = f x"
| "then_do (Err e) f = Err e"
| "then_do Panic f = Panic"

text \<open>\<open>xs[a:b]\<close> and \<open>xs[i]\<close>, which panic out of range.\<close>

definition slice :: "'a list \<Rightarrow> nat \<Rightarrow> nat \<Rightarrow> 'a list go_result" where
  "slice xs a b = (if a \<le> b \<and> b \<le> length xs then Ret (take (b - a) (drop a xs)) else Panic)"

definition at_index :: "'a list \<Rightarrow> nat \<Rightarrow> 'a go_result" where
  "at_index xs i = (if i < length xs then Ret (xs ! i) else Panic)"

lemma then_do_Ret_iff: "then_do x f = Ret y \<longleftrightarrow> (\<exists>z. x = Ret z \<and> f z = Ret y)"
  by (cases x) auto

lemma then_do_Panic_iff: "then_do x f = Panic \<longleftrightarrow> x = Panic \<or> (\<exists>z. x = Ret z \<and> f z = Panic)"
  by (cases x) auto

lemma slice_ok [simp]: "a \<le> b \<Longrightarrow> b \<le> length xs \<Longrightarrow> slice xs a b = Ret (take (b - a) (drop a xs))"
  by (simp add: slice_def)

lemma at_index_ok [simp]: "i < length xs \<Longrightarrow> at_index xs i = Ret (xs ! i)"
  by (simp add: at_index_def)

subsection \<open>The last entries of a list\<close>

definition lastn :: "nat \<Rightarrow> 'a list \<Rightarrow> 'a list" where
  "lastn n xs = drop (length xs - n) xs"

lemma length_lastn [simp]: "length (lastn n xs) = min n (length xs)"
  by (simp add: lastn_def)

lemma lastn_all [simp]: "length xs \<le> n \<Longrightarrow> lastn n xs = xs"
  by (simp add: lastn_def)

lemma lastn_0 [simp]: "lastn 0 xs = []"
  by (simp add: lastn_def)

lemma lastn_Nil [simp]: "lastn n [] = []"
  by (simp add: lastn_def)

lemma set_lastn_subset: "set (lastn n xs) \<subseteq> set xs"
  by (simp add: lastn_def set_drop_subset)

lemma map_lastn: "map f (lastn n xs) = lastn n (map f xs)"
  by (simp add: lastn_def drop_map)

lemma lastn_append: "lastn n (xs @ ys) = lastn (n - length ys) xs @ lastn n ys"
proof (cases "length ys \<le> n")
  case True
  then have "length xs + length ys - n = length xs - (n - length ys)"
    by simp
  with True show ?thesis
    by (simp add: lastn_def)
next
  case False
  then show ?thesis
    by (simp add: lastn_def)
qed

lemma lastn_lastn [simp]: "lastn m (lastn n xs) = lastn (min m n) xs"
proof -
  have "length xs - n + (length xs - (length xs - n) - m) = length xs - min m n"
    by arith
  then show ?thesis
    by (simp add: lastn_def add.commute)
qed

lemma lastn_lastn_append: "lastn n (lastn n xs @ ys) = lastn n (xs @ ys)"
  by (simp add: lastn_append min_def)

lemma last_lastn: "0 < n \<Longrightarrow> xs \<noteq> [] \<Longrightarrow> last (lastn n xs) = last xs"
  by (simp add: lastn_def)

lemma distinct_lastn: "distinct xs \<Longrightarrow> distinct (lastn n xs)"
  by (simp add: lastn_def)

lemma lastn_snoc: "0 < n \<Longrightarrow> lastn n (xs @ [x]) = lastn (n - 1) xs @ [x]"
  by (simp add: lastn_append lastn_def)

subsection \<open>Strings as bytes\<close>

text \<open>
  A Go string is a sequence of bytes. Its model is \<open>string\<close>, whose characters are the 256
  byte values; \<open>len\<close> is \<open>length\<close>, comparison is bytewise.
\<close>

type_synonym byte = "8 word"

definition byte_of_char :: "char \<Rightarrow> byte" where
  "byte_of_char c = word_of_nat (of_char c)"

definition char_of_byte :: "byte \<Rightarrow> char" where
  "char_of_byte b = char_of (unat b)"

definition bytes_of_string :: "string \<Rightarrow> byte list" where
  "bytes_of_string s = map byte_of_char s"

definition string_of_bytes :: "byte list \<Rightarrow> string" where
  "string_of_bytes bs = map char_of_byte bs"

lemma char_of_byte_of_char [simp]: "char_of_byte (byte_of_char c) = c"
proof -
  have "(of_char c :: nat) < 256"
    using nat_of_char_less_256 [of c] by simp
  then show ?thesis
    by (simp add: char_of_byte_def byte_of_char_def unat_of_nat)
qed

lemma string_of_bytes_of_string [simp]: "string_of_bytes (bytes_of_string s) = s"
  by (simp add: string_of_bytes_def bytes_of_string_def comp_def)

lemma length_bytes_of_string [simp]: "length (bytes_of_string s) = length s"
  by (simp add: bytes_of_string_def)

lemma length_string_of_bytes [simp]: "length (string_of_bytes bs) = length bs"
  by (simp add: string_of_bytes_def)

lemma byte_of_char_of_byte [simp]: "byte_of_char (char_of_byte b) = b"
proof -
  have "unat b < 256"
    using unsigned_less [where 'a = nat, of b] by simp
  then show ?thesis
    by (simp add: char_of_byte_def byte_of_char_def)
qed

lemma bytes_of_string_of_bytes [simp]: "bytes_of_string (string_of_bytes bs) = bs"
  by (simp add: string_of_bytes_def bytes_of_string_def comp_def)

lemma bytes_of_string_Nil [simp]: "bytes_of_string [] = []"
  by (simp add: bytes_of_string_def)

subsection \<open>Big-endian integers (encoding/binary)\<close>

text \<open>
  \<open>be_bytes k n\<close> is what \<open>binary.BigEndian.PutUint16/32/64\<close> writes for \<open>k = 2, 4, 8\<close>:
  the low \<open>k\<close> bytes of the value, most significant first. \<open>be_nat\<close> is what the
  \<open>Uint16/32/64\<close> readers return.
\<close>

fun be_bytes :: "nat \<Rightarrow> nat \<Rightarrow> byte list" where
  "be_bytes 0 n = []"
| "be_bytes (Suc k) n = be_bytes k (n div 256) @ [word_of_nat n]"

definition be_nat :: "byte list \<Rightarrow> nat" where
  "be_nat bs = foldl (\<lambda>acc b. acc * 256 + unat b) 0 bs"

lemma length_be_bytes [simp]: "length (be_bytes k n) = k"
  by (induction k arbitrary: n) auto

lemma be_nat_snoc [simp]: "be_nat (bs @ [b]) = be_nat bs * 256 + unat b"
  by (simp add: be_nat_def)

lemma be_nat_Nil [simp]: "be_nat [] = 0"
  by (simp add: be_nat_def)

lemma be_nat_be_bytes: "be_nat (be_bytes k n) = n mod 256 ^ k"
proof (induction k arbitrary: n)
  case 0
  then show ?case by simp
next
  case (Suc k)
  have "unat (word_of_nat n :: byte) = n mod 256"
    by (simp add: unat_of_nat)
  then have "be_nat (be_bytes (Suc k) n) = (n div 256) mod 256 ^ k * 256 + n mod 256"
    by (simp add: Suc.IH)
  also have "\<dots> = n mod (256 * 256 ^ k)"
    by (simp add: mod_mult2_eq)
  finally show ?case by simp
qed

lemma be_nat_bound: "be_nat bs < 256 ^ length bs"
proof (induction bs rule: rev_induct)
  case Nil
  then show ?case by simp
next
  case (snoc b bs)
  have "unat b < 256"
    using unsigned_less [where 'a = nat, of b] by simp
  with snoc show ?case by simp
qed

lemma be_bytes_be_nat: "length bs = k \<Longrightarrow> be_bytes k (be_nat bs) = bs"
proof (induction bs arbitrary: k rule: rev_induct)
  case Nil
  then show ?case by simp
next
  case (snoc b bs)
  then obtain j where k: "k = Suc j" "length bs = j" by auto
  have b: "unat b < 256"
    using unsigned_less [where 'a = nat, of b] by simp
  have z: "(256 :: byte) = 0" by simp
  have "word_of_nat (be_nat bs * 256 + unat b) = word_of_nat (be_nat bs) * (256 :: byte) + b" by simp
  also have "\<dots> = b" by (simp only: z mult_zero_right add_0)
  finally have "word_of_nat (be_nat bs * 256 + unat b) = b" .
  moreover have "(be_nat bs * 256 + unat b) div 256 = be_nat bs"
    using b by simp
  ultimately show ?case
    using snoc.IH [OF k(2)] by (simp only: k(1) be_nat_snoc be_bytes.simps)
qed

subsection \<open>Decimal rendering\<close>

definition digit_char :: "nat \<Rightarrow> char" where
  "digit_char d = char_of (48 + d)"

fun show_nat :: "nat \<Rightarrow> string" where
  "show_nat n = (if n < 10 then [digit_char n] else show_nat (n div 10) @ [digit_char (n mod 10)])"

declare show_nat.simps [simp del]

definition show_int :: "int \<Rightarrow> string" where
  "show_int i = (if i < 0 then CHR ''-'' # show_nat (nat (- i)) else show_nat (nat i))"

definition digit_val :: "char \<Rightarrow> nat" where
  "digit_val c = of_char c - 48"

definition is_digit :: "char \<Rightarrow> bool" where
  "is_digit c \<longleftrightarrow> 48 \<le> (of_char c :: nat) \<and> (of_char c :: nat) \<le> 57"

definition dec_val :: "string \<Rightarrow> nat" where
  "dec_val ds = foldl (\<lambda>acc c. acc * 10 + digit_val c) 0 ds"

lemma digit_val_char [simp]: "d < 10 \<Longrightarrow> digit_val (digit_char d) = d"
  by (simp add: digit_val_def digit_char_def)

lemma is_digit_char [simp]: "d < 10 \<Longrightarrow> is_digit (digit_char d)"
  by (simp add: is_digit_def digit_char_def)

lemma dec_val_snoc [simp]: "dec_val (ds @ [c]) = dec_val ds * 10 + digit_val c"
  by (simp add: dec_val_def)

lemma dec_val_Nil [simp]: "dec_val [] = 0"
  by (simp add: dec_val_def)

lemma dec_val_show_nat [simp]: "dec_val (show_nat n) = n"
proof (induction n rule: show_nat.induct)
  case (1 n)
  show ?case
  proof (cases "n < 10")
    case True
    have "dec_val ([] @ [digit_char n]) = n"
      using True by (simp only: dec_val_snoc) simp
    with True show ?thesis
      by (subst show_nat.simps) simp
  next
    case False
    with 1 have "dec_val (show_nat (n div 10)) = n div 10" by simp
    with False show ?thesis
      by (subst show_nat.simps) simp
  qed
qed

lemma inj_show_nat: "inj show_nat"
  by (rule injI) (metis dec_val_show_nat)

lemma show_nat_digits: "c \<in> set (show_nat n) \<Longrightarrow> is_digit c"
proof (induction n rule: show_nat.induct)
  case (1 n)
  then show ?case
    by (subst (asm) (2) show_nat.simps) (auto split: if_splits)
qed

lemma show_nat_nonempty [simp]: "show_nat n \<noteq> []"
  by (subst show_nat.simps) simp

subsection \<open>Pieces of package strings\<close>

definition has_prefix :: "string \<Rightarrow> string \<Rightarrow> bool" where
  "has_prefix s p \<longleftrightarrow> take (length p) s = p"

definition trim_prefix :: "string \<Rightarrow> string \<Rightarrow> string" where
  "trim_prefix s p = (if has_prefix s p then drop (length p) s else s)"

lemma trim_prefix_append [simp]: "trim_prefix (p @ s) p = s"
  by (simp add: trim_prefix_def has_prefix_def)

text \<open>\<open>strings.ReplaceAll\<close> of a one-byte string.\<close>

definition replace_char :: "char \<Rightarrow> string \<Rightarrow> string \<Rightarrow> string" where
  "replace_char c new s = concat (map (\<lambda>x. if x = c then new else [x]) s)"

lemma replace_char_Nil [simp]: "replace_char c new [] = []"
  by (simp add: replace_char_def)

lemma replace_char_Cons [simp]: "replace_char c new (x # s) = (if x = c then new else [x]) @ replace_char c new s"
  by (simp add: replace_char_def)

lemma replace_char_append [simp]: "replace_char c new (s @ t) = replace_char c new s @ replace_char c new t"
  by (simp add: replace_char_def)

subsection \<open>Maps\<close>

lemma map_upd_eq_SomeD: "(m(k \<mapsto> v)) k' = Some w \<Longrightarrow> (k' = k \<and> w = v) \<or> m k' = Some w"
  by (auto split: if_splits)

end
