(* ===== verification/Go_Float.thy ===== *)
theory Go_Float
  imports Prelude
begin

text \<open>
  Go's \<open>float64\<close> as the program uses it: a value is its IEEE-754 bit pattern (\<open>64 word\<close>),
  so that \<open>math.Float64bits\<close> is the identity, NaN, infinities and both zeros are present,
  and comparisons are those of the hardware. The order is read off the sign and the lower
  63 bits (\<open>f64_key\<close>); arithmetic is exact integer arithmetic in units of the least
  subnormal (\<open>2 ^ -1074\<close>), rounded to nearest, ties to even (\<open>f64_round_mag\<close>).
  The payload of a NaN result is platform dependent in Go; the model returns one quiet NaN.
\<close>

type_synonym f64 = "64 word"

definition f64_neg :: "f64 \<Rightarrow> bool" where
  "f64_neg x \<longleftrightarrow> 2 ^ 63 \<le> unat x"

definition f64_mag :: "f64 \<Rightarrow> nat" where
  "f64_mag x = unat x mod 2 ^ 63"

definition f64_make :: "bool \<Rightarrow> nat \<Rightarrow> f64" where
  "f64_make s m = word_of_nat ((if s then 2 ^ 63 else 0) + m)"

definition inf_mag :: nat where
  "inf_mag = 2047 * 2 ^ 52"

definition f64_is_nan :: "f64 \<Rightarrow> bool" where
  "f64_is_nan x \<longleftrightarrow> inf_mag < f64_mag x"

definition f64_is_inf :: "f64 \<Rightarrow> bool" where
  "f64_is_inf x \<longleftrightarrow> f64_mag x = inf_mag"

definition f64_finite :: "f64 \<Rightarrow> bool" where
  "f64_finite x \<longleftrightarrow> f64_mag x < inf_mag"

definition f64_key :: "f64 \<Rightarrow> int" where
  "f64_key x = (if f64_neg x then - int (f64_mag x) else int (f64_mag x))"

definition f64_lt :: "f64 \<Rightarrow> f64 \<Rightarrow> bool" where
  "f64_lt x y \<longleftrightarrow> \<not> f64_is_nan x \<and> \<not> f64_is_nan y \<and> f64_key x < f64_key y"

definition f64_le :: "f64 \<Rightarrow> f64 \<Rightarrow> bool" where
  "f64_le x y \<longleftrightarrow> \<not> f64_is_nan x \<and> \<not> f64_is_nan y \<and> f64_key x \<le> f64_key y"

definition f64_eq :: "f64 \<Rightarrow> f64 \<Rightarrow> bool" where
  "f64_eq x y \<longleftrightarrow> \<not> f64_is_nan x \<and> \<not> f64_is_nan y \<and> f64_key x = f64_key y"

definition f64_nan :: f64 where "f64_nan = 0x7FF8000000000001"
definition f64_inf :: f64 where "f64_inf = 0x7FF0000000000000"

lemmas f64_order_defs = f64_lt_def f64_le_def f64_eq_def
lemmas f64_eval = f64_order_defs f64_key_def f64_neg_def f64_mag_def f64_is_nan_def
  f64_is_inf_def f64_finite_def inf_mag_def

lemma f64_lt_irrefl [simp]: "\<not> f64_lt x x"
  by (simp add: f64_lt_def)

lemma f64_le_refl [simp]: "f64_le x x \<longleftrightarrow> \<not> f64_is_nan x"
  by (simp add: f64_le_def)

lemma f64_eq_refl [simp]: "f64_eq x x \<longleftrightarrow> \<not> f64_is_nan x"
  by (simp add: f64_eq_def)

lemma f64_le_trans: "f64_le x y \<Longrightarrow> f64_le y z \<Longrightarrow> f64_le x z"
  by (simp add: f64_le_def)

lemma f64_not_lt: "\<not> f64_is_nan x \<Longrightarrow> \<not> f64_is_nan y \<Longrightarrow> \<not> f64_lt x y \<Longrightarrow> f64_le y x"
  by (simp add: f64_order_defs)

lemma f64_lt_imp_le: "f64_lt x y \<Longrightarrow> f64_le x y"
  by (simp add: f64_order_defs)

lemma f64_nan_not_lt: "f64_is_nan x \<Longrightarrow> \<not> f64_lt x y" "f64_is_nan y \<Longrightarrow> \<not> f64_lt x y"
  by (simp_all add: f64_lt_def)

lemma unat_f64_make: "m < 2 ^ 63 \<Longrightarrow> unat (f64_make s m) = (if s then 2 ^ 63 else 0) + m"
  unfolding f64_make_def by (subst unat_of_nat) simp

lemma f64_mag_make: "m < 2 ^ 63 \<Longrightarrow> f64_mag (f64_make s m) = m"
  by (simp add: f64_mag_def unat_f64_make)

lemma f64_neg_make: "m < 2 ^ 63 \<Longrightarrow> f64_neg (f64_make s m) = s"
  by (simp add: f64_neg_def unat_f64_make)

lemma f64_make_neg_mag [simp]: "f64_make (f64_neg x) (f64_mag x) = x"
proof -
  have "unat x < 2 ^ 64"
    using unsigned_less [where 'a = nat, of x] by simp
  then have "(if f64_neg x then 2 ^ 63 else 0) + unat x mod 2 ^ 63 = unat x"
    by (auto simp: f64_neg_def mod_if [of "unat x"] le_mod_geq)
  then show ?thesis
    by (simp add: f64_make_def f64_mag_def)
qed

subsection \<open>Rounding\<close>

text \<open>Number of bits, 64 at a time so that large values evaluate quickly.\<close>

function nbits :: "nat \<Rightarrow> nat" where
  "nbits n = (if n = 0 then 0 else if n < 2 ^ 64 then Suc (nbits (n div 2)) else 64 + nbits (n div 2 ^ 64))"
  by pat_completeness auto
termination
  by (relation "measure id") auto

declare nbits.simps [simp del]

lemma nbits_0 [simp]: "nbits 0 = 0"
  by (subst nbits.simps) simp

lemma nbits_bounds: "0 < n \<Longrightarrow> 0 < nbits n \<and> 2 ^ (nbits n - 1) \<le> n \<and> n < 2 ^ nbits n"
proof (induction n rule: nbits.induct)
  case (1 n)
  show ?case
  proof (cases "n < 2 ^ 64")
    case True
    show ?thesis
    proof (cases "n div 2 = 0")
      case True
      with "1.prems" have n: "n = 1" by simp
      have "nbits 1 = 1"
        by (subst nbits.simps) simp
      then show ?thesis
        unfolding n by simp
    next
      case False
      with "1.IH"(1) True "1.prems"
      have IH: "0 < nbits (n div 2)" "2 ^ (nbits (n div 2) - 1) \<le> n div 2" "n div 2 < 2 ^ nbits (n div 2)"
        by auto
      have nb: "nbits n = Suc (nbits (n div 2))"
        using True "1.prems" by (simp add: nbits.simps [of n])
      have "2 * 2 ^ (nbits (n div 2) - 1) = (2::nat) ^ nbits (n div 2)"
        using IH(1) by (metis Suc_diff_1 power_Suc)
      with IH(2,3) show ?thesis
        unfolding nb by auto
    qed
  next
    case False
    then have pos: "0 < n div 2 ^ 64"
      by (simp add: div_greater_zero_iff)
    with "1.IH"(2) False "1.prems"
    have IH: "0 < nbits (n div 2 ^ 64)" "2 ^ (nbits (n div 2 ^ 64) - 1) \<le> n div 2 ^ 64"
        "n div 2 ^ 64 < 2 ^ nbits (n div 2 ^ 64)"
      by auto
    have nb: "nbits n = 64 + nbits (n div 2 ^ 64)"
      using False "1.prems" by (simp add: nbits.simps [of n])
    have lo: "2 ^ (64 + (nbits (n div 2 ^ 64) - 1)) \<le> n"
    proof -
      have "2 ^ (64 + (nbits (n div 2 ^ 64) - 1)) = 2 ^ 64 * (2::nat) ^ (nbits (n div 2 ^ 64) - 1)"
        by (rule power_add)
      also have "\<dots> \<le> 2 ^ 64 * (n div 2 ^ 64)"
        using IH(2) by (rule mult_le_mono2)
      also have "\<dots> \<le> n"
        by (rule times_div_less_eq_dividend)
      finally show ?thesis .
    qed
    have hi: "n < 2 ^ (64 + nbits (n div 2 ^ 64))"
    proof -
      have "n < 2 ^ nbits (n div 2 ^ 64) * 2 ^ 64"
        using IH(3) by (simp add: div_less_iff_less_mult)
      then show ?thesis
        by (simp add: power_add mult.commute)
    qed
    from IH(1) lo hi show ?thesis
      unfolding nb by (simp add: add_diff_assoc)
  qed
qed

text \<open>Nearest integer of \<open>num / den\<close>, ties to even.\<close>

definition rne :: "nat \<Rightarrow> nat \<Rightarrow> nat" where
  "rne num den = (let q = num div den; r = num mod den
    in if 2 * r < den then q else if den < 2 * r then Suc q else if even q then q else Suc q)"

lemma rne_cases: "rne num den = num div den \<or> rne num den = Suc (num div den)"
  by (simp add: rne_def Let_def)

lemma rne_exact [simp]: "0 < den \<Longrightarrow> rne (m * den) den = m"
  by (simp add: rne_def)

lemma rne_le: "0 < d \<Longrightarrow> n \<le> m * d \<Longrightarrow> rne n d \<le> m"
proof -
  assume d: "0 < d" and n: "n \<le> m * d"
  show "rne n d \<le> m"
  proof (cases "n = m * d")
    case True
    with d show ?thesis by simp
  next
    case False
    with n have "n < m * d" by simp
    with d have "n div d < m"
      by (simp add: div_less_iff_less_mult)
    with rne_cases [of n d] show ?thesis by auto
  qed
qed

lemma rne_ge: "0 < d \<Longrightarrow> m * d \<le> n \<Longrightarrow> m \<le> rne n d"
proof -
  assume "0 < d" and "m * d \<le> n"
  then have "m \<le> n div d"
    by (simp add: less_eq_div_iff_mult_less_eq)
  with rne_cases [of n d] show "m \<le> rne n d" by auto
qed

lemma rne_mono:
  assumes d: "0 < d1" "0 < d2" and le: "n1 * d2 \<le> n2 * d1"
  shows "rne n1 d1 \<le> rne n2 d2"
proof -
  define q where "q = n2 div d2"
  define r1 where "r1 = n1 mod d1"
  define r2 where "r2 = n2 mod d2"
  have e1: "n1 = n1 div d1 * d1 + r1" and e2: "n2 = q * d2 + r2"
    by (simp_all add: q_def r1_def r2_def)
  have "n1 div d1 = (n1 * d2) div (d1 * d2)"
    using d(2) by simp
  also have "\<dots> \<le> (n2 * d1) div (d1 * d2)"
    using le by (rule div_le_mono)
  also have "\<dots> = q"
    using d(1) by (simp add: q_def mult.commute [of d1 d2])
  finally have qle: "n1 div d1 \<le> q" .
  show ?thesis
  proof (cases "n1 div d1 = q")
    case False
    with qle have "Suc (n1 div d1) \<le> q" by simp
    with rne_cases [of n1 d1] rne_cases [of n2 d2] show ?thesis
      unfolding q_def by auto
  next
    case True
    with e1 e2 have "(q * d1 + r1) * d2 \<le> (q * d2 + r2) * d1"
      using le by metis
    then have rr: "r1 * d2 \<le> r2 * d1"
      by (simp add: algebra_simps)
    have lt: "2 * r2 < d2" if "2 * r2 < d2" for r2 :: nat using that .
    have a: "2 * r1 < d1" if h: "2 * r2 < d2"
    proof -
      have "2 * r1 * d2 \<le> 2 * r2 * d1" using rr by simp
      also have "\<dots> < d2 * d1" using h d(1) by simp
      finally have "2 * r1 * d2 < d1 * d2" by (simp add: mult.commute)
      then show ?thesis by simp
    qed
    have b: "2 * r1 \<le> d1" if h: "2 * r2 \<le> d2"
    proof -
      have "2 * r1 * d2 \<le> 2 * r2 * d1" using rr by simp
      also have "\<dots> \<le> d2 * d1" using h by simp
      finally have "2 * r1 * d2 \<le> d1 * d2" by (simp add: mult.commute)
      then show ?thesis using d(2) by simp
    qed
    from a b True show ?thesis
      by (auto simp: rne_def Let_def q_def r1_def r2_def)
  qed
qed

text \<open>
  The magnitude (lower 63 bits) nearest to \<open>num / den\<close> units of \<open>2 ^ -1074\<close>. Below
  \<open>2 ^ 53\<close> units the magnitude is the number of units; above, the exponent \<open>k\<close> leaves 53
  significant bits. A carry out of the significand moves into the exponent field by itself;
  overflow reaches \<open>inf_mag\<close> or more and is cut there.
\<close>

definition round_exp :: "nat \<Rightarrow> nat" where
  "round_exp q = nbits q - 53"

definition f64_round_mag :: "nat \<Rightarrow> nat \<Rightarrow> nat" where
  "f64_round_mag num den = (let k = round_exp (num div den)
    in min inf_mag (k * 2 ^ 52 + rne num (den * 2 ^ k)))"

definition f64_round :: "bool \<Rightarrow> nat \<Rightarrow> nat \<Rightarrow> f64" where
  "f64_round s num den = f64_make s (f64_round_mag num den)"

text \<open>The value of a finite magnitude, in the same units.\<close>

definition f64_units :: "nat \<Rightarrow> nat" where
  "f64_units m = (if m < 2 ^ 52 then m else (2 ^ 52 + m mod 2 ^ 52) * 2 ^ (m div 2 ^ 52 - 1))"

lemma round_exp_bounds:
  "q < 2 ^ (53 + round_exp q)" "0 < round_exp q \<Longrightarrow> 2 ^ (52 + round_exp q) \<le> q"
proof -
  have *: "q < 2 ^ (53 + round_exp q) \<and> (0 < round_exp q \<longrightarrow> 2 ^ (52 + round_exp q) \<le> q)"
  proof (cases "q = 0")
    case True
    then show ?thesis by (simp add: round_exp_def)
  next
    case False
    then have b: "2 ^ (nbits q - 1) \<le> q" "q < 2 ^ nbits q"
      using nbits_bounds [of q] by auto
    have "q < 2 ^ (53 + round_exp q)"
      using b(2) by (rule less_le_trans) (simp add: round_exp_def)
    moreover have "2 ^ (52 + round_exp q) \<le> q" if "0 < round_exp q"
    proof -
      from that have "52 + round_exp q = nbits q - 1"
        by (simp add: round_exp_def)
      with b(1) show ?thesis by simp
    qed
    ultimately show ?thesis by blast
  qed
  show "q < 2 ^ (53 + round_exp q)" "0 < round_exp q \<Longrightarrow> 2 ^ (52 + round_exp q) \<le> q"
    using * by auto
qed

lemma round_expI:
  assumes "q < 2 ^ (53 + k)" and "k = 0 \<or> 2 ^ (52 + k) \<le> q"
  shows "round_exp q = k"
proof (rule antisym)
  show "round_exp q \<le> k"
  proof (rule ccontr)
    assume h: "\<not> round_exp q \<le> k"
    then have "2 ^ (52 + round_exp q) \<le> q"
      by (intro round_exp_bounds(2)) simp
    moreover have "(2::nat) ^ (53 + k) \<le> 2 ^ (52 + round_exp q)"
      using h by (intro power_increasing) auto
    ultimately show False using assms(1) by simp
  qed
  show "k \<le> round_exp q"
  proof (rule ccontr)
    assume h: "\<not> k \<le> round_exp q"
    with assms(2) have "2 ^ (52 + k) \<le> q" by auto
    moreover have "(2::nat) ^ (53 + round_exp q) \<le> 2 ^ (52 + k)"
      using h by (intro power_increasing) auto
    ultimately show False using round_exp_bounds(1) [of q] by simp
  qed
qed

lemma round_exp_mono: "p \<le> q \<Longrightarrow> round_exp p \<le> round_exp q"
proof (rule ccontr)
  assume le: "p \<le> q" and h: "\<not> round_exp p \<le> round_exp q"
  then have "2 ^ (52 + round_exp p) \<le> p"
    by (intro round_exp_bounds(2)) simp
  moreover have "(2::nat) ^ (53 + round_exp q) \<le> 2 ^ (52 + round_exp p)"
    using h by (intro power_increasing) auto
  ultimately show False using round_exp_bounds(1) [of q] le by simp
qed

text \<open>Evaluation of a rounding at a known exponent.\<close>

lemma f64_round_magI:
  assumes "num div den < 2 ^ (53 + k)" and "k = 0 \<or> 2 ^ (52 + k) \<le> num div den"
  shows "f64_round_mag num den = min inf_mag (k * 2 ^ 52 + rne num (den * 2 ^ k))"
  using round_expI [OF assms] by (simp add: f64_round_mag_def)

lemma f64_round_mag_le_inf [simp]: "f64_round_mag n d \<le> inf_mag"
  by (simp add: f64_round_mag_def Let_def)

lemma inf_mag_lt: "inf_mag < 2 ^ 63"
  by (simp add: inf_mag_def)

lemma f64_round_mag_lt: "f64_round_mag n d < 2 ^ 63"
  using f64_round_mag_le_inf inf_mag_lt by (rule le_less_trans)

lemma f64_mag_round [simp]: "f64_mag (f64_round s n d) = f64_round_mag n d"
  using f64_round_mag_lt unfolding f64_round_def by (rule f64_mag_make)

lemma f64_neg_round [simp]: "f64_neg (f64_round s n d) = s"
  using f64_round_mag_lt unfolding f64_round_def by (rule f64_neg_make)

lemma f64_round_not_nan [simp]: "\<not> f64_is_nan (f64_round s n d)"
  by (simp add: f64_is_nan_def not_less)

lemma rne_upper: "0 < d \<Longrightarrow> rne n (d * 2 ^ round_exp (n div d)) \<le> 2 ^ 53"
proof (rule rne_le)
  assume d: "0 < d"
  then show "0 < d * 2 ^ round_exp (n div d)" by simp
  have "n div d < 2 ^ 53 * 2 ^ round_exp (n div d)"
    using round_exp_bounds(1) [of "n div d"] by (simp only: power_add)
  then have "n < 2 ^ 53 * 2 ^ round_exp (n div d) * d"
    using d by (simp only: div_less_iff_less_mult)
  then show "n \<le> 2 ^ 53 * (d * 2 ^ round_exp (n div d))"
    by (simp only: ac_simps less_imp_le)
qed

lemma rne_lower: "0 < d \<Longrightarrow> 0 < round_exp (n div d) \<Longrightarrow> 2 ^ 52 \<le> rne n (d * 2 ^ round_exp (n div d))"
proof (rule rne_ge)
  assume d: "0 < d" and k: "0 < round_exp (n div d)"
  then show "0 < d * 2 ^ round_exp (n div d)" by simp
  have "2 ^ 52 * 2 ^ round_exp (n div d) \<le> n div d"
    using round_exp_bounds(2) [OF k] by (simp only: power_add)
  then have "2 ^ 52 * 2 ^ round_exp (n div d) * d \<le> n"
    using d by (simp only: less_eq_div_iff_mult_less_eq)
  then show "2 ^ 52 * (d * 2 ^ round_exp (n div d)) \<le> n"
    by (simp only: ac_simps)
qed

text \<open>Rounding is monotone, and exact on values that are floats already.\<close>

lemma f64_round_mag_mono:
  assumes d: "0 < d1" "0 < d2" and le: "n1 * d2 \<le> n2 * d1"
  shows "f64_round_mag n1 d1 \<le> f64_round_mag n2 d2"
proof -
  define k1 where "k1 = round_exp (n1 div d1)"
  define k2 where "k2 = round_exp (n2 div d2)"
  have "n1 div d1 = (n1 * d2) div (d1 * d2)"
    using d(2) by simp
  also have "\<dots> \<le> (n2 * d1) div (d1 * d2)"
    using le by (rule div_le_mono)
  also have "\<dots> = n2 div d2"
    using d(1) by (simp add: mult.commute [of d1 d2])
  finally have k: "k1 \<le> k2"
    unfolding k1_def k2_def by (rule round_exp_mono)
  have "k1 * 2 ^ 52 + rne n1 (d1 * 2 ^ k1) \<le> k2 * 2 ^ 52 + rne n2 (d2 * 2 ^ k2)"
  proof (cases "k1 = k2")
    case True
    have "n1 * (d2 * 2 ^ k2) = n1 * d2 * 2 ^ k2"
      by (rule mult.assoc [symmetric])
    also have "\<dots> \<le> n2 * d1 * 2 ^ k2"
      using le by (rule mult_le_mono1)
    also have "\<dots> = n2 * (d1 * 2 ^ k1)"
      using True by (simp only: mult.assoc)
    finally have "rne n1 (d1 * 2 ^ k1) \<le> rne n2 (d2 * 2 ^ k2)"
      using d by (intro rne_mono) simp_all
    with True show ?thesis by simp
  next
    case False
    with k have lt: "k1 < k2" by simp
    have "rne n1 (d1 * 2 ^ k1) \<le> 2 ^ 53"
      unfolding k1_def using d(1) by (rule rne_upper)
    moreover have "2 ^ 52 \<le> rne n2 (d2 * 2 ^ k2)"
      using lt d(2) unfolding k2_def by (intro rne_lower) simp_all
    moreover have "(k1 + 1) * 2 ^ 52 \<le> k2 * (2::nat) ^ 52"
      using lt by (intro mult_le_mono1) simp
    ultimately show ?thesis by simp
  qed
  then have "min inf_mag (k1 * 2 ^ 52 + rne n1 (d1 * 2 ^ k1)) \<le> min inf_mag (k2 * 2 ^ 52 + rne n2 (d2 * 2 ^ k2))"
    by (rule min.mono [OF order_refl])
  then show ?thesis
    by (simp add: f64_round_mag_def Let_def k1_def k2_def)
qed

lemma f64_round_mag_units:
  assumes "m \<le> inf_mag"
  shows "f64_round_mag (f64_units m) 1 = m"
proof (cases "m < 2 ^ 52")
  case True
  then have "round_exp m = 0"
    by (intro round_expI) simp_all
  moreover have "rne m 1 = m"
    using rne_exact [of 1 m] by simp
  ultimately show ?thesis
    using True assms by (simp add: f64_round_mag_def f64_units_def)
next
  case False
  define k where "k = m div 2 ^ 52 - 1"
  define f where "f = m mod 2 ^ 52"
  have "1 \<le> m div 2 ^ 52"
    using False by (simp add: less_eq_div_iff_mult_less_eq)
  then have e: "m div 2 ^ 52 = Suc k"
    by (simp add: k_def)
  have m: "m = k * 2 ^ 52 + (2 ^ 52 + f)"
    using div_mult_mod_eq [of m "2 ^ 52"] unfolding e f_def by simp
  have f: "f < 2 ^ 52"
    by (simp add: f_def)
  have u: "f64_units m = (2 ^ 52 + f) * 2 ^ k"
    using False by (simp add: f64_units_def k_def f_def)
  have "(2 ^ 52 + f) * 2 ^ k < 2 ^ 53 * (2::nat) ^ k"
    using f by (intro mult_strict_right_mono) simp_all
  moreover have "2 ^ 52 * 2 ^ k \<le> (2 ^ 52 + f) * (2::nat) ^ k"
    by (intro mult_le_mono1) simp
  ultimately have "round_exp (f64_units m) = k"
    unfolding u by (intro round_expI) (simp_all only: power_add disjI2)
  moreover have "rne (f64_units m) (2 ^ k) = 2 ^ 52 + f"
    unfolding u by (rule rne_exact) simp
  ultimately show ?thesis
    using m assms by (simp add: f64_round_mag_def)
qed

lemmas f64_round_mag_units_Suc [simp] = f64_round_mag_units [unfolded One_nat_def]

lemma f64_units_less_iff:
  assumes "m1 \<le> inf_mag" "m2 \<le> inf_mag"
  shows "f64_units m1 < f64_units m2 \<longleftrightarrow> m1 < m2"
proof -
  have le: "m \<le> m'" if "f64_units m \<le> f64_units m'" "m \<le> inf_mag" "m' \<le> inf_mag" for m m'
    using f64_round_mag_mono [of 1 1 "f64_units m" "f64_units m'"] that
    by (simp add: f64_round_mag_units)
  show ?thesis
  proof
    assume h: "f64_units m1 < f64_units m2"
    then have "m1 \<le> m2" using le assms by simp
    moreover from h have "m1 \<noteq> m2" by auto
    ultimately show "m1 < m2" by simp
  next
    assume h: "m1 < m2"
    show "f64_units m1 < f64_units m2"
    proof (rule ccontr)
      assume "\<not> f64_units m1 < f64_units m2"
      then have "m2 \<le> m1" using le assms by simp
      with h show False by simp
    qed
  qed
qed

subsection \<open>Arithmetic and conversions\<close>

definition f64_uminus :: "f64 \<Rightarrow> f64" where
  "f64_uminus x = f64_make (\<not> f64_neg x) (f64_mag x)"

definition f64_mul :: "f64 \<Rightarrow> f64 \<Rightarrow> f64" where
  "f64_mul x y =
     (if f64_is_nan x \<or> f64_is_nan y then f64_nan
      else if f64_is_inf x \<or> f64_is_inf y then
        (if f64_mag x = 0 \<or> f64_mag y = 0 then f64_nan
         else f64_make (f64_neg x \<noteq> f64_neg y) inf_mag)
      else f64_round (f64_neg x \<noteq> f64_neg y) (f64_units (f64_mag x) * f64_units (f64_mag y)) (2 ^ 1074))"

text \<open>The signed value of a finite float in units.\<close>

definition f64_sunits :: "f64 \<Rightarrow> int" where
  "f64_sunits x = (if f64_neg x then - int (f64_units (f64_mag x)) else int (f64_units (f64_mag x)))"

definition f64_add :: "f64 \<Rightarrow> f64 \<Rightarrow> f64" where
  "f64_add x y =
     (if f64_is_nan x \<or> f64_is_nan y then f64_nan
      else if f64_is_inf x then (if f64_is_inf y \<and> f64_neg x \<noteq> f64_neg y then f64_nan else x)
      else if f64_is_inf y then y
      else let s = f64_sunits x + f64_sunits y
        in f64_round (if s = 0 then f64_neg x \<and> f64_neg y else s < 0) (nat \<bar>s\<bar>) 1)"

definition f64_sub :: "f64 \<Rightarrow> f64 \<Rightarrow> f64" where
  "f64_sub x y = f64_add x (f64_uminus y)"

definition f64_div :: "f64 \<Rightarrow> f64 \<Rightarrow> f64" where
  "f64_div x y =
     (if f64_is_nan x \<or> f64_is_nan y then f64_nan
      else if f64_is_inf x then (if f64_is_inf y then f64_nan else f64_make (f64_neg x \<noteq> f64_neg y) inf_mag)
      else if f64_is_inf y then f64_make (f64_neg x \<noteq> f64_neg y) 0
      else if f64_mag y = 0 then (if f64_mag x = 0 then f64_nan else f64_make (f64_neg x \<noteq> f64_neg y) inf_mag)
      else f64_round (f64_neg x \<noteq> f64_neg y) (f64_units (f64_mag x) * 2 ^ 1074) (f64_units (f64_mag y)))"

definition f64_of_int :: "int \<Rightarrow> f64" where
  "f64_of_int i = f64_round (i < 0) (nat \<bar>i\<bar> * 2 ^ 1074) 1"

text \<open>\<open>float64(x)\<close> for a \<open>float32\<close> pattern: exact.\<close>

definition f64_of_f32 :: "32 word \<Rightarrow> f64" where
  "f64_of_f32 w = (let s = (2 ^ 31 \<le> unat w); m = unat w mod 2 ^ 31; e = m div 2 ^ 23; f = m mod 2 ^ 23
    in if e = 255 then (if f = 0 then f64_make s inf_mag else f64_nan)
       else if e = 0 then f64_round s (f * 2 ^ 925) 1
       else f64_round s ((2 ^ 23 + f) * 2 ^ (e + 924)) 1)"

text \<open>Multiplication by a non-negative constant keeps the order of non-negative factors.\<close>

lemma f64_finite_not_special: "f64_finite x \<Longrightarrow> \<not> f64_is_nan x \<and> \<not> f64_is_inf x"
  by (simp add: f64_finite_def f64_is_nan_def f64_is_inf_def)

lemma f64_mul_finite:
  "f64_finite x \<Longrightarrow> f64_finite y \<Longrightarrow>
   f64_mul x y = f64_round (f64_neg x \<noteq> f64_neg y) (f64_units (f64_mag x) * f64_units (f64_mag y)) (2 ^ 1074)"
  by (simp add: f64_mul_def f64_finite_not_special)

lemma f64_mul_mono_right:
  assumes fin: "f64_finite x" "f64_finite c" "f64_finite d"
    and sgn: "\<not> f64_neg x" "\<not> f64_neg c" "\<not> f64_neg d" and le: "f64_mag c \<le> f64_mag d"
  shows "f64_le (f64_mul x c) (f64_mul x d)"
proof -
  have "f64_units (f64_mag c) \<le> f64_units (f64_mag d)"
    using f64_units_less_iff [of "f64_mag d" "f64_mag c"] le fin
    by (simp add: f64_finite_def not_less [symmetric])
  then have "f64_units (f64_mag x) * f64_units (f64_mag c) * 2 ^ 1074
      \<le> f64_units (f64_mag x) * f64_units (f64_mag d) * 2 ^ 1074"
    by (intro mult_le_mono order_refl)
  then have "f64_round_mag (f64_units (f64_mag x) * f64_units (f64_mag c)) (2 ^ 1074)
      \<le> f64_round_mag (f64_units (f64_mag x) * f64_units (f64_mag d)) (2 ^ 1074)"
    by (intro f64_round_mag_mono) (simp_all only: zero_less_power zero_less_numeral)
  then show ?thesis
    using fin sgn by (simp add: f64_mul_finite f64_le_def f64_key_def)
qed

definition f64_one :: f64 where "f64_one = 0x3FF0000000000000"

lemma f64_one_units: "f64_units (f64_mag f64_one) = 2 ^ 1074"
proof -
  have "f64_mag f64_one = 1023 * 2 ^ 52"
    by (simp add: f64_mag_def f64_one_def)
  then have "f64_units (f64_mag f64_one) = 2 ^ 52 * 2 ^ 1022"
    by (simp add: f64_units_def)
  then show ?thesis
    by (simp only: power_add [symmetric]) simp
qed

lemma f64_mul_one: "f64_finite x \<Longrightarrow> f64_mul x f64_one = x"
proof -
  assume fin: "f64_finite x"
  have one: "f64_finite f64_one" "\<not> f64_neg f64_one"
    by (simp_all add: f64_one_def f64_finite_def f64_mag_def f64_neg_def inf_mag_def)
  have le: "f64_mag x \<le> inf_mag"
    using fin by (simp add: f64_finite_def)
  have pos: "(0::nat) < 2 ^ 1074" by (rule zero_less_power) simp
  let ?u = "f64_units (f64_mag x)"
  have "f64_round_mag (?u * 2 ^ 1074) (2 ^ 1074) = f64_round_mag ?u 1"
    by (rule antisym; rule f64_round_mag_mono) (simp_all only: pos zero_less_one mult.right_neutral order_refl)
  then show ?thesis
    using fin one le by (simp add: f64_mul_finite f64_one_units f64_round_def f64_round_mag_units)
qed

text \<open>The constants 45, 35, 5, 100, 50 as float64 patterns.\<close>

definition f64_45 :: f64 where "f64_45 = 0x4046800000000000"
definition f64_35 :: f64 where "f64_35 = 0x4041800000000000"
definition f64_5 :: f64 where "f64_5 = 0x4014000000000000"
definition f64_100 :: f64 where "f64_100 = 0x4059000000000000"
definition f64_50 :: f64 where "f64_50 = 0x4049000000000000"

text \<open>0.001, the margin of the two-person rule.\<close>

definition f64_milli :: f64 where "f64_milli = 0x3F50624DD2F1A9FC"

text \<open>Adding a negative float does not increase a finite one, and dually.\<close>

lemma f64_milli_facts [simp]:
  "f64_finite f64_milli" "f64_finite (f64_uminus f64_milli)" "f64_neg (f64_uminus f64_milli)" "\<not> f64_neg f64_milli"
  by (simp_all add: f64_finite_def f64_milli_def f64_mag_def [of "0x3F50624DD2F1A9FC"] f64_neg_def [of "0x3F50624DD2F1A9FC"] f64_uminus_def f64_mag_make f64_neg_make inf_mag_def)

definition f64_round_int :: "int \<Rightarrow> f64" where
  "f64_round_int s = f64_round (s < 0) (nat \<bar>s\<bar>) 1"

lemma f64_round_int_mono:
  assumes "a \<le> b" shows "f64_key (f64_round_int a) \<le> f64_key (f64_round_int b)"
proof -
  have "f64_round_mag (nat \<bar>a\<bar>) 1 \<le> f64_round_mag (nat \<bar>b\<bar>) 1" if "0 \<le> a"
    using assms that by (intro f64_round_mag_mono) auto
  moreover have "f64_round_mag (nat \<bar>b\<bar>) 1 \<le> f64_round_mag (nat \<bar>a\<bar>) 1" if "b < 0"
    using assms that by (intro f64_round_mag_mono) auto
  ultimately show ?thesis
    using assms by (auto simp: f64_round_int_def f64_key_def)
qed

lemma f64_units_eq_0 [simp]: "f64_units m = 0 \<longleftrightarrow> m = 0"
  by (auto simp: f64_units_def)

lemma f64_round_mag_0 [simp]: "f64_round_mag 0 (Suc 0) = 0"
  using f64_round_mag_units [of 0] by (simp add: f64_units_def)

lemma f64_round_int_sunits: "f64_finite x \<Longrightarrow> f64_key (f64_round_int (f64_sunits x)) = f64_key x"
  by (auto simp: f64_round_int_def f64_key_def f64_sunits_def f64_finite_def)

lemma f64_add_key:
  assumes "f64_finite x" "f64_finite y"
  shows "f64_key (f64_add x y) = f64_key (f64_round_int (f64_sunits x + f64_sunits y)) \<and> \<not> f64_is_nan (f64_add x y)"
  using assms by (auto simp: f64_add_def f64_round_int_def f64_key_def f64_finite_not_special Let_def)

lemma f64_add_neg_le:
  assumes "f64_finite x" "f64_finite y" "f64_neg y"
  shows "f64_le (f64_add x y) x"
proof -
  have "f64_sunits x + f64_sunits y \<le> f64_sunits x"
    using assms(3) by (simp add: f64_sunits_def)
  then have "f64_key (f64_add x y) \<le> f64_key x"
    using f64_round_int_mono f64_round_int_sunits [OF assms(1)] f64_add_key [OF assms(1,2)] by metis
  then show ?thesis
    using f64_add_key [OF assms(1,2)] assms(1) by (simp add: f64_le_def f64_finite_not_special)
qed

lemma f64_add_pos_ge:
  assumes "f64_finite x" "f64_finite y" "\<not> f64_neg y"
  shows "f64_le x (f64_add x y)"
proof -
  have "f64_sunits x \<le> f64_sunits x + f64_sunits y"
    using assms(3) by (simp add: f64_sunits_def)
  then have "f64_key x \<le> f64_key (f64_add x y)"
    using f64_round_int_mono f64_round_int_sunits [OF assms(1)] f64_add_key [OF assms(1,2)] by metis
  then show ?thesis
    using f64_add_key [OF assms(1,2)] assms(1) by (simp add: f64_le_def f64_finite_not_special)
qed

end
