(* ===== verification/Go_Strconv.thy ===== *)
theory Go_Strconv
  imports Go_Float
begin

text \<open>
  The number parsers of Go's standard library that the program calls:
  \<open>strconv.ParseFloat(s, 64)\<close>, \<open>strconv.Atoi\<close> / \<open>ParseInt(s, 10, 64)\<close> and
  \<open>fmt.Sscanf(s, "%f", &f)\<close>. They follow the library's scanners (sign, the NaN and
  infinity words, decimal and hexadecimal mantissas, underscores, the exponent capped at
  five digits), and round the exact value with the rounding of Go_Float.
\<close>

datatype num_error = ErrSyntax | ErrRange

definition ascii_lower :: "char \<Rightarrow> char" where
  "ascii_lower c = (let n = of_char c :: nat in if 65 \<le> n \<and> n \<le> 90 then char_of (n + 32) else c)"

fun common_prefix_ci :: "string \<Rightarrow> string \<Rightarrow> nat" where
  "common_prefix_ci (c # s) (p # ps) = (if ascii_lower c = p then Suc (common_prefix_ci s ps) else 0)"
| "common_prefix_ci _ _ = 0"

definition parse_inf :: "bool \<Rightarrow> nat \<Rightarrow> string \<Rightarrow> (f64 \<times> nat) option" where
  "parse_inf neg nsign s =
     (let n = common_prefix_ci s ''infinity''; n' = (if 3 < n \<and> n < 8 then 3 else n)
      in if n' = 3 \<or> n' = 8 then Some (f64_make neg inf_mag, nsign + n') else None)"

text \<open>The words NaN, Inf and Infinity: the value and the number of bytes consumed.\<close>

definition parse_special :: "string \<Rightarrow> (f64 \<times> nat) option" where
  "parse_special s = (case s of [] \<Rightarrow> None
     | c # cs \<Rightarrow>
         if c = CHR ''+'' \<or> c = CHR ''-'' then parse_inf (c = CHR ''-'') 1 cs
         else if c = CHR ''i'' \<or> c = CHR ''I'' then parse_inf False 0 s
         else if (c = CHR ''n'' \<or> c = CHR ''N'') \<and> common_prefix_ci s ''nan'' = 3 then Some (f64_nan, 3)
         else None)"

definition digit_of :: "bool \<Rightarrow> char \<Rightarrow> nat option" where
  "digit_of hex c = (let n = of_char c :: nat in
     if 48 \<le> n \<and> n \<le> 57 then Some (n - 48)
     else if hex \<and> 97 \<le> n \<and> n \<le> 102 then Some (n - 87)
     else if hex \<and> 65 \<le> n \<and> n \<le> 70 then Some (n - 55)
     else None)"

text \<open>Mantissa: its digits as a number, how many follow the point, whether there was one at all, the rest.\<close>

fun scan_mant :: "bool \<Rightarrow> nat \<Rightarrow> nat \<Rightarrow> bool \<Rightarrow> bool \<Rightarrow> string \<Rightarrow> nat \<times> nat \<times> bool \<times> string" where
  "scan_mant hex m fd dot dig [] = (m, fd, dig, [])"
| "scan_mant hex m fd dot dig (c # cs) =
     (if c = CHR ''_'' then scan_mant hex m fd dot dig cs
      else if c = CHR ''.'' then (if dot then (m, fd, dig, c # cs) else scan_mant hex m fd True dig cs)
      else case digit_of hex c of
          Some d \<Rightarrow> scan_mant hex (m * (if hex then 16 else 10) + d) (if dot then Suc fd else fd) dot True cs
        | None \<Rightarrow> (m, fd, dig, c # cs))"

fun scan_exp :: "nat \<Rightarrow> string \<Rightarrow> nat \<times> string" where
  "scan_exp e [] = (e, [])"
| "scan_exp e (c # cs) =
     (if c = CHR ''_'' then scan_exp e cs
      else if is_digit c then scan_exp (if e < 10000 then e * 10 + digit_val c else e) cs
      else (e, c # cs))"

text \<open>The optional exponent: its value and the rest, None when it is malformed (or missing in a hexadecimal number).\<close>

definition read_exp :: "bool \<Rightarrow> string \<Rightarrow> (int \<times> string) option" where
  "read_exp hex r = (case r of
       c # r' \<Rightarrow>
         if ascii_lower c = (if hex then CHR ''p'' else CHR ''e'') then
           (let neg = (r' \<noteq> [] \<and> hd r' = CHR ''-'');
                r'' = (if r' \<noteq> [] \<and> (hd r' = CHR ''-'' \<or> hd r' = CHR ''+'') then tl r' else r')
            in if r'' = [] \<or> \<not> is_digit (hd r'') then None
               else let (e, q) = scan_exp 0 r'' in Some (if neg then - int e else int e, q))
         else if hex then None else Some (0, r)
     | [] \<Rightarrow> if hex then None else Some (0, []))"

text \<open>\<open>underscoreOK\<close>: an underscore stands between digits or after the base prefix.\<close>

fun underscores_from :: "bool \<Rightarrow> char \<Rightarrow> string \<Rightarrow> bool" where
  "underscores_from hex saw [] \<longleftrightarrow> saw \<noteq> CHR ''_''"
| "underscores_from hex saw (c # cs) \<longleftrightarrow>
     (if digit_of hex c \<noteq> None then underscores_from hex CHR ''0'' cs
      else if c = CHR ''_'' then saw = CHR ''0'' \<and> underscores_from hex CHR ''_'' cs
      else saw \<noteq> CHR ''_'' \<and> underscores_from hex CHR ''!'' cs)"

definition underscore_ok :: "string \<Rightarrow> bool" where
  "underscore_ok s =
     (let s1 = (if s \<noteq> [] \<and> (hd s = CHR ''-'' \<or> hd s = CHR ''+'') then tl s else s);
          pre = (2 \<le> length s1 \<and> s1 ! 0 = CHR ''0'' \<and> ascii_lower (s1 ! 1) \<in> set ''box'')
      in if pre then underscores_from (ascii_lower (s1 ! 1) = CHR ''x'') CHR ''0'' (drop 2 s1)
         else underscores_from False CHR ''^'' s1)"

text \<open>\<open>readFloat\<close>: sign, numerator and denominator of the exact value, and the unread rest.\<close>

definition read_float :: "string \<Rightarrow> (bool \<times> nat \<times> nat \<times> string) option" where
  "read_float s =
     (let neg = (s \<noteq> [] \<and> hd s = CHR ''-'');
          s1 = (if s \<noteq> [] \<and> (hd s = CHR ''-'' \<or> hd s = CHR ''+'') then tl s else s);
          hex = (2 < length s1 \<and> s1 ! 0 = CHR ''0'' \<and> ascii_lower (s1 ! 1) = CHR ''x'');
          (m, fd, dig, r) = scan_mant hex 0 0 False False (if hex then drop 2 s1 else s1)
      in if \<not> dig then None
         else case read_exp hex r of None \<Rightarrow> None
           | Some (e, rest) \<Rightarrow>
               let used = take (length s - length rest) s; b = (if hex then 2 else 10);
                   num = m * (if 0 \<le> e then b ^ nat e else 1);
                   den = (if hex then 16 else 10) ^ fd * (if 0 \<le> e then 1 else b ^ nat (- e))
               in if CHR ''_'' \<in> set used \<and> \<not> underscore_ok used then None
                  else Some (neg, num, den, rest))"

definition f64_of_ratio :: "bool \<Rightarrow> nat \<Rightarrow> nat \<Rightarrow> f64" where
  "f64_of_ratio neg num den = f64_round neg (num * 2 ^ 1074) den"

definition parse_float :: "string \<Rightarrow> f64 \<times> num_error option" where
  "parse_float s = (case parse_special s of
       Some (v, n) \<Rightarrow> if n = length s then (v, None) else (0, Some ErrSyntax)
     | None \<Rightarrow> (case read_float s of
           None \<Rightarrow> (0, Some ErrSyntax)
         | Some (neg, num, den, rest) \<Rightarrow>
             if rest \<noteq> [] then (0, Some ErrSyntax)
             else let v = f64_of_ratio neg num den
               in (v, if f64_is_inf v then Some ErrRange else None)))"

text \<open>\<open>strconv.Atoi\<close> and \<open>ParseInt(s, 10, 64)\<close>: None stands for any error.\<close>

definition parse_int64 :: "string \<Rightarrow> int option" where
  "parse_int64 s =
     (let neg = (s \<noteq> [] \<and> hd s = CHR ''-'');
          ds = (if s \<noteq> [] \<and> (hd s = CHR ''-'' \<or> hd s = CHR ''+'') then tl s else s);
          v = (if neg then - int (dec_val ds) else int (dec_val ds))
      in if ds = [] \<or> \<not> list_all is_digit ds \<or> v < - (2 ^ 63) \<or> 2 ^ 63 \<le> v then None else Some v)"

subsection \<open>fmt.Sscanf with the verb f\<close>

definition acc1 :: "string \<Rightarrow> string \<times> string \<Rightarrow> bool \<times> string \<times> string" where
  "acc1 ok st = (case snd st of
       c # r \<Rightarrow> if c \<in> set ok then (True, fst st @ [c], r) else (False, st)
     | [] \<Rightarrow> (False, st))"

definition acc_many :: "string \<Rightarrow> string \<times> string \<Rightarrow> string \<times> string" where
  "acc_many ok st = (fst st @ takeWhile (\<lambda>c. c \<in> set ok) (snd st), dropWhile (\<lambda>c. c \<in> set ok) (snd st))"

definition acc_if :: "bool \<Rightarrow> string \<Rightarrow> string \<times> string \<Rightarrow> bool \<times> string \<times> string" where
  "acc_if b ok st = (if b then acc1 ok st else (False, st))"

definition float_number_token :: "string \<times> string \<Rightarrow> string" where
  "float_number_token s0 =
     (let (z, s1) = acc1 ''0'' s0; (x, s2) = acc_if z ''xX'' s1;
          digits = (if x then ''0123456789aAbBcCdDeEfF_'' else ''0123456789_'');
          s3 = acc_many digits s2; (d, s4) = acc1 ''.'' s3;
          s5 = (if d then acc_many digits s4 else s4);
          (e, s6) = acc1 (if x then ''pP'' else ''eEpP'') s5
      in if e then fst (acc_many ''0123456789_'' (snd (acc1 ''+-'' s6))) else fst s6)"

definition float_token :: "string \<Rightarrow> string" where
  "float_token s =
     (let (n1, s1) = acc1 ''nN'' ([], s); (n2, s2) = acc_if n1 ''aA'' s1; (n3, s3) = acc_if n2 ''nN'' s2
      in if n3 then fst s3
         else let (_, s4) = acc1 ''+-'' s3; (i1, s5) = acc1 ''iI'' s4;
                  (i2, s6) = acc_if i1 ''nN'' s5; (i3, s7) = acc_if i2 ''fF'' s6
           in if i3 then fst s7 else float_number_token s7)"

text \<open>\<open>math.Ldexp\<close> on a parsed value; the exponent sum is a 64-bit \<open>int\<close>.\<close>

definition f64_ldexp :: "f64 \<Rightarrow> int \<Rightarrow> f64" where
  "f64_ldexp x k =
     (if \<not> f64_finite x \<or> f64_mag x = 0 then x
      else let u = f64_units (f64_mag x);
               ex = sint (word_of_int (k + int (nbits u) - 1075) :: 64 word)
        in if ex < -1075 then f64_make (f64_neg x) 0
           else if 1023 < ex then f64_make (f64_neg x) inf_mag
           else if 0 \<le> k then f64_round (f64_neg x) (u * 2 ^ nat k) 1
           else f64_round (f64_neg x) u (2 ^ nat (- k)))"

definition convert_float :: "string \<Rightarrow> f64 option" where
  "convert_float tok =
     (if CHR ''p'' \<in> set tok \<and> CHR ''x'' \<notin> set tok \<and> CHR ''X'' \<notin> set tok then
        (let p = length (takeWhile (\<lambda>c. c \<noteq> CHR ''p'') tok)
         in case parse_float (take p tok) of
              (f, None) \<Rightarrow> map_option (f64_ldexp f) (parse_int64 (drop (Suc p) tok))
            | (f, Some _) \<Rightarrow> None)
      else case parse_float tok of (f, None) \<Rightarrow> Some f | (f, Some _) \<Rightarrow> None)"

text \<open>
  Leading space is skipped, a newline is an error. The multi-byte spaces are the UTF-8
  encodings of U+0085, U+00A0, U+1680, U+2000 to U+200A, U+2028, U+2029, U+202F, U+205F
  and U+3000.
\<close>

definition space2 :: "nat \<Rightarrow> nat \<Rightarrow> bool" where
  "space2 a b \<longleftrightarrow> a = 0xC2 \<and> (b = 0x85 \<or> b = 0xA0)"

definition space3 :: "nat \<Rightarrow> nat \<Rightarrow> nat \<Rightarrow> bool" where
  "space3 a b c \<longleftrightarrow>
     (a = 0xE1 \<and> b = 0x9A \<and> c = 0x80)
   \<or> (a = 0xE2 \<and> b = 0x80 \<and> (0x80 \<le> c \<and> c \<le> 0x8A \<or> c = 0xA8 \<or> c = 0xA9 \<or> c = 0xAF))
   \<or> (a = 0xE2 \<and> b = 0x81 \<and> c = 0x9F)
   \<or> (a = 0xE3 \<and> b = 0x80 \<and> c = 0x80)"

definition space_len :: "string \<Rightarrow> nat" where
  "space_len s = (case map of_char s of
       a # t \<Rightarrow>
         if a = 32 \<or> (9 \<le> a \<and> a \<le> 13) then 1
         else (case t of b # t' \<Rightarrow>
             if space2 a b then 2
             else (case t' of c # _ \<Rightarrow> if space3 a b c then 3 else 0 | [] \<Rightarrow> 0)
           | [] \<Rightarrow> 0)
     | [] \<Rightarrow> (0::nat))"

function skip_space :: "string \<Rightarrow> string option" where
  "skip_space s =
     (if s \<noteq> [] \<and> of_char (hd s) = (10::nat) then None
      else if s = [] \<or> space_len s = 0 then Some s
      else skip_space (drop (space_len s) s))"
  by pat_completeness auto
termination
  by (relation "measure length") auto

declare skip_space.simps [simp del]

definition sscanf_f :: "string \<Rightarrow> f64 option" where
  "sscanf_f s = (case skip_space s of
       None \<Rightarrow> None
     | Some r \<Rightarrow> if r = [] then None else convert_float (float_token r))"

lemmas parse_float_eval = parse_float_def parse_special_def parse_inf_def read_float_def read_exp_def
  digit_of_def is_digit_def digit_val_def underscore_ok_def ascii_lower_def f64_of_ratio_def
lemmas sscanf_eval = sscanf_f_def skip_space.simps space_len_def space2_def space3_def convert_float_def
  float_token_def float_number_token_def acc1_def acc_many_def acc_if_def

lemma f64_nan_is_nan [simp]: "f64_is_nan f64_nan"
  by (simp add: f64_is_nan_def f64_mag_def f64_nan_def inf_mag_def)

lemma zero_f64 [simp]: "f64_mag 0 = 0" "\<not> f64_neg 0" "\<not> f64_is_nan 0" "f64_key 0 = 0"
  by (simp_all add: f64_mag_def f64_neg_def f64_is_nan_def f64_key_def)

lemma sscanf_nan: "sscanf_f ''nan'' = Some f64_nan"
  by (simp add: sscanf_eval parse_float_eval)

end
