(* ===== verification/Go_Json.thy ===== *)
theory Go_Json
  imports Go_Strconv
begin

text \<open>
  Request bodies and Go's \<open>any\<close>. A body that is syntactically valid JSON is a \<open>json\<close> value
  (numbers keep their literal); decoding it into a handler's anonymous struct follows
  encoding/json: keys are matched without regard to case, later keys win, \<open>null\<close> leaves a
  field alone, and a value of the wrong type leaves the field alone and makes \<open>Decode\<close>
  return an error after the remaining fields have been read. The JSON tokenizer itself is
  not modelled: a body that does not parse is \<open>None\<close> and decodes to nothing but an error.
\<close>

datatype json =
    JNull
  | JBool bool
  | JNum string
  | JStr string
  | JArr "json list"
  | JObj "(string \<times> json) list"

text \<open>The dynamic types the program's type switches distinguish.\<close>

datatype any =
    ANil
  | ABool bool
  | AFloat64 f64
  | AFloat32 "32 word"
  | AInt "64 word"
  | AInt64 "64 word"
  | ANumber string
  | AString string
  | AJson json

text \<open>
  Key folding: ASCII letters to upper case, and the two non-ASCII runes whose simple case
  folding meets ASCII, U+017F (long s) and U+212A (the Kelvin sign).
\<close>

fun fold_key :: "string \<Rightarrow> string" where
  "fold_key [] = []"
| "fold_key (c # cs) =
     (if of_char c = (0xC5::nat) \<and> cs \<noteq> [] \<and> of_char (hd cs) = (0xBF::nat) then CHR ''S'' # fold_key (tl cs)
      else if of_char c = (0xE2::nat) \<and> 2 \<le> length cs \<and> of_char (hd cs) = (0x84::nat) \<and> of_char (cs ! 1) = (0xAA::nat)
        then CHR ''K'' # fold_key (drop 2 cs)
      else (if 97 \<le> (of_char c :: nat) \<and> (of_char c :: nat) \<le> 122 then char_of ((of_char c :: nat) - 32) else c) # fold_key cs)"

fun json_numbers_ok :: "json \<Rightarrow> bool" where
  "json_numbers_ok (JNum l) \<longleftrightarrow> snd (parse_float l) = None"
| "json_numbers_ok (JArr js) \<longleftrightarrow> list_all json_numbers_ok js"
| "json_numbers_ok (JObj kvs) \<longleftrightarrow> list_all (\<lambda>kv. json_numbers_ok (snd kv)) kvs"
| "json_numbers_ok _ \<longleftrightarrow> True"

text \<open>One assignment to a field: the new value and whether the step was free of errors.\<close>

fun set_string :: "json \<Rightarrow> string \<Rightarrow> string \<times> bool" where
  "set_string (JStr s) old = (s, True)"
| "set_string JNull old = (old, True)"
| "set_string _ old = (old, False)"

fun set_float :: "json \<Rightarrow> f64 \<Rightarrow> f64 \<times> bool" where
  "set_float (JNum l) old = (case parse_float l of (v, None) \<Rightarrow> (v, True) | (_, Some _) \<Rightarrow> (old, False))"
| "set_float JNull old = (old, True)"
| "set_float _ old = (old, False)"

fun set_any :: "json \<Rightarrow> any \<Rightarrow> any \<times> bool" where
  "set_any JNull old = (ANil, True)"
| "set_any (JBool b) old = (ABool b, True)"
| "set_any (JNum l) old = (case parse_float l of (v, None) \<Rightarrow> (AFloat64 v, True) | (_, Some _) \<Rightarrow> (old, False))"
| "set_any (JStr s) old = (AString s, True)"
| "set_any j old = (AJson j, json_numbers_ok j)"

fun set_strings :: "json \<Rightarrow> string list \<Rightarrow> string list \<times> bool" where
  "set_strings (JArr js) old = (map (\<lambda>j. fst (set_string j [])) js, list_all (\<lambda>j. snd (set_string j [])) js)"
| "set_strings JNull old = ([], True)"
| "set_strings _ old = (old, False)"

text \<open>A field of the struct read from the object's members in order.\<close>

fun fold_field :: "(json \<Rightarrow> 'v \<Rightarrow> 'v \<times> bool) \<Rightarrow> string \<Rightarrow> (string \<times> json) list \<Rightarrow> 'v \<times> bool \<Rightarrow> 'v \<times> bool" where
  "fold_field upd name [] acc = acc"
| "fold_field upd name ((k, j) # kvs) acc =
     (if fold_key k = fold_key name then
        (let (v, ok) = upd j (fst acc) in fold_field upd name kvs (v, snd acc \<and> ok))
      else fold_field upd name kvs acc)"

definition get_field :: "(json \<Rightarrow> 'v \<Rightarrow> 'v \<times> bool) \<Rightarrow> 'v \<Rightarrow> string \<Rightarrow> json option \<Rightarrow> 'v \<times> bool" where
  "get_field upd zero name body = (case body of
       Some (JObj kvs) \<Rightarrow> fold_field upd name kvs (zero, True)
     | Some JNull \<Rightarrow> (zero, True)
     | _ \<Rightarrow> (zero, False))"

definition get_string :: "string \<Rightarrow> json option \<Rightarrow> string" where
  "get_string name body = fst (get_field set_string [] name body)"

definition string_ok :: "string \<Rightarrow> json option \<Rightarrow> bool" where
  "string_ok name body = snd (get_field set_string [] name body)"

text \<open>
  Decoding an array into a slice reuses the cells of its backing array, so a second array for the same
  field finds the values of the first; an empty array or null gives a new slice. A slice here is the
  cells it has and how many of them it shows.
\<close>

type_synonym 'v cells = "'v list \<times> nat"

fun set_cells :: "(json \<Rightarrow> 'v \<Rightarrow> 'v \<times> bool) \<Rightarrow> 'v \<Rightarrow> json list \<Rightarrow> 'v list \<Rightarrow> 'v list \<times> bool" where
  "set_cells upd zero [] cells = (cells, True)"
| "set_cells upd zero (j # js) cells =
     (let (n, ok1) = upd j (case cells of [] \<Rightarrow> zero | c # cs \<Rightarrow> c); (ns, ok2) = set_cells upd zero js (drop 1 cells)
      in (n # ns, ok1 \<and> ok2))"

fun set_slice :: "(json \<Rightarrow> 'v \<Rightarrow> 'v \<times> bool) \<Rightarrow> 'v \<Rightarrow> json \<Rightarrow> 'v cells \<Rightarrow> 'v cells \<times> bool" where
  "set_slice upd zero JNull old = (([], 0), True)"
| "set_slice upd zero (JArr js) old =
     (if js = [] then (([], 0), True)
      else let (cells, ok) = set_cells upd zero js (fst old) in ((cells, length js), ok))"
| "set_slice upd zero _ old = (old, False)"

definition get_slice :: "(json \<Rightarrow> 'v \<Rightarrow> 'v \<times> bool) \<Rightarrow> 'v \<Rightarrow> string \<Rightarrow> json option \<Rightarrow> 'v list \<times> bool" where
  "get_slice upd zero name body =
     (let (s, ok) = get_field (set_slice upd zero) ([], 0) name body in (take (snd s) (fst s), ok))"

lemma set_cells_fresh:
  "\<forall>x\<in>set xs. upd (f x) zero = (x, True) \<Longrightarrow> set_cells upd zero (map f xs) [] = (xs, True)"
  by (induction xs) simp_all

lemma set_slice_fresh:
  "\<forall>x\<in>set xs. upd (f x) zero = (x, True) \<Longrightarrow> set_slice upd zero (JArr (map f xs)) ([], 0) = ((xs, length xs), True)"
  using set_cells_fresh [of xs upd f zero] by simp

text \<open>\<open>Decode\<close> into a struct whose fields are the given strings: an error iff the body does not
  parse, is not an object or null, or some field meets a value of another type.\<close>

definition strings_decode :: "string list \<Rightarrow> json option \<Rightarrow> bool" where
  "strings_decode names body \<longleftrightarrow> list_all (\<lambda>n. string_ok n body) names"

lemmas json_defs = get_field_def get_string_def string_ok_def strings_decode_def

lemma string_ok_None [simp]: "\<not> string_ok n None"
  by (simp add: json_defs)

lemma get_string_None [simp]: "get_string n None = []"
  by (simp add: json_defs)

end
