(* ===== verification/Go_Http.thy ===== *)
theory Go_Http
  imports Go_Json
begin

text \<open>
  The HTTP plumbing the five services repeat: a request as their handlers read it, a
  response as they write it, \<open>http.Error\<close>, \<open>writeJSON\<close>, the bearer-token middleware and
  the CORS middleware. A handler is a function from a request and the service state to the
  new state and a response. The Authorization header, the query and the body are what the
  library's accessors return; sockets and the serialization of the JSON payload are not
  modelled.

  The locales \<open>token_checked\<close> and \<open>guarded_service\<close> state what the token check gives any service,
  and every service interprets one of them on its own handler chain.
\<close>

record request =
  rq_method :: string
  rq_path :: string
  rq_auth :: string
  rq_query :: "string \<Rightarrow> string"
  rq_body :: "json option"

datatype 'p http_body = NoBody | TextBody string | JsonBody 'p

record 'p response =
  rs_status :: nat
  rs_headers :: "(string \<times> string) list"
  rs_body :: "'p http_body"

definition http_error :: "string \<Rightarrow> nat \<Rightarrow> 'p response" where
  "http_error msg code = \<lparr>rs_status = code,
     rs_headers = [(''Content-Type'', ''text/plain; charset=utf-8''), (''X-Content-Type-Options'', ''nosniff'')],
     rs_body = TextBody (msg @ [CHR 0x0A])\<rparr>"

definition write_json :: "nat \<Rightarrow> 'p \<Rightarrow> 'p response" where
  "write_json code v = \<lparr>rs_status = code, rs_headers = [(''Content-Type'', ''application/json'')], rs_body = JsonBody v\<rparr>"

definition not_found :: "'p response" where
  "not_found = http_error ''404 page not found'' 404"

type_synonym ('s, 'p) handler = "request \<Rightarrow> 's \<Rightarrow> 's \<times> 'p response"

text \<open>An exact-path mux: the first matching pattern serves the request.\<close>

fun serve_mux :: "(string \<times> ('s, 'p) handler) list \<Rightarrow> ('s, 'p) handler" where
  "serve_mux [] rq s = (s, not_found)"
| "serve_mux ((p, h) # hs) rq s = (if rq_path rq = p then h rq s else serve_mux hs rq s)"

text \<open>The token check, as every \<open>Server.auth\<close> has it.\<close>

definition auth_check :: "string \<Rightarrow> ('s, 'p) handler \<Rightarrow> ('s, 'p) handler" where
  "auth_check token nxt rq s =
     (if token = [] then nxt rq s
      else if rq_path rq = ''/health'' then nxt rq s
      else if trim_prefix (rq_auth rq) ''Bearer '' \<noteq> token then (s, http_error ''unauthorized'' 401)
      else nxt rq s)"

definition cors_headers :: "string \<Rightarrow> string \<Rightarrow> (string \<times> string) list" where
  "cors_headers origin methods =
     [(''Access-Control-Allow-Origin'', origin), (''Access-Control-Allow-Methods'', methods),
      (''Access-Control-Allow-Headers'', ''Authorization, Content-Type'')]"

definition cors_wrap :: "string \<Rightarrow> string \<Rightarrow> ('s, 'p) handler \<Rightarrow> ('s, 'p) handler" where
  "cors_wrap origin methods nxt rq s =
     (if origin = [] then nxt rq s
      else if rq_method rq = ''OPTIONS'' then
        (s, \<lparr>rs_status = 204, rs_headers = cors_headers origin methods, rs_body = NoBody\<rparr>)
      else let (s', r) = nxt rq s in (s', r\<lparr>rs_headers := cors_headers origin methods @ rs_headers r\<rparr>))"

lemmas http_defs = http_error_def write_json_def not_found_def

lemma http_error_sel [simp]:
  "rs_status (http_error m c) = c" "rs_body (http_error m c) = TextBody (m @ [CHR 0x0A])"
  by (simp_all add: http_error_def)

lemma write_json_sel [simp]:
  "rs_status (write_json c v) = c" "rs_body (write_json c v) = JsonBody v"
  by (simp_all add: write_json_def)

definition authorized :: "string \<Rightarrow> request \<Rightarrow> bool" where
  "authorized token rq \<longleftrightarrow> token = [] \<or> trim_prefix (rq_auth rq) ''Bearer '' = token"

subsection \<open>What the token check gives a service\<close>

text \<open>
  The provider promises that its handler chain is the token check around a mux, possibly
  inside the CORS wrapper. Most services also promise that their health handler leaves the
  state alone; the query service, whose health check pings the database, does not.
\<close>

locale token_checked =
  fixes chain :: "request \<Rightarrow> 's \<Rightarrow> 's \<times> 'p response"
    and mux :: "request \<Rightarrow> 's \<Rightarrow> 's \<times> 'p response"
    and token :: string
    and cors :: string
    and methods :: string
  assumes chain_eq: "chain = cors_wrap cors methods (auth_check token mux)"
begin

lemma unauthorized_elsewhere_no_effect:
  "\<not> authorized token rq \<Longrightarrow> rq_path rq \<noteq> ''/health'' \<Longrightarrow> fst (chain rq s) = s"
  by (auto simp: chain_eq cors_wrap_def auth_check_def authorized_def split_beta Let_def)

lemma unauthorized_401:
  "\<not> authorized token rq \<Longrightarrow> rq_path rq \<noteq> ''/health'' \<Longrightarrow> (cors = [] \<or> rq_method rq \<noteq> ''OPTIONS'') \<Longrightarrow>
   rs_status (snd (chain rq s)) = 401"
  by (auto simp: chain_eq cors_wrap_def auth_check_def authorized_def split_beta Let_def)

lemma authorized_passes:
  "authorized token rq \<Longrightarrow> (cors = [] \<or> rq_method rq \<noteq> ''OPTIONS'') \<Longrightarrow>
   fst (chain rq s) = fst (mux rq s) \<and> rs_status (snd (chain rq s)) = rs_status (snd (mux rq s))
   \<and> rs_body (snd (chain rq s)) = rs_body (snd (mux rq s))"
  by (auto simp: chain_eq cors_wrap_def auth_check_def authorized_def split_beta Let_def)

lemma unauthorized_body:
  "\<not> authorized token rq \<Longrightarrow> rq_path rq \<noteq> ''/health'' \<Longrightarrow>
   rs_body (snd (chain rq s)) \<in> {NoBody, TextBody (''unauthorized'' @ [CHR 0x0A])}"
  by (auto simp: chain_eq cors_wrap_def auth_check_def authorized_def split_beta Let_def)

end

locale guarded_service = token_checked chain mux token cors methods
  for chain mux :: "request \<Rightarrow> 's \<Rightarrow> 's \<times> 'p response" and token cors methods +
  assumes health_frame: "rq_path rq = ''/health'' \<Longrightarrow> fst (mux rq s) = s"
begin

lemma unauthorized_no_effect:
  "\<not> authorized token rq \<Longrightarrow> fst (chain rq s) = s"
  by (auto simp: chain_eq cors_wrap_def auth_check_def authorized_def health_frame split_beta Let_def)

end

end
