(* ===== verification/Bounded_Log.thy ===== *)
theory Bounded_Log
  imports Prelude
begin

text \<open>
  The contract of the program's append-only, capped in-memory logs: the control store's
  audit, the orchestrator's audit, the hardware API's AuditLog and the dead-letter sink.
  Each keeps a slice and drops the oldest entries beyond a capacity. \<open>bounded_log\<close> says
  what one append does to the retained entries; \<open>sequenced_log\<close> adds the sequence counter
  from which three of them mint the entry's id. The lemmas hold for every sequence of
  appends; each component interprets the locale on its own append.
\<close>

locale bounded_log =
  fixes push :: "'e \<Rightarrow> 'l \<Rightarrow> 'l"
    and retained :: "'l \<Rightarrow> 'r list"
    and capacity :: "'l \<Rightarrow> nat"
    and rendered :: "'l \<Rightarrow> 'e \<Rightarrow> 'r"
    and log_wf :: "'l \<Rightarrow> bool"
  assumes retained_push: "log_wf l \<Longrightarrow> retained (push e l) = lastn (capacity l) (retained l @ [rendered l e])"
    and capacity_push: "capacity (push e l) = capacity l"
    and wf_push: "log_wf l \<Longrightarrow> log_wf (push e l)"
    and wf_bound: "log_wf l \<Longrightarrow> 0 < capacity l \<and> length (retained l) \<le> capacity l"
begin

lemma wf_fold: "log_wf l \<Longrightarrow> log_wf (fold push es l)"
  by (induction es arbitrary: l) (simp_all add: wf_push)

lemma capacity_fold: "capacity (fold push es l) = capacity l"
  by (induction es arbitrary: l) (simp_all add: capacity_push)

lemma bounded: "log_wf l \<Longrightarrow> length (retained (fold push es l)) \<le> capacity l"
  using wf_bound [OF wf_fold, of l es] by (simp add: capacity_fold)

lemma newest_kept: "log_wf l \<Longrightarrow> retained (push e l) \<noteq> [] \<and> last (retained (push e l)) = rendered l e"
  using wf_bound [of l] by (simp add: retained_push lastn_snoc)

lemma older_kept: "log_wf l \<Longrightarrow> length (retained l) < capacity l \<Longrightarrow>
  retained (push e l) = retained l @ [rendered l e]"
  by (simp add: retained_push)

text \<open>The entries of a run of appends, in order, each rendered in the log it met.\<close>

fun rendered_run :: "'e list \<Rightarrow> 'l \<Rightarrow> 'r list" where
  "rendered_run [] l = []"
| "rendered_run (e # es) l = rendered l e # rendered_run es (push e l)"

lemma retained_fold:
  "log_wf l \<Longrightarrow> retained (fold push es l) = lastn (capacity l) (retained l @ rendered_run es l)"
proof (induction es arbitrary: l)
  case Nil
  then show ?case
    using wf_bound [of l] by simp
next
  case (Cons e es)
  then have "retained (fold push (e # es) l) =
      lastn (capacity l) (retained (push e l) @ rendered_run es (push e l))"
    by (simp add: wf_push capacity_push)
  also have "\<dots> = lastn (capacity l) (retained l @ rendered_run (e # es) l)"
    using Cons.prems by (simp add: retained_push lastn_lastn_append)
  finally show ?case .
qed

end

text \<open>Logs with a 64-bit counter: the id of the newest entry is the counter after the append.\<close>

locale sequenced_log = bounded_log push retained capacity rendered log_wf
  for push :: "'e \<Rightarrow> 'l \<Rightarrow> 'l" and retained :: "'l \<Rightarrow> 'r list" and capacity rendered log_wf +
  fixes counter :: "'l \<Rightarrow> 64 word"
    and ident :: "'r \<Rightarrow> string"
    and label :: "64 word \<Rightarrow> string"
  assumes counter_push: "counter (push e l) = counter l + 1"
    and ident_rendered: "ident (rendered l e) = label (counter l + 1)"
    and inj_label: "inj label"
    and capacity_small: "log_wf l \<Longrightarrow> capacity l < 2 ^ 64"
begin

text \<open>The ids of the retained entries count up to the counter without a gap.\<close>

definition ids_contiguous :: "'l \<Rightarrow> bool" where
  "ids_contiguous l \<longleftrightarrow>
     map ident (retained l) = map (\<lambda>i. label (counter l - of_nat i)) (rev [0..<length (retained l)])"

lemma ids_push: "log_wf l \<Longrightarrow> ids_contiguous l \<Longrightarrow> ids_contiguous (push e l)"
proof -
  assume wf: "log_wf l" and ids: "ids_contiguous l"
  define n where "n = length (retained l)"
  have all: "map ident (retained l @ [rendered l e]) =
      map (\<lambda>i. label (counter l + 1 - of_nat i)) (rev [0..<Suc n])"
  proof -
    have "map (\<lambda>i. label (counter l - of_nat i)) (rev [0..<n]) =
        map (\<lambda>i. label (counter l + 1 - of_nat i)) (map Suc (rev [0..<n]))"
      by (simp add: comp_def algebra_simps)
    also have "map Suc (rev [0..<n]) = rev [1..<Suc n]"
      by (simp add: rev_map [symmetric] map_Suc_upt)
    finally have "map (\<lambda>i. label (counter l - of_nat i)) (rev [0..<n]) =
        map (\<lambda>i. label (counter l + 1 - of_nat i)) (rev [1..<Suc n])" .
    moreover have "rev [0..<Suc n] = rev [1..<Suc n] @ [0]"
      by (simp add: upt_rec [of 0])
    ultimately show ?thesis
      using ids by (simp add: ids_contiguous_def n_def ident_rendered)
  qed
  define c where "c = capacity l"
  have cut: "lastn c (map f (rev [0..<Suc n])) = map f (rev [0..<min c (Suc n)])" for f :: "nat \<Rightarrow> string"
    by (simp only: map_lastn [symmetric]) (simp add: lastn_def drop_rev min_def take_map del: upt_Suc)
  have "map ident (retained (push e l)) = lastn c (map ident (retained l @ [rendered l e]))"
    using wf by (simp add: retained_push map_lastn c_def)
  also have "\<dots> = map (\<lambda>i. label (counter l + 1 - of_nat i)) (rev [0..<min c (Suc n)])"
    unfolding all by (rule cut)
  finally show ?thesis
    using wf by (simp add: ids_contiguous_def counter_push retained_push c_def n_def del: upt_Suc)
qed

lemma ids_fold: "log_wf l \<Longrightarrow> ids_contiguous l \<Longrightarrow> ids_contiguous (fold push es l)"
  by (induction es arbitrary: l) (simp_all add: wf_push ids_push)

lemma ids_distinct: "log_wf l \<Longrightarrow> ids_contiguous l \<Longrightarrow> distinct (map ident (retained l))"
proof -
  assume wf: "log_wf l" and ids: "ids_contiguous l"
  have small: "length (retained l) < 2 ^ 64"
    using wf_bound [OF wf] capacity_small [OF wf] by simp
  have "inj_on (\<lambda>i. label (counter l - of_nat i)) (set (rev [0..<length (retained l)]))"
  proof (rule inj_onI)
    fix i j
    assume ij: "i \<in> set (rev [0..<length (retained l)])" "j \<in> set (rev [0..<length (retained l)])"
      and eq: "label (counter l - of_nat i) = label (counter l - of_nat j)"
    from eq have "counter l - of_nat i = counter l - (of_nat j :: 64 word)"
      by (rule injD [OF inj_label])
    then have "(of_nat i :: 64 word) = of_nat j"
      by simp
    then have "unat (of_nat i :: 64 word) = unat (of_nat j :: 64 word)"
      by simp
    with ij small show "i = j"
      by (simp add: unat_of_nat)
  qed
  then show ?thesis
    using ids by (simp add: ids_contiguous_def distinct_map)
qed

end

text \<open>Windows over a retained list, as the audit readers take them.\<close>

definition window :: "int \<Rightarrow> 'a list \<Rightarrow> 'a list" where
  "window limit xs = (let n = (if limit \<le> 0 \<or> int (length xs) < limit then length xs else nat limit)
     in map (\<lambda>i. xs ! i) [length xs - n..<length xs])"

lemma window_lastn: "window limit xs = lastn (if limit \<le> 0 then length xs else nat limit) xs"
proof -
  define n where "n = (if limit \<le> 0 \<or> int (length xs) < limit then length xs else nat limit)"
  have "map (\<lambda>i. xs ! i) [length xs - n..<length xs] = drop (length xs - n) (map (\<lambda>i. xs ! i) [0..<length xs])"
    by (simp add: drop_map)
  then have "map (\<lambda>i. xs ! i) [length xs - n..<length xs] = lastn n xs"
    by (simp add: map_nth lastn_def)
  then show ?thesis
    by (auto simp: window_def Let_def n_def)
qed

end
