(* ===== verification/Control_Store.thy ===== *)
theory Control_Store
  imports Go_Http Bounded_Log
begin

text \<open>
  api/internal/control/state.go: the manual-override store. One record holds the limits, the
  actuator state of every device and the capped audit log; every exported operation runs
  under the store's mutex from its first to its last statement, so an operation is one
  state transition. \<open>time.Now()\<close> is an argument: the reading the operation makes for
  \<open>UpdatedAt\<close> and the one \<open>recordLocked\<close> makes for the entry's \<open>TS\<close>.
\<close>

definition ErrUnknownDevice :: string where "ErrUnknownDevice = ''unknown device''"
definition ErrUnknownCommand :: string where "ErrUnknownCommand = ''unknown command''"
definition ErrLatchedSafe :: string where "ErrLatchedSafe = ''device is latched in safe state; reset first''"

type_synonym command = string

abbreviation CmdValve :: command where "CmdValve \<equiv> ''valve''"
abbreviation CmdFan :: command where "CmdFan \<equiv> ''fan''"
abbreviation CmdOutlet :: command where "CmdOutlet \<equiv> ''outlet''"
abbreviation CmdDischarge :: command where "CmdDischarge \<equiv> ''discharge_limit''"

type_synonym mode = string

abbreviation ModeAuto :: mode where "ModeAuto \<equiv> ''auto''"
abbreviation ModeManual :: mode where "ModeManual \<equiv> ''manual''"
abbreviation ModeSafe :: mode where "ModeSafe \<equiv> ''safe''"

record safety_limits =
  CritAirTempC :: f64
  WarnAirTempC :: f64
  MinAirTempC :: f64
  MinValve :: f64
  MaxValve :: f64
  MinFan :: f64
  MaxFan :: f64
  MinDischarge :: f64
  MaxDischarge :: f64

definition DefaultLimits :: safety_limits where
  "DefaultLimits = \<lparr>CritAirTempC = f64_45, WarnAirTempC = f64_35, MinAirTempC = f64_5,
     MinValve = 0, MaxValve = f64_100, MinFan = 0, MaxFan = f64_100,
     MinDischarge = 0, MaxDischarge = f64_100\<rparr>"

record actuator_state =
  Device :: string
  Valve :: f64
  Fan :: f64
  Outlet :: bool
  DischargeLimit :: f64
  Mode :: mode
  LatchedSafe :: bool
  Reason :: string
  Operator :: string
  UpdatedAt :: go_time

record audit_entry =
  ae_ID :: string
  ae_TS :: go_time
  ae_Device :: string
  ae_Command :: command
  ae_Requested :: any
  ae_Applied :: any
  ae_Clamped :: bool
  ae_Operator :: string
  ae_Reason :: string
  ae_Note :: string

record store =
  limits :: safety_limits
  dev_state :: "string \<rightharpoonup> actuator_state"
  audit :: "audit_entry list"
  auditCap :: nat
  seq :: "64 word"

subsection \<open>Helpers\<close>

definition clamp :: "f64 \<Rightarrow> f64 \<Rightarrow> f64 \<Rightarrow> f64" where
  "clamp v lo hi =
     (if f64_is_nan v then lo
      else if f64_lt v lo then lo
      else if f64_lt hi v then hi
      else v)"

text \<open>The type switch of control.toFloat; a failed parse leaves what the parser returned.\<close>

definition toFloat :: "any \<Rightarrow> f64" where
  "toFloat v = (case v of
       AFloat64 t \<Rightarrow> t
     | AFloat32 t \<Rightarrow> f64_of_f32 t
     | AInt t \<Rightarrow> f64_of_int (sint t)
     | AInt64 t \<Rightarrow> f64_of_int (sint t)
     | ANumber t \<Rightarrow> fst (parse_float t)
     | AString t \<Rightarrow> fst (parse_float t)
     | _ \<Rightarrow> 0)"

definition toBool :: "any \<Rightarrow> bool" where
  "toBool v = (case v of
       ABool t \<Rightarrow> t
     | AString t \<Rightarrow> t = ''true'' \<or> t = ''1'' \<or> t = ''on''
     | AFloat64 t \<Rightarrow> \<not> f64_eq t 0
     | _ \<Rightarrow> False)"

definition formatSeq :: "64 word \<Rightarrow> string" where
  "formatSeq n = ''aud-'' @ show_nat (unat n)"

text \<open>\<open>limits == (SafetyLimits{})\<close>: every field compares equal to zero.\<close>

definition limits_zero :: "safety_limits \<Rightarrow> bool" where
  "limits_zero l \<longleftrightarrow> list_all (\<lambda>x. f64_eq x 0)
     [CritAirTempC l, WarnAirTempC l, MinAirTempC l, MinValve l, MaxValve l, MinFan l, MaxFan l,
      MinDischarge l, MaxDischarge l]"

subsection \<open>Operations\<close>

definition NewStore :: "safety_limits \<Rightarrow> store" where
  "NewStore l = \<lparr>limits = (if limits_zero l then DefaultLimits else l), dev_state = Map.empty,
     audit = [], auditCap = 1000, seq = 0\<rparr>"

definition Seed :: "string \<Rightarrow> f64 \<Rightarrow> f64 \<Rightarrow> bool \<Rightarrow> f64 \<Rightarrow> go_time \<Rightarrow> store \<Rightarrow> store" where
  "Seed device valve fan outlet discharge now s =
     (if dev_state s device \<noteq> None then s
      else s\<lparr>dev_state := (dev_state s)(device \<mapsto>
        \<lparr>Device = device,
         Valve = clamp valve (MinValve (limits s)) (MaxValve (limits s)),
         Fan = clamp fan (MinFan (limits s)) (MaxFan (limits s)),
         Outlet = outlet,
         DischargeLimit = clamp discharge (MinDischarge (limits s)) (MaxDischarge (limits s)),
         Mode = ModeAuto, LatchedSafe = False, Reason = [], Operator = [], UpdatedAt = now\<rparr>)\<rparr>)"

definition recordLocked :: "audit_entry \<Rightarrow> store \<Rightarrow> store" where
  "recordLocked e s =
     (let q = seq s + 1;
          es = audit s @ [e\<lparr>ae_ID := formatSeq q\<rparr>]
      in s\<lparr>seq := q, audit := (if auditCap s < length es then drop (length es - auditCap s) es else es)\<rparr>)"

definition entry :: "go_time \<Rightarrow> string \<Rightarrow> command \<Rightarrow> any \<Rightarrow> any \<Rightarrow> bool \<Rightarrow> string \<Rightarrow> string \<Rightarrow> string \<Rightarrow> audit_entry" where
  "entry ts d cmd req app cl oper reason note =
     \<lparr>ae_ID = [], ae_TS = ts, ae_Device = d, ae_Command = cmd, ae_Requested = req, ae_Applied = app,
      ae_Clamped = cl, ae_Operator = oper, ae_Reason = reason, ae_Note = note\<rparr>"

text \<open>
  The switch of \<open>Override\<close>: the device state after the command, the applied value and the
  clamped flag; None for a command that is no actuator channel.
\<close>

definition apply_command :: "safety_limits \<Rightarrow> command \<Rightarrow> any \<Rightarrow> actuator_state \<Rightarrow> (actuator_state \<times> any \<times> bool) option" where
  "apply_command l cmd value st =
     (if cmd = CmdValve then
        let v = toFloat value; cv = clamp v (MinValve l) (MaxValve l)
        in Some (st\<lparr>Valve := cv\<rparr>, AFloat64 cv, \<not> f64_eq cv v)
      else if cmd = CmdFan then
        let v = toFloat value; cv = clamp v (MinFan l) (MaxFan l)
        in Some (st\<lparr>Fan := cv\<rparr>, AFloat64 cv, \<not> f64_eq cv v)
      else if cmd = CmdDischarge then
        let v = toFloat value; cv = clamp v (MinDischarge l) (MaxDischarge l)
        in Some (st\<lparr>DischargeLimit := cv\<rparr>, AFloat64 cv, \<not> f64_eq cv v)
      else if cmd = CmdOutlet then
        let b = toBool value in Some (st\<lparr>Outlet := b\<rparr>, ABool b, False)
      else None)"

definition Override ::
  "string \<Rightarrow> command \<Rightarrow> any \<Rightarrow> string \<Rightarrow> string \<Rightarrow> go_time \<Rightarrow> go_time \<Rightarrow> store \<Rightarrow> store \<times> (string + actuator_state \<times> bool)" where
  "Override device cmd value oper reason now ts s =
     (case dev_state s device of
        None \<Rightarrow> (s, Inl ErrUnknownDevice)
      | Some st \<Rightarrow>
          if LatchedSafe st then (s, Inl ErrLatchedSafe)
          else case apply_command (limits s) cmd value st of
              None \<Rightarrow> (s, Inl ErrUnknownCommand)
            | Some (st1, applied, clamped) \<Rightarrow>
                let st2 = st1\<lparr>Mode := ModeManual, Operator := oper, Reason := reason, UpdatedAt := now\<rparr>
                in (recordLocked (entry ts device cmd value applied clamped oper reason [])
                      (s\<lparr>dev_state := (dev_state s)(device \<mapsto> st2)\<rparr>),
                    Inr (st2, clamped)))"

definition Reset :: "string \<Rightarrow> string \<Rightarrow> string \<Rightarrow> go_time \<Rightarrow> go_time \<Rightarrow> store \<Rightarrow> store \<times> (string + actuator_state)" where
  "Reset device oper reason now ts s =
     (case dev_state s device of
        None \<Rightarrow> (s, Inl ErrUnknownDevice)
      | Some st \<Rightarrow>
          let st2 = st\<lparr>Mode := ModeAuto, LatchedSafe := False, Operator := oper, Reason := reason, UpdatedAt := now\<rparr>
          in (recordLocked (entry ts device [] (AString ''reset'') (AString ''auto'') False oper reason
                  ''returned to automatic control'')
                (s\<lparr>dev_state := (dev_state s)(device \<mapsto> st2)\<rparr>),
              Inr st2))"

definition LatchSafe :: "string \<Rightarrow> string \<Rightarrow> string \<Rightarrow> go_time \<Rightarrow> go_time \<Rightarrow> store \<Rightarrow> store \<times> (string + actuator_state)" where
  "LatchSafe device oper reason now ts s =
     (case dev_state s device of
        None \<Rightarrow> (s, Inl ErrUnknownDevice)
      | Some st \<Rightarrow>
          let st2 = st\<lparr>LatchedSafe := True, Mode := ModeSafe, Valve := MaxValve (limits s),
                       Fan := MaxFan (limits s), Operator := oper, Reason := reason, UpdatedAt := now\<rparr>
          in (recordLocked (entry ts device [] (AString ''latch_safe'') (AString ''safe'') False oper reason
                  ''latched into fail-safe state'')
                (s\<lparr>dev_state := (dev_state s)(device \<mapsto> st2)\<rparr>),
              Inr st2))"

text \<open>
  \<open>Devices\<close> visits the map in an order Go leaves open: the order is an argument, an
  enumeration of the device names.
\<close>

definition Devices :: "string list \<Rightarrow> store \<Rightarrow> actuator_state list" where
  "Devices order s = List.map_filter (dev_state s) order"

definition State :: "string \<Rightarrow> store \<Rightarrow> actuator_state option" where
  "State device s = dev_state s device"

definition Audit :: "int \<Rightarrow> store \<Rightarrow> audit_entry list" where
  "Audit limit s = window limit (audit s)"

subsection \<open>The audit log is a sequenced log\<close>

lemma inj_formatSeq: "inj formatSeq"
proof (rule injI)
  fix a b :: "64 word"
  assume "formatSeq a = formatSeq b"
  then have "show_nat (unat a) = show_nat (unat b)"
    by (simp add: formatSeq_def)
  then have "unat a = unat b"
    by (rule injD [OF inj_show_nat])
  then show "a = b"
    by (rule unsigned_word_eqI)
qed

definition audit_wf :: "store \<Rightarrow> bool" where
  "audit_wf s \<longleftrightarrow> auditCap s = 1000 \<and> length (audit s) \<le> 1000"

lemma recordLocked_audit: "audit (recordLocked e s) = lastn (auditCap s) (audit s @ [e\<lparr>ae_ID := formatSeq (seq s + 1)\<rparr>])"
  by (auto simp: recordLocked_def Let_def lastn_def)

lemma recordLocked_frame [simp]:
  "limits (recordLocked e s) = limits s" "dev_state (recordLocked e s) = dev_state s"
  "auditCap (recordLocked e s) = auditCap s" "seq (recordLocked e s) = seq s + 1"
  by (simp_all add: recordLocked_def Let_def)

interpretation ctl_log: sequenced_log recordLocked audit auditCap "\<lambda>s e. e\<lparr>ae_ID := formatSeq (seq s + 1)\<rparr>"
  audit_wf seq ae_ID formatSeq
  by unfold_locales (auto simp: recordLocked_audit audit_wf_def inj_formatSeq)

lemma audit_wf_frame [simp]: "audit_wf (s\<lparr>dev_state := m\<rparr>) = audit_wf s"
  by (simp add: audit_wf_def)

lemma ids_frame [simp]: "ctl_log.ids_contiguous (s\<lparr>dev_state := m\<rparr>) = ctl_log.ids_contiguous s"
  by (simp add: ctl_log.ids_contiguous_def)

lemmas op_defs [go_defs] = Override_def Reset_def LatchSafe_def Seed_def

subsection \<open>Operations as steps\<close>

text \<open>
  Concurrent requests interleave whole operations (each holds the mutex), so a history of
  the store is a list of operations.
\<close>

datatype ctl_op =
    OpSeed string f64 f64 bool f64 go_time
  | OpOverride string command any string string go_time go_time
  | OpReset string string string go_time go_time
  | OpLatch string string string go_time go_time

fun ctl_step :: "ctl_op \<Rightarrow> store \<Rightarrow> store" where
  "ctl_step (OpSeed d v f out dl now) s = Seed d v f out dl now s"
| "ctl_step (OpOverride d cmd v oper r now ts) s = fst (Override d cmd v oper r now ts s)"
| "ctl_step (OpReset d oper r now ts) s = fst (Reset d oper r now ts s)"
| "ctl_step (OpLatch d oper r now ts) s = fst (LatchSafe d oper r now ts s)"

definition ctl_run :: "ctl_op list \<Rightarrow> store \<Rightarrow> store" where
  "ctl_run ops s = fold ctl_step ops s"

text \<open>One operation appends at most one entry, and only when it changes a device.\<close>

lemma Override_ok:
  assumes "Override d cmd v oper r now ts s = (s', Inr (st', cl))"
  obtains st st1 app where "dev_state s d = Some st" "\<not> LatchedSafe st"
    "apply_command (limits s) cmd v st = Some (st1, app, cl)"
    "st' = st1\<lparr>Mode := ModeManual, Operator := oper, Reason := r, UpdatedAt := now\<rparr>"
    "s' = recordLocked (entry ts d cmd v app cl oper r []) (s\<lparr>dev_state := (dev_state s)(d \<mapsto> st')\<rparr>)"
  using assms by (auto simp: Override_def Let_def split: option.splits if_splits prod.splits)

lemma Override_err:
  "Override d cmd v oper r now ts s = (s', Inl e) \<Longrightarrow> s' = s"
  by (auto simp: Override_def Let_def split: option.splits if_splits prod.splits)

lemma ctl_step_cases:
  obtains (same) "ctl_step op s = s"
  | (seed) d v f out dl now where "op = OpSeed d v f out dl now" "dev_state s d = None"
      "ctl_step op s = s\<lparr>dev_state := (dev_state s)(d \<mapsto>
        \<lparr>Device = d, Valve = clamp v (MinValve (limits s)) (MaxValve (limits s)),
         Fan = clamp f (MinFan (limits s)) (MaxFan (limits s)), Outlet = out,
         DischargeLimit = clamp dl (MinDischarge (limits s)) (MaxDischarge (limits s)),
         Mode = ModeAuto, LatchedSafe = False, Reason = [], Operator = [], UpdatedAt = now\<rparr>)\<rparr>"
  | (override) d cmd v oper r now ts st st1 app cl where
      "op = OpOverride d cmd v oper r now ts" "dev_state s d = Some st" "\<not> LatchedSafe st"
      "apply_command (limits s) cmd v st = Some (st1, app, cl)"
      "ctl_step op s = recordLocked (entry ts d cmd v app cl oper r [])
        (s\<lparr>dev_state := (dev_state s)(d \<mapsto> st1\<lparr>Mode := ModeManual, Operator := oper, Reason := r, UpdatedAt := now\<rparr>)\<rparr>)"
  | (reset) d oper r now ts st where "op = OpReset d oper r now ts" "dev_state s d = Some st"
      "ctl_step op s = recordLocked (entry ts d [] (AString ''reset'') (AString ''auto'') False oper r
          ''returned to automatic control'')
        (s\<lparr>dev_state := (dev_state s)(d \<mapsto> st\<lparr>Mode := ModeAuto, LatchedSafe := False, Operator := oper, Reason := r, UpdatedAt := now\<rparr>)\<rparr>)"
  | (latch) d oper r now ts st where "op = OpLatch d oper r now ts" "dev_state s d = Some st"
      "ctl_step op s = recordLocked (entry ts d [] (AString ''latch_safe'') (AString ''safe'') False oper r
          ''latched into fail-safe state'')
        (s\<lparr>dev_state := (dev_state s)(d \<mapsto> st\<lparr>LatchedSafe := True, Mode := ModeSafe,
          Valve := MaxValve (limits s), Fan := MaxFan (limits s), Operator := oper, Reason := r, UpdatedAt := now\<rparr>)\<rparr>)"
proof (cases op)
  case (OpSeed d v f out dl now)
  then show ?thesis
    using that(1,2) by (cases "dev_state s d") (auto simp: Seed_def)
next
  case (OpOverride d cmd v oper r now ts)
  show ?thesis
  proof (cases "snd (Override d cmd v oper r now ts s)")
    case (Inl e)
    then have "Override d cmd v oper r now ts s = (ctl_step op s, Inl e)"
      by (simp add: OpOverride prod_eq_iff)
    then show ?thesis
      using that(1) Override_err by metis
  next
    case (Inr p)
    then have "Override d cmd v oper r now ts s = (ctl_step op s, Inr (fst p, snd p))"
      by (simp add: OpOverride prod_eq_iff)
    then show ?thesis
      using that(3) OpOverride by (elim Override_ok) simp
  qed
next
  case (OpReset d oper r now ts)
  then show ?thesis
    using that(1,4) by (cases "dev_state s d") (auto simp: Reset_def Let_def)
next
  case (OpLatch d oper r now ts)
  then show ?thesis
    using that(1,5) by (cases "dev_state s d") (auto simp: LatchSafe_def Let_def)
qed

lemma ctl_step_limits [simp]: "limits (ctl_step op s) = limits s"
  by (rule ctl_step_cases [of op s]) simp_all

lemma ctl_run_limits [simp]: "limits (ctl_run ops s) = limits s"
  unfolding ctl_run_def by (induction ops arbitrary: s) simp_all

subsection \<open>Clamping\<close>

lemma clamp_within:
  assumes "\<not> f64_is_nan lo" "\<not> f64_is_nan hi" "f64_le lo hi"
  shows "f64_le lo (clamp v lo hi) \<and> f64_le (clamp v lo hi) hi"
  using assms f64_not_lt [of v lo] f64_not_lt [of hi v] by (auto simp: clamp_def)

lemma clamp_fixes: "f64_le lo v \<Longrightarrow> f64_le v hi \<Longrightarrow> clamp v lo hi = v"
  by (auto simp: clamp_def f64_order_defs)

lemma clamp_changed:
  assumes "f64_le lo hi"
  shows "\<not> f64_eq (clamp v lo hi) v \<longleftrightarrow> \<not> (f64_le lo v \<and> f64_le v hi)"
  using assms by (auto simp: clamp_def f64_order_defs)

lemma clamp_nan: "f64_is_nan v \<Longrightarrow> clamp v lo hi = lo"
  by (simp add: clamp_def)

subsection \<open>The safety invariant\<close>

definition limits_wf :: "safety_limits \<Rightarrow> bool" where
  "limits_wf l \<longleftrightarrow> f64_le (MinValve l) (MaxValve l) \<and> f64_le (MinFan l) (MaxFan l)
     \<and> f64_le (MinDischarge l) (MaxDischarge l)"

definition in_envelope :: "safety_limits \<Rightarrow> actuator_state \<Rightarrow> bool" where
  "in_envelope l st \<longleftrightarrow>
     f64_le (MinValve l) (Valve st) \<and> f64_le (Valve st) (MaxValve l)
   \<and> f64_le (MinFan l) (Fan st) \<and> f64_le (Fan st) (MaxFan l)
   \<and> f64_le (MinDischarge l) (DischargeLimit st) \<and> f64_le (DischargeLimit st) (MaxDischarge l)"

definition device_safe :: "safety_limits \<Rightarrow> string \<Rightarrow> actuator_state \<Rightarrow> bool" where
  "device_safe l d st \<longleftrightarrow> Device st = d \<and> in_envelope l st
     \<and> Mode st \<in> {ModeAuto, ModeManual, ModeSafe}
     \<and> (LatchedSafe st = (Mode st = ModeSafe))
     \<and> (if LatchedSafe st then Valve st = MaxValve l \<and> Fan st = MaxFan l else True)"

definition store_safe :: "store \<Rightarrow> bool" where
  "store_safe s \<longleftrightarrow> (\<forall>d st. dev_state s d = Some st \<longrightarrow> device_safe (limits s) d st)"

lemma limits_wf_clamp:
  assumes "limits_wf l"
  shows "f64_le (MinValve l) (clamp v (MinValve l) (MaxValve l))" "f64_le (clamp v (MinValve l) (MaxValve l)) (MaxValve l)"
    "f64_le (MinFan l) (clamp v (MinFan l) (MaxFan l))" "f64_le (clamp v (MinFan l) (MaxFan l)) (MaxFan l)"
    "f64_le (MinDischarge l) (clamp v (MinDischarge l) (MaxDischarge l))"
    "f64_le (clamp v (MinDischarge l) (MaxDischarge l)) (MaxDischarge l)"
  using assms clamp_within by (simp_all add: limits_wf_def f64_le_def)

lemma limits_wf_max:
  "limits_wf l \<Longrightarrow> f64_le (MaxValve l) (MaxValve l) \<and> f64_le (MaxFan l) (MaxFan l)"
  by (simp add: limits_wf_def f64_le_def)

lemma apply_command_safe:
  assumes "limits_wf l" "in_envelope l st" "apply_command l cmd v st = Some (st1, app, cl)"
  shows "in_envelope l st1 \<and> Device st1 = Device st \<and> LatchedSafe st1 = LatchedSafe st"
  using assms limits_wf_clamp [OF assms(1)]
  by (auto simp: apply_command_def in_envelope_def Let_def split: if_splits)

lemma store_safe_update:
  "store_safe s \<Longrightarrow> device_safe (limits s) d st \<Longrightarrow> store_safe (s\<lparr>dev_state := (dev_state s)(d \<mapsto> st)\<rparr>)"
  by (simp add: store_safe_def)

lemma store_safe_record [simp]: "store_safe (recordLocked e s) = store_safe s"
  by (simp add: store_safe_def)

lemma in_envelope_frame [simp]:
  "in_envelope l (st\<lparr>Mode := m\<rparr>) = in_envelope l st" "in_envelope l (st\<lparr>LatchedSafe := b\<rparr>) = in_envelope l st"
  "in_envelope l (st\<lparr>Operator := x\<rparr>) = in_envelope l st" "in_envelope l (st\<lparr>Reason := x\<rparr>) = in_envelope l st"
  "in_envelope l (st\<lparr>UpdatedAt := t\<rparr>) = in_envelope l st"
  by (simp_all add: in_envelope_def)

lemma ctl_step_safe [go_inv]:
  assumes wf: "limits_wf (limits s)" and safe: "store_safe s"
  shows "store_safe (ctl_step op s)"
proof (rule ctl_step_cases [of op s])
  assume "ctl_step op s = s"
  with safe show ?thesis by simp
next
  fix d v f out dl now
  assume "dev_state s d = None" and eq: "ctl_step op s = s\<lparr>dev_state := (dev_state s)(d \<mapsto>
      \<lparr>Device = d, Valve = clamp v (MinValve (limits s)) (MaxValve (limits s)),
       Fan = clamp f (MinFan (limits s)) (MaxFan (limits s)), Outlet = out,
       DischargeLimit = clamp dl (MinDischarge (limits s)) (MaxDischarge (limits s)),
       Mode = ModeAuto, LatchedSafe = False, Reason = [], Operator = [], UpdatedAt = now\<rparr>)\<rparr>"
  show ?thesis
    unfolding eq using limits_wf_clamp [OF wf]
    by (intro store_safe_update [OF safe]) (simp add: device_safe_def in_envelope_def)
next
  fix d cmd v oper r now ts st st1 app cl
  assume st: "dev_state s d = Some st" "\<not> LatchedSafe st" "apply_command (limits s) cmd v st = Some (st1, app, cl)"
    and eq: "ctl_step op s = recordLocked (entry ts d cmd v app cl oper r [])
      (s\<lparr>dev_state := (dev_state s)(d \<mapsto> st1\<lparr>Mode := ModeManual, Operator := oper, Reason := r, UpdatedAt := now\<rparr>)\<rparr>)"
  have "device_safe (limits s) d st"
    using safe st(1) by (simp add: store_safe_def)
  with st wf show ?thesis
    unfolding eq store_safe_record
    by (intro store_safe_update [OF safe]) (auto simp: device_safe_def dest: apply_command_safe)
next
  fix d oper r now ts st
  assume st: "dev_state s d = Some st"
    and eq: "ctl_step op s = recordLocked (entry ts d [] (AString ''reset'') (AString ''auto'') False oper r
        ''returned to automatic control'')
      (s\<lparr>dev_state := (dev_state s)(d \<mapsto> st\<lparr>Mode := ModeAuto, LatchedSafe := False, Operator := oper, Reason := r, UpdatedAt := now\<rparr>)\<rparr>)"
  have "device_safe (limits s) d st"
    using safe st by (simp add: store_safe_def)
  then show ?thesis
    unfolding eq store_safe_record
    by (intro store_safe_update [OF safe]) (simp add: device_safe_def)
next
  fix d oper r now ts st
  assume st: "dev_state s d = Some st"
    and eq: "ctl_step op s = recordLocked (entry ts d [] (AString ''latch_safe'') (AString ''safe'') False oper r
        ''latched into fail-safe state'')
      (s\<lparr>dev_state := (dev_state s)(d \<mapsto> st\<lparr>LatchedSafe := True, Mode := ModeSafe,
        Valve := MaxValve (limits s), Fan := MaxFan (limits s), Operator := oper, Reason := r, UpdatedAt := now\<rparr>)\<rparr>)"
  have "device_safe (limits s) d st"
    using safe st by (simp add: store_safe_def)
  with wf limits_wf_max [OF wf] show ?thesis
    unfolding eq store_safe_record
    by (intro store_safe_update [OF safe]) (simp add: device_safe_def in_envelope_def limits_wf_def)
qed

lemma ctl_run_safe:
  "limits_wf (limits s) \<Longrightarrow> store_safe s \<Longrightarrow> store_safe (ctl_run ops s)"
  unfolding ctl_run_def
  by (induction ops arbitrary: s) (simp_all add: ctl_step_safe)

lemma NewStore_safe: "store_safe (NewStore l)"
  by (simp add: store_safe_def NewStore_def)

lemma NewStore_audit_wf: "audit_wf (NewStore l)" "ctl_log.ids_contiguous (NewStore l)"
  by (simp_all add: audit_wf_def NewStore_def ctl_log.ids_contiguous_def)

lemma DefaultLimits_wf: "limits_wf DefaultLimits"
  by (simp add: limits_wf_def DefaultLimits_def f64_eval f64_100_def)

lemma DefaultLimits_not_zero: "\<not> limits_zero DefaultLimits"
  by (simp add: limits_zero_def DefaultLimits_def f64_eval f64_45_def)

subsection \<open>Lemmas for the store's properties\<close>

lemma ctl_step_audit_wf: "audit_wf s \<Longrightarrow> audit_wf (ctl_step op s)"
  by (rule ctl_step_cases [of op s]) (simp_all add: ctl_log.wf_push)

lemma ctl_step_ids: "audit_wf s \<Longrightarrow> ctl_log.ids_contiguous s \<Longrightarrow> ctl_log.ids_contiguous (ctl_step op s)"
  by (rule ctl_step_cases [of op s]) (simp_all add: ctl_log.ids_push)

lemma ctl_run_log:
  "audit_wf s \<Longrightarrow> ctl_log.ids_contiguous s \<Longrightarrow>
   audit_wf (ctl_run ops s) \<and> ctl_log.ids_contiguous (ctl_run ops s)"
  unfolding ctl_run_def
  by (induction ops arbitrary: s) (simp_all add: ctl_step_audit_wf ctl_step_ids)

text \<open>An operation that changes a device is audited under its name, operator and reason.\<close>

definition audited :: "string \<Rightarrow> actuator_state \<Rightarrow> audit_entry \<Rightarrow> bool" where
  "audited d st e \<longleftrightarrow> ae_Device e = d \<and> ae_Operator e = Operator st \<and> ae_Reason e = Reason st"

lemma entry_sel [simp]:
  "ae_ID (entry ts d cmd req app cl oper r note) = []" "ae_Device (entry ts d cmd req app cl oper r note) = d"
  "ae_Operator (entry ts d cmd req app cl oper r note) = oper" "ae_Reason (entry ts d cmd req app cl oper r note) = r"
  "ae_Command (entry ts d cmd req app cl oper r note) = cmd" "ae_Requested (entry ts d cmd req app cl oper r note) = req"
  "ae_Applied (entry ts d cmd req app cl oper r note) = app" "ae_Clamped (entry ts d cmd req app cl oper r note) = cl"
  by (simp_all add: entry_def)

lemma changed_update:
  assumes "dev_state s d = Some st" "dev_state (recordLocked e (s\<lparr>dev_state := (dev_state s)(d1 \<mapsto> st1)\<rparr>)) d = Some st'"
    "st' \<noteq> st"
  shows "d1 = d \<and> st1 = st'"
  using assms by (auto split: if_splits)

lemma ctl_step_change:
  assumes st: "dev_state s d = Some st" "dev_state (ctl_step op s) d = Some st'" "st' \<noteq> st"
  shows "\<exists>e. audited d st' e \<and> ctl_step op s = recordLocked e (s\<lparr>dev_state := (dev_state s)(d \<mapsto> st')\<rparr>)"
proof -
  have *: ?thesis if eq: "ctl_step op s = recordLocked e (s\<lparr>dev_state := (dev_state s)(d1 \<mapsto> st1)\<rparr>)"
    and "audited d1 st1 e" for e d1 st1
    using changed_update [OF st(1) st(2) [unfolded eq] st(3)] that by auto
  show ?thesis
    by (rule ctl_step_cases [of op s]; (use st in \<open>auto split: if_splits; fail\<close>)?; erule *; simp add: audited_def)
qed

text \<open>What the latch fixes until the device is reset.\<close>

definition latched_at :: "f64 \<Rightarrow> f64 \<Rightarrow> actuator_state \<Rightarrow> actuator_state \<Rightarrow> bool" where
  "latched_at vmax fmax st0 st \<longleftrightarrow> LatchedSafe st \<and> Mode st = ModeSafe \<and> Valve st = vmax \<and> Fan st = fmax
     \<and> Outlet st = Outlet st0 \<and> DischargeLimit st = DischargeLimit st0"

fun resets :: "string \<Rightarrow> ctl_op \<Rightarrow> bool" where
  "resets d (OpReset d' oper r now ts) \<longleftrightarrow> d' = d"
| "resets d _ \<longleftrightarrow> False"

definition device_latched :: "string \<Rightarrow> actuator_state \<Rightarrow> store \<Rightarrow> bool" where
  "device_latched d st0 s \<longleftrightarrow> (case dev_state s d of None \<Rightarrow> False
     | Some st \<Rightarrow> latched_at (MaxValve (limits s)) (MaxFan (limits s)) st0 st)"

lemma device_latched_step:
  assumes "device_latched d st0 s" "\<not> resets d op"
  shows "device_latched d st0 (ctl_step op s)"
  using assms
  by (cases op)
    (auto simp: device_latched_def latched_at_def op_defs Let_def split: option.splits if_splits prod.splits)

lemma device_latched_run:
  "device_latched d st0 s \<Longrightarrow> \<not> list_ex (resets d) ops \<Longrightarrow> device_latched d st0 (ctl_run ops s)"
  unfolding ctl_run_def
  by (induction ops arbitrary: s) (simp_all add: device_latched_step)

lemma LatchSafe_latches:
  "dev_state s d = Some st \<Longrightarrow> device_latched d st (fst (LatchSafe d oper r now ts s))"
  by (simp add: LatchSafe_def device_latched_def latched_at_def Let_def)

lemma device_latched_Override:
  "device_latched d st0 s \<Longrightarrow> Override d cmd v oper r now ts s = (s, Inl ErrLatchedSafe)"
  by (auto simp: device_latched_def latched_at_def Override_def split: option.splits)

text \<open>The channel bounds a numeric command is held to, and the channel's value.\<close>

definition channel_bounds :: "safety_limits \<Rightarrow> command \<Rightarrow> (f64 \<times> f64) option" where
  "channel_bounds l cmd =
     (if cmd = CmdValve then Some (MinValve l, MaxValve l)
      else if cmd = CmdFan then Some (MinFan l, MaxFan l)
      else if cmd = CmdDischarge then Some (MinDischarge l, MaxDischarge l)
      else None)"

definition channel_value :: "command \<Rightarrow> actuator_state \<Rightarrow> f64" where
  "channel_value cmd st = (if cmd = CmdValve then Valve st else if cmd = CmdFan then Fan st else DischargeLimit st)"

lemma limits_wf_bounds:
  "limits_wf l \<Longrightarrow> channel_bounds l cmd = Some (lo, hi) \<Longrightarrow> f64_le lo hi"
  by (auto simp: channel_bounds_def limits_wf_def split: if_splits)

lemma apply_command_numeric:
  assumes "channel_bounds l cmd = Some (lo, hi)"
  shows "\<exists>st1. apply_command l cmd v st = Some (st1, AFloat64 (clamp (toFloat v) lo hi), \<not> f64_eq (clamp (toFloat v) lo hi) (toFloat v))
    \<and> channel_value cmd st1 = clamp (toFloat v) lo hi"
  using assms by (auto simp: channel_bounds_def apply_command_def channel_value_def Let_def split: if_splits)

lemma channel_value_frame [simp]:
  "channel_value cmd (st\<lparr>Mode := m\<rparr>) = channel_value cmd st" "channel_value cmd (st\<lparr>Operator := x\<rparr>) = channel_value cmd st"
  "channel_value cmd (st\<lparr>Reason := x\<rparr>) = channel_value cmd st" "channel_value cmd (st\<lparr>UpdatedAt := t\<rparr>) = channel_value cmd st"
  by (simp_all add: channel_value_def)

subsection \<open>Properties\<close>

text \<open>C1. Whatever operations run, in whatever order and with whatever values (NaN and
  infinities included), every device of a store built by \<open>NewStore\<close> with ordered limits is in
  the safety envelope, its mode is one of the three the code names, \<open>safe\<close> exactly when it is
  latched, and a latched device has its valve and its fan at their maximum.\<close>

theorem control_envelope:
  assumes "limits_wf (limits (NewStore l))"
    and "dev_state (ctl_run ops (NewStore l)) d = Some st"
  shows "device_safe (limits (NewStore l)) d st"
  using assms(2) ctl_run_safe [OF assms(1) NewStore_safe, of ops] by (simp add: store_safe_def)

theorem control_envelope_witness:
  "device_safe DefaultLimits ''d1''
     (the (dev_state (ctl_run [OpSeed ''d1'' f64_nan f64_50 True f64_50 0, OpOverride ''d1'' CmdValve (AFloat64 f64_inf) ''op'' ''r'' 1 2,
        OpLatch ''d1'' ''op'' ''trip'' 3 4] (NewStore DefaultLimits)) ''d1''))"
  using control_envelope [of DefaultLimits "[OpSeed ''d1'' f64_nan f64_50 True f64_50 0,
      OpOverride ''d1'' CmdValve (AFloat64 f64_inf) ''op'' ''r'' 1 2, OpLatch ''d1'' ''op'' ''trip'' 3 4]" "''d1''"]
  by (simp add: DefaultLimits_not_zero DefaultLimits_wf NewStore_def ctl_run_def op_defs apply_command_def Let_def
      recordLocked_frame)

text \<open>C2. After \<open>LatchSafe\<close> on a known device, every sequence of operations without a \<open>Reset\<close> of
  that device leaves it latched in mode \<open>safe\<close> with valve and fan at their maximum and with its
  outlet and discharge limit untouched, and an override of it changes nothing and returns
  \<open>ErrLatchedSafe\<close>.\<close>

theorem latched_until_reset:
  assumes "dev_state s d = Some st0"
    and "\<not> list_ex (resets d) ops"
  shows "(case dev_state (ctl_run ops (fst (LatchSafe d oper r now ts s))) d of None \<Rightarrow> False
      | Some st \<Rightarrow> latched_at (MaxValve (limits s)) (MaxFan (limits s)) st0 st)
    \<and> Override d cmd v oper' r' now' ts' (ctl_run ops (fst (LatchSafe d oper r now ts s)))
      = (ctl_run ops (fst (LatchSafe d oper r now ts s)), Inl ErrLatchedSafe)"
proof -
  define s' where "s' = ctl_run ops (fst (LatchSafe d oper r now ts s))"
  have "device_latched d st0 s'"
    unfolding s'_def by (rule device_latched_run [OF LatchSafe_latches [OF assms(1)] assms(2)])
  moreover have "limits s' = limits s"
    using assms(1) by (simp add: s'_def LatchSafe_def Let_def)
  ultimately show ?thesis
    using device_latched_Override [of d st0 s'] by (simp only: device_latched_def s'_def)
qed

theorem latched_until_reset_witness:
  "Override ''d1'' CmdFan (AFloat64 f64_50) ''b'' [] 5 6
     (ctl_run [OpOverride ''d1'' CmdValve (AFloat64 0) ''a'' [] 3 4, OpReset ''d2'' ''a'' [] 3 4]
        (fst (LatchSafe ''d1'' ''op'' ''trip'' 1 2 (ctl_run [OpSeed ''d1'' 0 0 True 0 0] (NewStore DefaultLimits)))))
   = (ctl_run [OpOverride ''d1'' CmdValve (AFloat64 0) ''a'' [] 3 4, OpReset ''d2'' ''a'' [] 3 4]
        (fst (LatchSafe ''d1'' ''op'' ''trip'' 1 2 (ctl_run [OpSeed ''d1'' 0 0 True 0 0] (NewStore DefaultLimits)))),
      Inl ErrLatchedSafe)"
proof -
  have "\<exists>st. dev_state (ctl_run [OpSeed ''d1'' 0 0 True 0 0] (NewStore DefaultLimits)) ''d1'' = Some st"
    by (simp add: ctl_run_def Seed_def NewStore_def)
  then obtain st where st: "dev_state (ctl_run [OpSeed ''d1'' 0 0 True 0 0] (NewStore DefaultLimits)) ''d1'' = Some st" ..
  show ?thesis
    using latched_until_reset [OF st, of "[OpOverride ''d1'' CmdValve (AFloat64 0) ''a'' [] 3 4, OpReset ''d2'' ''a'' [] 3 4]"]
    by simp
qed

text \<open>C5. No silent change: an operation that changes the state of a known device appends exactly
  one audit entry, with the next id, naming that device and the operator and reason now in its
  state, and changes no other device; the log keeps its last 1000 entries.\<close>

theorem control_no_silent_change:
  assumes "audit_wf s"
    and "dev_state s d = Some st" and "dev_state (ctl_step op s) d = Some st'" and "st' \<noteq> st"
  shows "\<exists>e. audited d st' e \<and> ae_ID e = formatSeq (seq s + 1)
      \<and> audit (ctl_step op s) = lastn 1000 (audit s @ [e])
      \<and> seq (ctl_step op s) = seq s + 1
      \<and> dev_state (ctl_step op s) = (dev_state s)(d \<mapsto> st')"
proof -
  obtain e where e: "audited d st' e"
    and eq: "ctl_step op s = recordLocked e (s\<lparr>dev_state := (dev_state s)(d \<mapsto> st')\<rparr>)"
    using ctl_step_change [OF assms(2-4)] by blast
  show ?thesis
    using assms(1) e
    by (intro exI [of _ "e\<lparr>ae_ID := formatSeq (seq s + 1)\<rparr>"])
      (simp add: eq recordLocked_audit audited_def audit_wf_def)
qed

theorem control_no_silent_change_witness:
  "\<exists>e. ae_Device e = ''d1'' \<and> ae_Operator e = ''op'' \<and> ae_Reason e = ''trip'' \<and> ae_ID e = formatSeq 1
     \<and> audit (ctl_step (OpLatch ''d1'' ''op'' ''trip'' 1 2) (ctl_run [OpSeed ''d1'' 0 0 True 0 0] (NewStore DefaultLimits)))
       = lastn 1000 [e]"
proof -
  let ?s = "ctl_run [OpSeed ''d1'' 0 0 True 0 0] (NewStore DefaultLimits)"
  have wf: "audit_wf ?s" "audit ?s = []" "seq ?s = 0"
    by (simp_all add: audit_wf_def ctl_run_def Seed_def NewStore_def)
  obtain st st' where st: "dev_state ?s ''d1'' = Some st" "Operator st = []"
    and st': "dev_state (ctl_step (OpLatch ''d1'' ''op'' ''trip'' 1 2) ?s) ''d1'' = Some st'"
      "Operator st' = ''op''" "Reason st' = ''trip''"
    by (simp add: ctl_run_def Seed_def NewStore_def LatchSafe_def Let_def)
  from st st' have "st' \<noteq> st"
    by auto
  from control_no_silent_change [OF wf(1) st(1) st'(1) this] wf(2,3) st' show ?thesis
    by (auto simp: audited_def)
qed

text \<open>The audit log of every reachable store has at most 1000 entries; their ids are the
  consecutive sequence numbers that end at the counter, so no two of them agree and none of the
  window is missing.\<close>

lemma control_audit_bounded:
  "length (audit (ctl_run ops (NewStore l))) \<le> 1000
   \<and> map ae_ID (audit (ctl_run ops (NewStore l)))
     = map (\<lambda>i. formatSeq (seq (ctl_run ops (NewStore l)) - of_nat i)) (rev [0..<length (audit (ctl_run ops (NewStore l)))])
   \<and> distinct (map ae_ID (audit (ctl_run ops (NewStore l))))"
  using ctl_run_log [OF NewStore_audit_wf [of l], of ops] ctl_log.ids_distinct
  by (auto simp: audit_wf_def ctl_log.ids_contiguous_def)

text \<open>C18. A numeric override of an unlatched device always succeeds; it applies the requested
  value unchanged, unflagged, when that lies in the channel's bounds, and otherwise a value
  inside the bounds, flagged as clamped in the reply and in the audit entry, which keeps the
  value as the operator sent it. The device is then in manual mode.\<close>

theorem override_numeric:
  assumes "limits_wf (limits s)" and "audit_wf s"
    and "dev_state s d = Some st" and "\<not> LatchedSafe st"
    and "channel_bounds (limits s) cmd = Some (lo, hi)"
  shows "\<exists>st' s' e. Override d cmd v oper r now ts s = (s', Inr (st', \<not> (f64_le lo (toFloat v) \<and> f64_le (toFloat v) hi)))
      \<and> dev_state s' d = Some st' \<and> Mode st' = ModeManual
      \<and> f64_le lo (channel_value cmd st') \<and> f64_le (channel_value cmd st') hi
      \<and> (if f64_le lo (toFloat v) \<and> f64_le (toFloat v) hi then channel_value cmd st' = toFloat v else True)
      \<and> audit s' = lastn 1000 (audit s @ [e]) \<and> ae_Requested e = v \<and> ae_Applied e = AFloat64 (channel_value cmd st')
      \<and> ae_Clamped e = (\<not> (f64_le lo (toFloat v) \<and> f64_le (toFloat v) hi))"
proof -
  have le: "f64_le lo hi"
    using limits_wf_bounds [OF assms(1,5)] .
  obtain st1 where st1: "apply_command (limits s) cmd v st = Some (st1, AFloat64 (clamp (toFloat v) lo hi),
      \<not> (f64_le lo (toFloat v) \<and> f64_le (toFloat v) hi))" "channel_value cmd st1 = clamp (toFloat v) lo hi"
    using apply_command_numeric [OF assms(5), of v st] by (auto simp: clamp_changed [OF le])
  have within: "f64_le lo (clamp (toFloat v) lo hi) \<and> f64_le (clamp (toFloat v) lo hi) hi"
    using clamp_within le by (auto simp: f64_le_def)
  let ?c = "\<not> (f64_le lo (toFloat v) \<and> f64_le (toFloat v) hi)"
  let ?st' = "st1\<lparr>Mode := ModeManual, Operator := oper, Reason := r, UpdatedAt := now\<rparr>"
  let ?e = "entry ts d cmd v (AFloat64 (clamp (toFloat v) lo hi)) ?c oper r []"
  have "Override d cmd v oper r now ts s = (recordLocked ?e (s\<lparr>dev_state := (dev_state s)(d \<mapsto> ?st')\<rparr>), Inr (?st', ?c))"
    using assms(3,4) st1(1) by (simp add: Override_def Let_def)
  then show ?thesis
    using assms(2) within st1(2) clamp_fixes
    by (intro exI [of _ ?st'] exI [of _ "recordLocked ?e (s\<lparr>dev_state := (dev_state s)(d \<mapsto> ?st')\<rparr>)"]
        exI [of _ "?e\<lparr>ae_ID := formatSeq (seq s + 1)\<rparr>"]) (simp add: recordLocked_audit audit_wf_def)
qed

theorem override_numeric_witness:
  "\<exists>st' s'. Override ''d1'' CmdValve (AFloat64 f64_inf) ''op'' ''r'' 1 2 (ctl_run [OpSeed ''d1'' 0 0 True 0 0] (NewStore DefaultLimits))
     = (s', Inr (st', True)) \<and> f64_le 0 (Valve st') \<and> f64_le (Valve st') f64_100"
proof -
  let ?s = "ctl_run [OpSeed ''d1'' 0 0 True 0 0] (NewStore DefaultLimits)"
  have s: "limits_wf (limits ?s)" "audit_wf ?s" "channel_bounds (limits ?s) CmdValve = Some (0, f64_100)"
    by (simp_all add: ctl_run_def Seed_def NewStore_def DefaultLimits_wf DefaultLimits_not_zero audit_wf_def
        channel_bounds_def) (simp_all add: DefaultLimits_def)
  obtain st where st: "dev_state ?s ''d1'' = Some st" "\<not> LatchedSafe st"
    by (simp add: ctl_run_def Seed_def NewStore_def)
  have "\<not> (f64_le 0 (toFloat (AFloat64 f64_inf)) \<and> f64_le (toFloat (AFloat64 f64_inf)) f64_100)"
    by (simp add: toFloat_def f64_eval f64_100_def f64_inf_def)
  then show ?thesis
    using override_numeric [OF s(1,2) st s(3), of "AFloat64 f64_inf" "''op''" "''r''" 1 2]
    by (auto simp: channel_value_def)
qed

end
