(* ===== verification/Control_Server.thy ===== *)
theory Control_Server
  imports Control_Store
begin

text \<open>
  api/internal/control/server.go: the HTTP API over the control store. Each handler maps a
  request and the store to the store after it and the response. The clock readings of the
  store's operations and the enumeration order of its device map are arguments
  (\<open>env\<close>), since both are outside the program.
\<close>

record env =
  env_now :: go_time
  env_ts :: go_time
  env_order :: "string list"

record server =
  authToken :: string
  cors :: string

datatype payload =
    PStatus string
  | PDevices "actuator_state list"
  | PState actuator_state
  | POverride bool actuator_state string
  | PStatusState string actuator_state
  | PEntries "audit_entry list"

definition clampedMsg :: "bool \<Rightarrow> string \<Rightarrow> string" where
  "clampedMsg clamped cmd =
     (if clamped then ''value was clamped to the safety envelope for '' @ cmd
      else ''value applied within safe bounds'')"

definition handleHealth :: "(store, payload) handler" where
  "handleHealth rq s = (s, write_json 200 (PStatus ''ok''))"

definition handleDevices :: "env \<Rightarrow> (store, payload) handler" where
  "handleDevices ev rq s = (s, write_json 200 (PDevices (Devices (env_order ev) s)))"

definition handleState :: "(store, payload) handler" where
  "handleState rq s =
     (let device = rq_query rq ''device''
      in if device = [] then (s, http_error ''device is required'' 400)
         else case State device s of
             None \<Rightarrow> (s, http_error ''device not found'' 404)
           | Some st \<Rightarrow> (s, write_json 200 (PState st)))"

text \<open>The decode error of the override's struct: its four strings and its untyped value.\<close>

definition override_decode_ok :: "json option \<Rightarrow> bool" where
  "override_decode_ok body \<longleftrightarrow> strings_decode [''device'', ''command'', ''operator'', ''reason''] body
     \<and> snd (get_field set_any ANil ''value'' body)"

definition override_status :: "string \<Rightarrow> nat" where
  "override_status err =
     (if err = ErrUnknownDevice then 404
      else if err = ErrLatchedSafe then 409
      else if err = ErrUnknownCommand then 400
      else 500)"

definition handleOverride :: "env \<Rightarrow> (store, payload) handler" where
  "handleOverride ev rq s =
     (if rq_method rq \<noteq> ''POST'' then (s, http_error ''method not allowed'' 405)
      else if \<not> override_decode_ok (rq_body rq) then (s, http_error ''bad json'' 400)
      else
        let device = get_string ''device'' (rq_body rq); cmd = get_string ''command'' (rq_body rq)
        in if device = [] \<or> cmd = [] then (s, http_error ''device and command are required'' 400)
           else case Override device cmd (fst (get_field set_any ANil ''value'' (rq_body rq)))
                  (get_string ''operator'' (rq_body rq)) (get_string ''reason'' (rq_body rq)) (env_now ev) (env_ts ev) s of
               (s', Inl err) \<Rightarrow> (s', http_error err (override_status err))
             | (s', Inr (st, clamped)) \<Rightarrow> (s', write_json 200 (POverride clamped st (clampedMsg clamped cmd))))"

definition handleReset :: "env \<Rightarrow> (store, payload) handler" where
  "handleReset ev rq s =
     (if rq_method rq \<noteq> ''POST'' then (s, http_error ''method not allowed'' 405)
      else
        let device = get_string ''device'' (rq_body rq)
        in if \<not> strings_decode [''device'', ''operator'', ''reason''] (rq_body rq) \<or> device = []
           then (s, http_error ''device is required'' 400)
           else case Reset device (get_string ''operator'' (rq_body rq)) (get_string ''reason'' (rq_body rq))
                  (env_now ev) (env_ts ev) s of
               (s', Inl err) \<Rightarrow> (s', http_error err 404)
             | (s', Inr st) \<Rightarrow> (s', write_json 200 (PStatusState ''reset'' st)))"

definition handleLatch :: "env \<Rightarrow> (store, payload) handler" where
  "handleLatch ev rq s =
     (if rq_method rq \<noteq> ''POST'' then (s, http_error ''method not allowed'' 405)
      else
        let device = get_string ''device'' (rq_body rq)
        in if \<not> strings_decode [''device'', ''operator'', ''reason''] (rq_body rq) \<or> device = []
           then (s, http_error ''device is required'' 400)
           else case LatchSafe device (get_string ''operator'' (rq_body rq)) (get_string ''reason'' (rq_body rq))
                  (env_now ev) (env_ts ev) s of
               (s', Inl err) \<Rightarrow> (s', http_error err 404)
             | (s', Inr st) \<Rightarrow> (s', write_json 200 (PStatusState ''latched_safe'' st)))"

text \<open>\<open>parseInt\<close> is strconv.Atoi; the limit falls back to 50.\<close>

definition audit_limit :: "string \<Rightarrow> int" where
  "audit_limit l =
     (if l = [] then 50
      else case parse_int64 l of None \<Rightarrow> 50 | Some n \<Rightarrow> if 0 < n then n else 50)"

definition handleAudit :: "(store, payload) handler" where
  "handleAudit rq s = (s, write_json 200 (PEntries (Audit (audit_limit (rq_query rq ''limit'')) s)))"

definition ctl_mux :: "env \<Rightarrow> (store, payload) handler" where
  "ctl_mux ev = serve_mux
     [(''/health'', handleHealth),
      (''/control/devices'', handleDevices ev),
      (''/control/state'', handleState),
      (''/control/override'', handleOverride ev),
      (''/control/reset'', handleReset ev),
      (''/control/latch'', handleLatch ev),
      (''/control/audit'', handleAudit)]"

definition auth :: "server \<Rightarrow> (store, payload) handler \<Rightarrow> (store, payload) handler" where
  "auth srv nxt = auth_check (authToken srv) nxt"

definition corsMiddleware :: "server \<Rightarrow> (store, payload) handler \<Rightarrow> (store, payload) handler" where
  "corsMiddleware srv nxt = cors_wrap (cors srv) ''GET, POST, OPTIONS'' nxt"

definition NewServer :: "server \<Rightarrow> env \<Rightarrow> (store, payload) handler" where
  "NewServer srv ev = corsMiddleware srv (auth srv (ctl_mux ev))"

interpretation ctl_http: guarded_service "NewServer srv ev" "ctl_mux ev" "authToken srv" "cors srv" "''GET, POST, OPTIONS''"
  for srv ev
  by unfold_locales
    (simp_all add: NewServer_def corsMiddleware_def auth_def ctl_mux_def handleHealth_def)

subsection \<open>A request is at most one operation of the store\<close>

definition one_op :: "store \<Rightarrow> store \<Rightarrow> bool" where
  "one_op s t \<longleftrightarrow> (\<exists>ops. length ops \<le> 1 \<and> t = ctl_run ops s)"

lemma one_op_same [simp, intro]: "one_op s s"
  by (auto simp: one_op_def ctl_run_def intro: exI [of _ "[]"])

lemma one_op_step: "one_op s (ctl_step op s)"
  by (auto simp: one_op_def ctl_run_def intro: exI [of _ "[op]"])

lemma one_op_ops [simp, intro]:
  "one_op s (fst (Override d cmd v oper r now ts s))" "one_op s (fst (Reset d oper r now ts s))"
  "one_op s (fst (LatchSafe d oper r now ts s))"
  using one_op_step [of s "OpOverride d cmd v oper r now ts"] one_op_step [of s "OpReset d oper r now ts"]
    one_op_step [of s "OpLatch d oper r now ts"] by simp_all

lemma handler_steps [simp]:
  "one_op s (fst (handleOverride ev rq s))" "one_op s (fst (handleReset ev rq s))" "one_op s (fst (handleLatch ev rq s))"
  by (simp_all add: handleOverride_def handleReset_def handleLatch_def Let_def split_beta split: sum.split)

lemma read_only_handlers [simp]:
  "fst (handleHealth rq s) = s" "fst (handleDevices ev rq s) = s" "fst (handleState rq s) = s"
  "fst (handleAudit rq s) = s"
  by (simp_all add: handleHealth_def handleDevices_def handleState_def handleAudit_def Let_def split: option.splits)

lemma ctl_mux_step: "one_op s (fst (ctl_mux ev rq s))"
  by (simp add: ctl_mux_def)

lemma NewServer_step: "one_op s (fst (NewServer srv ev rq s))"
  using ctl_mux_step [of s ev rq]
  by (simp add: NewServer_def corsMiddleware_def auth_def cors_wrap_def auth_check_def split_beta Let_def)

fun serve_all :: "server \<Rightarrow> (env \<times> request) list \<Rightarrow> store \<Rightarrow> store" where
  "serve_all srv [] s = s"
| "serve_all srv ((ev, rq) # rqs) s = serve_all srv rqs (fst (NewServer srv ev rq s))"

lemma ctl_run_append: "ctl_run (xs @ ys) s = ctl_run ys (ctl_run xs s)"
  by (simp add: ctl_run_def)

lemma serve_all_run: "\<exists>ops. serve_all srv rqs s = ctl_run ops s"
proof (induction srv rqs s rule: serve_all.induct)
  case (1 srv s)
  then show ?case
    by (auto simp: ctl_run_def intro: exI [of _ "[]"])
next
  case (2 srv ev rq rqs s)
  then obtain ops where "serve_all srv rqs (fst (NewServer srv ev rq s)) = ctl_run ops (fst (NewServer srv ev rq s))"
    by blast
  moreover obtain op where "fst (NewServer srv ev rq s) = ctl_run op s"
    using NewServer_step [of s srv ev rq] by (auto simp: one_op_def)
  ultimately show ?case
    by (auto simp: ctl_run_append [symmetric])
qed

lemma serve_all_safe:
  "limits_wf (limits s) \<Longrightarrow> store_safe s \<Longrightarrow> store_safe (serve_all srv rqs s)"
  using serve_all_run [of srv rqs s] ctl_run_safe by auto

lemma serve_all_limits [simp]: "limits (serve_all srv rqs s) = limits s"
  using serve_all_run [of srv rqs s] by auto

lemma Override_err_frame: "snd (Override d cmd v oper r now ts s) = Inl e \<Longrightarrow> fst (Override d cmd v oper r now ts s) = s"
  by (rule Override_err [of d cmd v oper r now ts s _ e]) (simp add: prod_eq_iff)

lemma handler_errors:
  "rs_status (snd (handleOverride ev rq s)) \<noteq> 200 \<Longrightarrow> fst (handleOverride ev rq s) = s"
  "rs_status (snd (handleReset ev rq s)) \<noteq> 200 \<Longrightarrow> fst (handleReset ev rq s) = s"
  "rs_status (snd (handleLatch ev rq s)) \<noteq> 200 \<Longrightarrow> fst (handleLatch ev rq s) = s"
  by (auto simp: handleOverride_def handleReset_def handleLatch_def Let_def Reset_def LatchSafe_def split_beta
      split: sum.splits option.splits if_splits) (auto dest: Override_err_frame)

lemma not_found_status [simp]: "rs_status not_found = 404"
  by (simp add: not_found_def)

lemma ctl_mux_errors: "rs_status (snd (ctl_mux ev rq s)) \<noteq> 200 \<Longrightarrow> fst (ctl_mux ev rq s) = s"
  by (auto simp: ctl_mux_def handler_errors split: if_splits)

subsection \<open>Properties\<close>

text \<open>Without the bearer token no request has an effect, on any path and with any method:
  the store is unchanged, and the answer is 401 unless the request is the health check or a CORS
  preflight.\<close>

lemma control_api_guarded:
  assumes "\<not> authorized (authToken srv) rq"
  shows "fst (NewServer srv ev rq s) = s
    \<and> (rs_status (snd (NewServer srv ev rq s)) = 401 \<or> rq_path rq = ''/health'' \<or> (cors srv \<noteq> [] \<and> rq_method rq = ''OPTIONS''))"
  using ctl_http.unauthorized_no_effect [OF assms] ctl_http.unauthorized_401 [OF assms, of ev s]
  by auto

text \<open>Whatever requests the API serves, with whatever methods, bodies and tokens, every device
  of the store stays in the safety envelope and keeps the mode and latch discipline.\<close>

lemma control_api_safe:
  assumes "limits_wf (limits (NewStore l))"
  shows "store_safe (serve_all srv rqs (ctl_run seeds (NewStore l)))"
  using assms by (intro serve_all_safe ctl_run_safe) (simp_all add: NewStore_safe)

text \<open>C28. The statuses of an override: a well-formed POST is answered 404 for an unknown device,
  409 for a latched one, 400 for a command that is no actuator channel and 200 otherwise; and no
  request of the API that is answered with anything but 200 changes the store.\<close>

theorem override_statuses:
  assumes "rq_method rq = ''POST''" and "override_decode_ok (rq_body rq)"
    and "get_string ''device'' (rq_body rq) = d" and "d \<noteq> []"
    and "get_string ''command'' (rq_body rq) = cmd" and "cmd \<noteq> []"
  shows "rs_status (snd (handleOverride ev rq s)) =
      (case dev_state s d of None \<Rightarrow> 404
        | Some st \<Rightarrow> if LatchedSafe st then 409
            else if cmd \<in> {CmdValve, CmdFan, CmdOutlet, CmdDischarge} then 200 else 400)
    \<and> (rs_status (snd (ctl_mux ev rq' s')) = 200 \<or> fst (ctl_mux ev rq' s') = s')"
proof -
  have status: "override_status ErrUnknownDevice = 404" "override_status ErrLatchedSafe = 409"
    "override_status ErrUnknownCommand = 400"
    by (simp_all add: override_status_def ErrUnknownDevice_def ErrLatchedSafe_def ErrUnknownCommand_def)
  have "rs_status (snd (handleOverride ev rq s)) =
      (case dev_state s d of None \<Rightarrow> 404
        | Some st \<Rightarrow> if LatchedSafe st then 409
            else if cmd \<in> {CmdValve, CmdFan, CmdOutlet, CmdDischarge} then 200 else 400)"
    using assms
    by (simp add: handleOverride_def Override_def apply_command_def Let_def status split: option.split)
  then show ?thesis
    using ctl_mux_errors [of ev rq' s'] by auto
qed

theorem override_statuses_witness:
  "rs_status (snd (handleOverride \<lparr>env_now = 1, env_ts = 2, env_order = []\<rparr> \<lparr>rq_method = ''POST'', rq_path = ''/control/override'', rq_auth = [], rq_query = (\<lambda>_. []),
      rq_body = Some (JObj [(''device'', JStr ''d1''), (''command'', JStr ''pump''), (''value'', JBool True)])\<rparr>
    (ctl_run [OpSeed ''d1'' 0 0 True 0 0] (NewStore DefaultLimits)))) = 400"
  using override_statuses [of "\<lparr>rq_method = ''POST'', rq_path = ''/control/override'', rq_auth = [], rq_query = (\<lambda>_. []),
      rq_body = Some (JObj [(''device'', JStr ''d1''), (''command'', JStr ''pump''), (''value'', JBool True)])\<rparr>" "''d1''" "''pump''"]
  by (simp add: override_decode_ok_def json_defs ctl_run_def Seed_def NewStore_def)

end
