(* ===== verification/Orchestrator.thy ===== *)
theory Orchestrator
  imports Go_Http Bounded_Log
begin

text \<open>
  api/internal/orchestration/orchestrator.go and the SimSink of server.go: routing of control
  intents through the policy envelope to a sink, and the audit of every intent. The sink is
  an interface in the code; here it is an argument, a function from the device, command and
  value and the sink's state to its new state and the outcome. The locale \<open>hal_sink\<close> states
  what the orchestrator may expect of one, and SimSink is an interpretation of it. The
  clock and fmt's \<open>%q\<close> rendering of a command (it needs Unicode's table of printable runes)
  are arguments. A panic is an outcome, since net/http recovers it and the process goes on.
\<close>

type_synonym command = string

abbreviation OCmdValve :: command where "OCmdValve \<equiv> ''valve''"
abbreviation OCmdFan :: command where "OCmdFan \<equiv> ''fan''"
abbreviation OCmdOutlet :: command where "OCmdOutlet \<equiv> ''outlet''"
abbreviation OCmdDischarge :: command where "OCmdDischarge \<equiv> ''discharge_limit''"

record orc_state =
  os_Device :: string
  os_Valve :: f64
  os_Fan :: f64
  os_Outlet :: bool
  os_Discharge :: f64
  os_Mode :: string
  os_LatchedSafe :: bool
  os_Operator :: string
  os_UpdatedAt :: go_time

record orc_entry =
  oe_ID :: string
  oe_TS :: go_time
  oe_Device :: string
  oe_Command :: command
  oe_Source :: string
  oe_Requested :: any
  oe_Applied :: any
  oe_Clamped :: bool
  oe_Accepted :: bool
  oe_Reason :: string
  oe_Operator :: string

type_synonym 'k sink = "string \<Rightarrow> command \<Rightarrow> any \<Rightarrow> 'k \<Rightarrow> 'k \<times> orc_state go_result"

record policy =
  pCritAirTempC :: f64
  pWarnAirTempC :: f64
  pMinAirTempC :: f64
  pMinValve :: f64
  pMaxValve :: f64
  pMinFan :: f64
  pMaxFan :: f64
  pMinDischarge :: f64
  pMaxDischarge :: f64
  RequireTwoPerson :: bool

definition DefaultPolicy :: policy where
  "DefaultPolicy = \<lparr>pCritAirTempC = f64_45, pWarnAirTempC = f64_35, pMinAirTempC = f64_5,
     pMinValve = 0, pMaxValve = f64_100, pMinFan = 0, pMaxFan = f64_100,
     pMinDischarge = 0, pMaxDischarge = f64_100, RequireTwoPerson = False\<rparr>"

definition policy_zero :: "policy \<Rightarrow> bool" where
  "policy_zero p \<longleftrightarrow> list_all (\<lambda>x. f64_eq x 0)
     [pCritAirTempC p, pWarnAirTempC p, pMinAirTempC p, pMinValve p, pMaxValve p, pMinFan p, pMaxFan p,
      pMinDischarge p, pMaxDischarge p] \<and> \<not> RequireTwoPerson p"

record orchestrator =
  o_policy :: policy
  o_audit :: "orc_entry list"
  o_cap :: nat
  o_seq :: "64 word"

definition New :: "policy \<Rightarrow> orchestrator" where
  "New p = \<lparr>o_policy = (if policy_zero p then DefaultPolicy else p), o_audit = [], o_cap = 1000, o_seq = 0\<rparr>"

record submit_request =
  sr_Device :: string
  sr_Command :: command
  sr_Value :: any
  sr_Operator :: string
  sr_Reason :: string
  sr_Source :: string

record submit_response =
  sp_Accepted :: bool
  sp_Clamped :: bool
  sp_Reason :: string
  sp_State :: "orc_state option"

subsection \<open>Helpers\<close>

definition policy_bounds :: "policy \<Rightarrow> command \<Rightarrow> (f64 \<times> f64) option" where
  "policy_bounds p cmd =
     (if cmd = OCmdValve then Some (pMinValve p, pMaxValve p)
      else if cmd = OCmdFan then Some (pMinFan p, pMaxFan p)
      else if cmd = OCmdDischarge then Some (pMinDischarge p, pMaxDischarge p)
      else None)"

definition clampedValue :: "policy \<Rightarrow> command \<Rightarrow> f64 \<Rightarrow> f64 \<times> bool" where
  "clampedValue p cmd v = (case policy_bounds p cmd of
       None \<Rightarrow> (v, False)
     | Some (lo, hi) \<Rightarrow> if f64_lt v lo then (lo, True) else if f64_lt hi v then (hi, True) else (v, False))"

definition orc_toFloat :: "any \<Rightarrow> f64 \<times> bool" where
  "orc_toFloat v = (case v of
       AFloat64 t \<Rightarrow> (t, True)
     | AFloat32 t \<Rightarrow> (f64_of_f32 t, True)
     | AInt t \<Rightarrow> (f64_of_int (sint t), True)
     | AInt64 t \<Rightarrow> (f64_of_int (sint t), True)
     | ANumber t \<Rightarrow> (fst (parse_float t), snd (parse_float t) = None)
     | AString t \<Rightarrow> (case sscanf_f t of Some f \<Rightarrow> (f, True) | None \<Rightarrow> (0, False))
     | _ \<Rightarrow> (0, False))"

definition orc_toBool :: "any \<Rightarrow> bool \<times> bool" where
  "orc_toBool v = (case v of
       ABool t \<Rightarrow> (t, True)
     | AString t \<Rightarrow> (t = ''true'' \<or> t = ''1'' \<or> t = ''on'', True)
     | AFloat64 t \<Rightarrow> (\<not> f64_eq t 0, True)
     | _ \<Rightarrow> (False, False))"

subsection \<open>The audit log\<close>

definition orc_record :: "go_time \<Rightarrow> submit_request \<Rightarrow> any \<Rightarrow> bool \<Rightarrow> bool \<Rightarrow> string \<Rightarrow> orchestrator \<Rightarrow> orchestrator" where
  "orc_record ts req applied clamped accepted reason orc =
     (let q = o_seq orc + 1;
          e = \<lparr>oe_ID = ''orc-'' @ show_nat (unat q), oe_TS = ts, oe_Device = sr_Device req, oe_Command = sr_Command req,
               oe_Source = sr_Source req, oe_Requested = sr_Value req, oe_Applied = applied, oe_Clamped = clamped,
               oe_Accepted = accepted, oe_Reason = reason, oe_Operator = sr_Operator req\<rparr>;
          es = o_audit orc @ [e]
      in orc\<lparr>o_seq := q, o_audit := (if o_cap orc < length es then drop (length es - o_cap orc) es else es)\<rparr>)"

definition orc_Audit :: "int \<Rightarrow> orchestrator \<Rightarrow> orc_entry list" where
  "orc_Audit limit orc = window limit (o_audit orc)"

definition orc_Policy :: "orchestrator \<Rightarrow> policy" where
  "orc_Policy orc = o_policy orc"

subsection \<open>Submit\<close>

text \<open>
  The first half of \<open>Submit\<close>: the source default, the command check, and the clamping, which
  replaces the request's value. \<open>Inl\<close> is a rejection: the request as it is at that point and
  the reason.
\<close>

definition normalize_req :: "(string \<Rightarrow> string) \<Rightarrow> policy \<Rightarrow> submit_request \<Rightarrow> (submit_request \<times> string) + (submit_request \<times> any \<times> bool)" where
  "normalize_req quote p req0 =
     (let req = (if sr_Source req0 = [] then req0\<lparr>sr_Source := ''operator''\<rparr> else req0); cmd = sr_Command req
      in if cmd \<notin> {OCmdValve, OCmdFan, OCmdDischarge, OCmdOutlet} then Inl (req, ''unknown command '' @ quote cmd)
         else if cmd \<noteq> OCmdOutlet then
           (case orc_toFloat (sr_Value req) of
              (f, False) \<Rightarrow> Inl (req, ''value is not numeric'')
            | (f, True) \<Rightarrow> (case clampedValue p cmd f of
                (cv, was) \<Rightarrow> Inr (req\<lparr>sr_Value := AFloat64 cv\<rparr>, AFloat64 cv, was)))
         else
           (case orc_toBool (sr_Value req) of
              (b, False) \<Rightarrow> Inl (req, ''outlet value is not boolean'')
            | (b, True) \<Rightarrow> Inr (req\<lparr>sr_Value := ABool b\<rparr>, ABool b, False)))"

definition extreme :: "policy \<Rightarrow> f64 \<Rightarrow> bool" where
  "extreme p f \<longleftrightarrow> f64_le (f64_sub (pMaxValve p) f64_milli) f \<or> f64_le f (f64_add (pMinValve p) f64_milli)"

definition needs_two_person :: "policy \<Rightarrow> submit_request \<Rightarrow> any \<Rightarrow> bool" where
  "needs_two_person p req applied \<longleftrightarrow>
     RequireTwoPerson p \<and> sr_Source req = ''operator'' \<and> (sr_Command req = OCmdValve \<or> sr_Command req = OCmdFan)
     \<and> extreme p (fst (orc_toFloat applied))"

definition reject :: "go_time \<Rightarrow> submit_request \<Rightarrow> string \<Rightarrow> orchestrator \<Rightarrow> orchestrator \<times> submit_response go_result" where
  "reject ts req reason orc =
     (orc_record ts req (sr_Value req) False False reason orc,
      Ret \<lparr>sp_Accepted = False, sp_Clamped = False, sp_Reason = reason, sp_State = None\<rparr>)"

definition two_person_msg :: string where
  "two_person_msg = ''two-person acknowledgement required for extreme valve/fan setpoint''"

definition no_sink_msg :: string where
  "no_sink_msg = ''no edge sink configured (policy-only mode)''"

definition Submit :: "(string \<Rightarrow> string) \<Rightarrow> go_time \<Rightarrow> 'k sink option \<Rightarrow> submit_request \<Rightarrow> orchestrator \<times> 'k
    \<Rightarrow> (orchestrator \<times> 'k) \<times> submit_response go_result" where
  "Submit quote ts snk req0 s =
     (let (orc, k) = s; rej = (\<lambda>req reason. let (orc', r) = reject ts req reason orc in ((orc', k), r))
      in case normalize_req quote (o_policy orc) req0 of
           Inl (req, reason) \<Rightarrow> rej req reason
         | Inr (req, applied, clamped) \<Rightarrow>
             if needs_two_person (o_policy orc) req applied then rej req two_person_msg
             else case snk of
                 None \<Rightarrow> rej req no_sink_msg
               | Some ap \<Rightarrow>
                   (case ap (sr_Device req) (sr_Command req) (sr_Value req) k of
                      (k', Panic) \<Rightarrow> ((orc, k'), Panic)
                    | (k', Err e) \<Rightarrow> ((orc_record ts req applied False False e orc, k'), Err e)
                    | (k', Ret st) \<Rightarrow>
                        ((orc_record ts req applied clamped True [] orc, k'),
                         Ret \<lparr>sp_Accepted = True, sp_Clamped = clamped, sp_Reason = [], sp_State = Some st\<rparr>)))"

subsection \<open>SimSink\<close>

type_synonym sim = "string \<rightharpoonup> orc_state"

definition NewSimSink :: sim where "NewSimSink = Map.empty"

definition toF :: "any \<Rightarrow> f64" where "toF v = fst (orc_toFloat v)"

definition sim_zero :: "string \<Rightarrow> orc_state" where
  "sim_zero device = \<lparr>os_Device = device, os_Valve = 0, os_Fan = 0, os_Outlet = False, os_Discharge = 0,
     os_Mode = ''auto'', os_LatchedSafe = False, os_Operator = [], os_UpdatedAt = 0\<rparr>"

text \<open>\<open>value.(bool)\<close> panics on a value that is no bool; nothing has been
  written then.\<close>

definition SimSink_Apply :: "go_time \<Rightarrow> sim sink" where
  "SimSink_Apply now device cmd value k =
     (let st = (case k device of None \<Rightarrow> sim_zero device | Some st \<Rightarrow> st);
          upd = (\<lambda>st1. let st2 = st1\<lparr>os_UpdatedAt := now\<rparr> in (k(device \<mapsto> st2), Ret st2))
      in if cmd = OCmdValve then upd (st\<lparr>os_Valve := toF value\<rparr>)
         else if cmd = OCmdFan then upd (st\<lparr>os_Fan := toF value\<rparr>)
         else if cmd = OCmdDischarge then upd (st\<lparr>os_Discharge := toF value\<rparr>)
         else if cmd = OCmdOutlet then
           (case value of ABool b \<Rightarrow> upd (st\<lparr>os_Outlet := b\<rparr>) | _ \<Rightarrow> (k, Panic))
         else upd st)"

definition SimSink_State :: "string \<Rightarrow> sim \<Rightarrow> orc_state option" where
  "SimSink_State device k = k device"

subsection \<open>The audit is a sequenced log\<close>

type_synonym record_args = "go_time \<times> submit_request \<times> any \<times> bool \<times> bool \<times> string"

definition orc_push :: "record_args \<Rightarrow> orchestrator \<Rightarrow> orchestrator" where
  "orc_push = (\<lambda>(ts, req, applied, clamped, accepted, reason). orc_record ts req applied clamped accepted reason)"

definition orc_label :: "64 word \<Rightarrow> string" where
  "orc_label q = ''orc-'' @ show_nat (unat q)"

definition orc_entry_of :: "orchestrator \<Rightarrow> record_args \<Rightarrow> orc_entry" where
  "orc_entry_of orc = (\<lambda>(ts, req, applied, clamped, accepted, reason).
     \<lparr>oe_ID = orc_label (o_seq orc + 1), oe_TS = ts, oe_Device = sr_Device req, oe_Command = sr_Command req,
      oe_Source = sr_Source req, oe_Requested = sr_Value req, oe_Applied = applied, oe_Clamped = clamped,
      oe_Accepted = accepted, oe_Reason = reason, oe_Operator = sr_Operator req\<rparr>)"

definition orc_wf :: "orchestrator \<Rightarrow> bool" where
  "orc_wf orc \<longleftrightarrow> o_cap orc = 1000 \<and> length (o_audit orc) \<le> 1000"

lemma inj_orc_label: "inj orc_label"
proof (rule injI)
  fix a b :: "64 word"
  assume "orc_label a = orc_label b"
  then have "show_nat (unat a) = show_nat (unat b)"
    by (simp add: orc_label_def)
  then show "a = b"
    by (intro unsigned_word_eqI) (rule injD [OF inj_show_nat])
qed

lemma orc_record_audit:
  "o_audit (orc_record ts req ap cl acc r orc) = lastn (o_cap orc) (o_audit orc @ [orc_entry_of orc (ts, req, ap, cl, acc, r)])"
  by (auto simp: orc_record_def Let_def lastn_def orc_entry_of_def orc_label_def)

lemma orc_record_frame [simp]:
  "o_policy (orc_record ts req ap cl acc r orc) = o_policy orc" "o_cap (orc_record ts req ap cl acc r orc) = o_cap orc"
  "o_seq (orc_record ts req ap cl acc r orc) = o_seq orc + 1"
  by (simp_all add: orc_record_def Let_def)

interpretation orc_log: sequenced_log orc_push o_audit o_cap orc_entry_of orc_wf o_seq oe_ID orc_label
  by unfold_locales
    (auto simp: orc_push_def orc_record_audit orc_wf_def inj_orc_label orc_entry_of_def split: prod.splits)

lemma New_wf: "orc_wf (New p)" "orc_log.ids_contiguous (New p)"
  by (simp_all add: orc_wf_def New_def orc_log.ids_contiguous_def)

subsection \<open>What Submit does, case by case\<close>

lemma normalize_req_Inr:
  assumes "normalize_req quote p req0 = Inr (req, applied, clamped)"
  shows "sr_Device req = sr_Device req0 \<and> sr_Command req = sr_Command req0 \<and> sr_Operator req = sr_Operator req0
    \<and> sr_Source req = (if sr_Source req0 = [] then ''operator'' else sr_Source req0) \<and> sr_Value req = applied"
  using assms by (auto simp: normalize_req_def Let_def split: if_splits prod.splits bool.splits)

lemma normalize_req_command:
  "normalize_req quote p req0 = Inr (req, applied, clamped) \<Longrightarrow>
   sr_Command req0 \<in> {OCmdValve, OCmdFan, OCmdDischarge, OCmdOutlet}"
  by (auto simp: normalize_req_def Let_def split: if_splits)

text \<open>The values the policy lets through on a channel: in bounds, or NaN.\<close>

definition value_ok :: "policy \<Rightarrow> command \<Rightarrow> any \<Rightarrow> bool" where
  "value_ok p cmd v = (case policy_bounds p cmd of
       Some (lo, hi) \<Rightarrow> (case v of AFloat64 x \<Rightarrow> f64_is_nan x \<or> (f64_le lo x \<and> f64_le x hi) | _ \<Rightarrow> False)
     | None \<Rightarrow> cmd = OCmdOutlet \<and> (case v of ABool _ \<Rightarrow> True | _ \<Rightarrow> False))"

definition policy_wf :: "policy \<Rightarrow> bool" where
  "policy_wf p \<longleftrightarrow> f64_le (pMinValve p) (pMaxValve p) \<and> f64_le (pMinFan p) (pMaxFan p)
     \<and> f64_le (pMinDischarge p) (pMaxDischarge p)"

lemma policy_wf_bounds: "policy_wf p \<Longrightarrow> policy_bounds p cmd = Some (lo, hi) \<Longrightarrow> f64_le lo hi"
  by (auto simp: policy_wf_def policy_bounds_def split: if_splits)

lemma clampedValue_ok:
  assumes "policy_wf p" "policy_bounds p cmd = Some (lo, hi)"
  shows "value_ok p cmd (AFloat64 (fst (clampedValue p cmd v)))"
  using policy_wf_bounds [OF assms] assms(2) by (auto simp: value_ok_def clampedValue_def f64_order_defs)

lemma normalize_req_value_ok:
  assumes "policy_wf p" "normalize_req quote p req0 = Inr (req, applied, clamped)"
  shows "value_ok p (sr_Command req) (sr_Value req)"
proof (cases "sr_Command req0 = OCmdOutlet")
  case True
  then show ?thesis
    using assms(2) by (auto simp: normalize_req_def Let_def value_ok_def policy_bounds_def split: if_splits prod.splits bool.splits)
next
  case False
  then have "sr_Command req0 \<in> {OCmdValve, OCmdFan, OCmdDischarge}"
    using normalize_req_command [OF assms(2)] by auto
  then obtain lo hi where b: "policy_bounds p (sr_Command req0) = Some (lo, hi)"
    by (auto simp: policy_bounds_def)
  have "sr_Command req = sr_Command req0"
    using normalize_req_Inr [OF assms(2)] by simp
  moreover have "\<exists>f. sr_Value req = AFloat64 (fst (clampedValue p (sr_Command req0) f))"
    using assms(2) False
    by (auto simp: normalize_req_def Let_def split: if_splits prod.splits bool.splits) (metis fst_conv)+
  ultimately show ?thesis
    using clampedValue_ok [OF assms(1) b] by auto
qed

definition is_channel :: "command \<Rightarrow> bool" where
  "is_channel cmd \<longleftrightarrow> cmd \<in> {OCmdValve, OCmdFan, OCmdDischarge, OCmdOutlet}"

definition typed :: "command \<Rightarrow> any \<Rightarrow> bool" where
  "typed cmd v = (if cmd = OCmdOutlet then (case v of ABool _ \<Rightarrow> True | _ \<Rightarrow> False)
     else if cmd \<in> {OCmdValve, OCmdFan, OCmdDischarge} then (case v of AFloat64 _ \<Rightarrow> True | _ \<Rightarrow> False) else False)"

lemma normalize_req_typed:
  assumes "normalize_req quote p req0 = Inr (req, applied, clamped)"
  shows "typed (sr_Command req) (sr_Value req) \<and> sr_Value req = applied"
  using assms by (auto simp: normalize_req_def Let_def typed_def split: if_splits prod.splits bool.splits)

text \<open>\<open>Submit\<close> either leaves the sink alone or makes one call, on the normalized request.\<close>

definition calls :: "(string \<Rightarrow> string) \<Rightarrow> 'k sink option \<Rightarrow> submit_request \<Rightarrow> orchestrator \<Rightarrow> 'k \<Rightarrow>
    submit_request \<Rightarrow> any \<Rightarrow> bool \<Rightarrow> 'k \<Rightarrow> orc_state go_result \<Rightarrow> bool" where
  "calls quote snk req orc k req' applied clamped k' r \<longleftrightarrow>
     normalize_req quote (o_policy orc) req = Inr (req', applied, clamped)
     \<and> \<not> needs_two_person (o_policy orc) req' applied
     \<and> (case snk of None \<Rightarrow> False | Some ap \<Rightarrow> ap (sr_Device req') (sr_Command req') (sr_Value req') k = (k', r))"

lemma Submit_cases:
  obtains (rejected) req' reason where
      "Submit quote ts snk req (orc, k) = ((orc_push (ts, req', sr_Value req', False, False, reason) orc, k),
        Ret \<lparr>sp_Accepted = False, sp_Clamped = False, sp_Reason = reason, sp_State = None\<rparr>)"
  | (panicked) req' applied clamped k' where "calls quote snk req orc k req' applied clamped k' Panic"
      "Submit quote ts snk req (orc, k) = ((orc, k'), Panic)"
  | (refused) req' applied clamped k' e where "calls quote snk req orc k req' applied clamped k' (Err e)"
      "Submit quote ts snk req (orc, k) = ((orc_push (ts, req', applied, False, False, e) orc, k'), Err e)"
  | (accepted) req' applied clamped k' st where "calls quote snk req orc k req' applied clamped k' (Ret st)"
      "Submit quote ts snk req (orc, k) = ((orc_push (ts, req', applied, clamped, True, []) orc, k'),
         Ret \<lparr>sp_Accepted = True, sp_Clamped = clamped, sp_Reason = [], sp_State = Some st\<rparr>)"
proof (cases "normalize_req quote (o_policy orc) req")
  case (Inl p)
  then show thesis
    by (cases p) (rule rejected, simp add: Submit_def Let_def reject_def orc_push_def)
next
  case (Inr p)
  obtain req' applied clamped where p: "p = (req', applied, clamped)" by (cases p)
  show thesis
  proof (cases "needs_two_person (o_policy orc) req' applied \<or> snk = None")
    case True
    with Inr p show thesis
      by (intro rejected [of req' "if needs_two_person (o_policy orc) req' applied then two_person_msg else no_sink_msg"])
        (auto simp: Submit_def Let_def reject_def orc_push_def)
  next
    case False
    then obtain ap where ap: "snk = Some ap" "\<not> needs_two_person (o_policy orc) req' applied" by auto
    obtain k' r where r: "ap (sr_Device req') (sr_Command req') (sr_Value req') k = (k', r)" by force
    have c: "calls quote snk req orc k req' applied clamped k' r"
      using Inr p ap r by (simp add: calls_def)
    show thesis
    proof (cases r)
      case (Ret st)
      with Inr p ap r c show thesis
        by (intro accepted [of req' applied clamped k' st]) (simp_all add: Submit_def Let_def orc_push_def)
    next
      case (Err e)
      with Inr p ap r c show thesis
        by (intro refused [of req' applied clamped k' e]) (simp_all add: Submit_def Let_def orc_push_def)
    next
      case Panic
      with Inr p ap r c show thesis
        by (intro panicked [of req' applied clamped k']) (simp_all add: Submit_def Let_def)
    qed
  qed
qed

text \<open>A \<open>Submit\<close> that does not panic makes a single \<open>record\<close>.\<close>

lemma normalize_req_source:
  "normalize_req quote p req = Inl (req', reason) \<Longrightarrow>
   sr_Device req' = sr_Device req \<and> sr_Command req' = sr_Command req \<and> sr_Operator req' = sr_Operator req
   \<and> sr_Source req' = (if sr_Source req = [] then ''operator'' else sr_Source req)"
  by (auto simp: normalize_req_def Let_def split: if_splits prod.splits bool.splits)

lemma Submit_audits:
  assumes "snd (Submit quote ts snk req (orc, k)) \<noteq> Panic"
  shows "\<exists>req' applied clamped accepted reason.
    fst (fst (Submit quote ts snk req (orc, k))) = orc_push (ts, req', applied, clamped, accepted, reason) orc
    \<and> sr_Device req' = sr_Device req \<and> sr_Command req' = sr_Command req \<and> sr_Operator req' = sr_Operator req
    \<and> sr_Source req' = (if sr_Source req = [] then ''operator'' else sr_Source req)
    \<and> accepted = (case snd (Submit quote ts snk req (orc, k)) of Ret resp \<Rightarrow> sp_Accepted resp | _ \<Rightarrow> False)"
proof (cases "normalize_req quote (o_policy orc) req")
  case (Inl p)
  then show ?thesis
    using normalize_req_source [of quote "o_policy orc" req "fst p" "snd p"]
    by (intro exI [of _ "fst p"] exI [of _ "sr_Value (fst p)"] exI [of _ False] exI [of _ "snd p"])
      (cases p, simp add: Submit_def Let_def reject_def orc_push_def)
next
  case (Inr p)
  obtain req' applied clamped where p: "p = (req', applied, clamped)" by (cases p)
  let ?acc = "case snd (Submit quote ts snk req (orc, k)) of Ret resp \<Rightarrow> sp_Accepted resp | _ \<Rightarrow> False"
  have "\<exists>ap cl reason. fst (fst (Submit quote ts snk req (orc, k))) = orc_push (ts, req', ap, cl, ?acc, reason) orc"
    using assms Inr p
    by (auto simp: Submit_def Let_def reject_def orc_push_def split: option.splits prod.splits go_result.splits if_splits)
  then show ?thesis
    using normalize_req_Inr [of quote "o_policy orc" req req' applied clamped] Inr p by metis
qed

lemma calls_typed: "calls quote snk req orc k req' applied clamped k' r \<Longrightarrow>
  typed (sr_Command req') (sr_Value req') \<and> sr_Value req' = applied \<and> is_channel (sr_Command req')"
  using normalize_req_typed [of quote "o_policy orc" req req' applied clamped]
  by (auto simp: calls_def typed_def is_channel_def split: if_splits)

subsection \<open>What the orchestrator may expect of a sink\<close>

text \<open>The value of a device's channel, as the command's type of value.\<close>

definition orc_channel :: "command \<Rightarrow> orc_state \<Rightarrow> any" where
  "orc_channel cmd st = (if cmd = OCmdValve then AFloat64 (os_Valve st) else if cmd = OCmdFan then AFloat64 (os_Fan st)
     else if cmd = OCmdDischarge then AFloat64 (os_Discharge st) else ABool (os_Outlet st))"

text \<open>The audit agrees with the devices: the last accepted entry of a channel is its value.\<close>

definition last_accepted :: "string \<Rightarrow> command \<Rightarrow> orc_entry list \<Rightarrow> orc_entry list" where
  "last_accepted d cmd es = lastn 1 (filter (\<lambda>e. oe_Accepted e \<and> oe_Device e = d \<and> oe_Command e = cmd) es)"

lemma last_accepted_snoc:
  "last_accepted d cmd (es @ [e]) =
     (if oe_Accepted e \<and> oe_Device e = d \<and> oe_Command e = cmd then [e] else last_accepted d cmd es)"
  by (simp add: last_accepted_def lastn_snoc lastn_def)

lemma last_accepted_lastn: "set (last_accepted d cmd (lastn n es)) \<subseteq> set (last_accepted d cmd es)"
proof -
  have "filter P es = filter P (take (length es - n) es) @ filter P (lastn n es)" for P
    by (metis append_take_drop_id filter_append lastn_def)
  then show ?thesis
    by (auto simp: last_accepted_def lastn_append)
qed

definition reflects :: "('k \<Rightarrow> string \<Rightarrow> orc_state option) \<Rightarrow> orchestrator \<times> 'k \<Rightarrow> bool" where
  "reflects device_state s \<longleftrightarrow> (\<forall>d cmd. is_channel cmd \<longrightarrow>
     (\<forall>e \<in> set (last_accepted d cmd (o_audit (fst s))).
        (case device_state (snd s) d of None \<Rightarrow> False | Some st \<Rightarrow> orc_channel cmd st = oe_Applied e)))"

text \<open>A sequence of intents, each with the sink's and the audit's clock readings.\<close>

definition submits :: "(string \<Rightarrow> string) \<Rightarrow> (go_time \<Rightarrow> 'k sink) \<Rightarrow> (go_time \<times> go_time \<times> submit_request) list
    \<Rightarrow> orchestrator \<times> 'k \<Rightarrow> orchestrator \<times> 'k" where
  "submits quote ap rqs s = fold (\<lambda>(now, ts, req) s. fst (Submit quote ts (Some (ap now)) req s)) rqs s"

text \<open>
  A sink keeps one state per device: a delivered value is the value of that channel
  afterwards, other channels and other devices keep theirs, a refused command changes
  nothing, and a value of the channel's type never makes it panic.
\<close>

locale hal_sink =
  fixes ap :: "go_time \<Rightarrow> string \<Rightarrow> command \<Rightarrow> any \<Rightarrow> 'k \<Rightarrow> 'k \<times> orc_state go_result"
    and device_state :: "'k \<Rightarrow> string \<Rightarrow> orc_state option"
    and sink_ok :: "'k \<Rightarrow> bool"
  assumes delivered: "sink_ok k \<Longrightarrow> typed cmd v \<Longrightarrow> ap now d cmd v k = (k', Ret st) \<Longrightarrow>
      device_state k' = (device_state k)(d \<mapsto> st) \<and> orc_channel cmd st = v \<and> os_Device st = d"
    and other_channels: "sink_ok k \<Longrightarrow> ap now d cmd v k = (k', Ret st) \<Longrightarrow> is_channel c \<Longrightarrow> c \<noteq> cmd \<Longrightarrow>
      device_state k d = Some st0 \<Longrightarrow> orc_channel c st = orc_channel c st0"
    and refused: "sink_ok k \<Longrightarrow> ap now d cmd v k = (k', Err e) \<Longrightarrow> device_state k' = device_state k"
    and no_panic: "sink_ok k \<Longrightarrow> typed cmd v \<Longrightarrow> snd (ap now d cmd v k) \<noteq> Panic"
    and keeps_ok: "sink_ok k \<Longrightarrow> sink_ok (fst (ap now d cmd v k))"
begin

lemma calls_ap:
  assumes "calls quote (Some (ap now)) req orc k req' applied clamped k' r" "sink_ok k"
  shows "ap now (sr_Device req') (sr_Command req') applied k = (k', r)" "sink_ok k'" "r \<noteq> Panic"
    "typed (sr_Command req') applied" "is_channel (sr_Command req')"
proof -
  show eq: "ap now (sr_Device req') (sr_Command req') applied k = (k', r)"
    using assms(1) calls_typed [OF assms(1)] by (simp add: calls_def)
  show ty: "typed (sr_Command req') applied" "is_channel (sr_Command req')"
    using calls_typed [OF assms(1)] by auto
  show "sink_ok k'"
    using keeps_ok [OF assms(2), of now "sr_Device req'" "sr_Command req'" applied] eq by simp
  show "r \<noteq> Panic"
    using no_panic [OF assms(2) ty(1), of now "sr_Device req'"] eq by simp
qed

lemma submit_no_panic: "sink_ok k \<Longrightarrow> snd (Submit quote ts (Some (ap now)) req (orc, k)) \<noteq> Panic"
  by (rule Submit_cases [of quote ts "Some (ap now)" req orc k]) (auto dest: calls_ap)

lemma submit_ok: "sink_ok k \<Longrightarrow> sink_ok (snd (fst (Submit quote ts (Some (ap now)) req (orc, k))))"
  by (rule Submit_cases [of quote ts "Some (ap now)" req orc k]) (auto dest: calls_ap)

lemma reflects_push:
  assumes refl: "reflects device_state (orc, k)"
    and entry: "accepted \<Longrightarrow> is_channel (sr_Command req) \<Longrightarrow>
        (case device_state k' (sr_Device req) of None \<Rightarrow> False | Some st \<Rightarrow> orc_channel (sr_Command req) st = applied)"
    and frame: "\<And>d c st0. is_channel c \<Longrightarrow> \<not> (accepted \<and> d = sr_Device req \<and> c = sr_Command req) \<Longrightarrow>
        device_state k d = Some st0 \<Longrightarrow> (case device_state k' d of None \<Rightarrow> False | Some st \<Rightarrow> orc_channel c st = orc_channel c st0)"
  shows "reflects device_state (orc_push (ts, req, applied, clamped, accepted, reason) orc, k')"
  unfolding reflects_def
proof (intro allI impI ballI)
  fix d c e
  assume c: "is_channel c"
  let ?e = "orc_entry_of orc (ts, req, applied, clamped, accepted, reason)"
  assume "e \<in> set (last_accepted d c (o_audit (fst (orc_push (ts, req, applied, clamped, accepted, reason) orc, k'))))"
  then have "e \<in> set (last_accepted d c (o_audit orc @ [?e]))"
    using last_accepted_lastn by (fastforce simp: orc_push_def orc_record_audit)
  then consider (new) "accepted" "d = sr_Device req" "c = sr_Command req" "e = ?e"
    | (old) "\<not> (accepted \<and> d = sr_Device req \<and> c = sr_Command req)" "e \<in> set (last_accepted d c (o_audit orc))"
    by (auto simp: last_accepted_snoc orc_entry_of_def split: if_splits)
  then show "case device_state (snd (orc_push (ts, req, applied, clamped, accepted, reason) orc, k')) d of
      None \<Rightarrow> False | Some st \<Rightarrow> orc_channel c st = oe_Applied e"
  proof cases
    case new
    then show ?thesis
      using entry c by (auto simp: orc_entry_of_def split: option.splits)
  next
    case old
    then have "case device_state k d of None \<Rightarrow> False | Some st \<Rightarrow> orc_channel c st = oe_Applied e"
      using refl c by (auto simp: reflects_def)
    then obtain st0 where "device_state k d = Some st0" "orc_channel c st0 = oe_Applied e"
      by (auto split: option.splits)
    then show ?thesis
      using frame [OF c old(1)] by (auto split: option.splits)
  qed
qed

lemma reflects_submit:
  assumes ok: "sink_ok k" and refl: "reflects device_state (orc, k)"
  shows "reflects device_state (fst (Submit quote ts (Some (ap now)) req (orc, k)))"
proof (rule Submit_cases [of quote ts "Some (ap now)" req orc k])
  fix req' reason
  assume eq: "Submit quote ts (Some (ap now)) req (orc, k) = ((orc_push (ts, req', sr_Value req', False, False, reason) orc, k),
        Ret \<lparr>sp_Accepted = False, sp_Clamped = False, sp_Reason = reason, sp_State = None\<rparr>)"
  show ?thesis
    unfolding eq fst_conv by (rule reflects_push [OF refl]) simp_all
next
  fix req' applied clamped k'
  assume "calls quote (Some (ap now)) req orc k req' applied clamped k' Panic"
  then show ?thesis
    using calls_ap(3) [OF _ ok] by blast
next
  fix req' applied clamped k' e
  assume c: "calls quote (Some (ap now)) req orc k req' applied clamped k' (Err e)"
    and eq: "Submit quote ts (Some (ap now)) req (orc, k) = ((orc_push (ts, req', applied, False, False, e) orc, k'), Err e)"
  have "device_state k' = device_state k"
    using refused [OF ok calls_ap(1) [OF c ok]] .
  then show ?thesis
    unfolding eq fst_conv by (intro reflects_push [OF refl]) simp_all
next
  fix req' applied clamped k' st
  assume c: "calls quote (Some (ap now)) req orc k req' applied clamped k' (Ret st)"
    and eq: "Submit quote ts (Some (ap now)) req (orc, k) = ((orc_push (ts, req', applied, clamped, True, []) orc, k'),
         Ret \<lparr>sp_Accepted = True, sp_Clamped = clamped, sp_Reason = [], sp_State = Some st\<rparr>)"
  note call = calls_ap(1) [OF c ok]
  have st: "device_state k' = (device_state k)(sr_Device req' \<mapsto> st)" "orc_channel (sr_Command req') st = applied"
    using delivered [OF ok calls_ap(4) [OF c ok] call] by auto
  show ?thesis
    unfolding eq fst_conv
  proof (rule reflects_push [OF refl])
    show "case device_state k' (sr_Device req') of None \<Rightarrow> False | Some st \<Rightarrow> orc_channel (sr_Command req') st = applied"
      using st by simp
  next
    fix d ch st0
    assume "is_channel ch" "\<not> (True \<and> d = sr_Device req' \<and> ch = sr_Command req')" "device_state k d = Some st0"
    then show "case device_state k' d of None \<Rightarrow> False | Some st \<Rightarrow> orc_channel ch st = orc_channel ch st0"
      using other_channels [OF ok call, of ch st0] st by auto
  qed
qed

lemma submits_keep:
  "sink_ok (snd s) \<Longrightarrow> reflects device_state s \<Longrightarrow>
   sink_ok (snd (submits quote ap rqs s)) \<and> reflects device_state (submits quote ap rqs s)"
proof (induction rqs arbitrary: s)
  case Nil
  then show ?case by (simp add: submits_def)
next
  case (Cons rq rqs)
  obtain now ts req where rq: "rq = (now, ts, req)" by (cases rq)
  have "submits quote ap (rq # rqs) s = submits quote ap rqs (fst (Submit quote ts (Some (ap now)) req s))"
    by (simp add: submits_def rq)
  then show ?case
    using Cons submit_ok [of "snd s" quote ts now req "fst s"] reflects_submit [of "snd s" "fst s" quote ts now req] by simp
qed

end

subsection \<open>SimSink is such a sink\<close>

definition sim_ok :: "sim \<Rightarrow> bool" where
  "sim_ok k \<longleftrightarrow> (\<forall>d st. k d = Some st \<longrightarrow> os_Device st = d)"

definition sim_set :: "command \<Rightarrow> any \<Rightarrow> orc_state \<Rightarrow> orc_state" where
  "sim_set cmd v st =
     (if cmd = OCmdValve then st\<lparr>os_Valve := toF v\<rparr> else if cmd = OCmdFan then st\<lparr>os_Fan := toF v\<rparr>
      else if cmd = OCmdDischarge then st\<lparr>os_Discharge := toF v\<rparr>
      else if cmd = OCmdOutlet then st\<lparr>os_Outlet := (case v of ABool b \<Rightarrow> b | _ \<Rightarrow> False)\<rparr> else st)"

lemma SimSink_Apply_cases:
  "SimSink_Apply now d cmd v k =
    (if cmd = OCmdOutlet \<and> (case v of ABool _ \<Rightarrow> False | _ \<Rightarrow> True) then (k, Panic)
     else let st = (sim_set cmd v (case k d of None \<Rightarrow> sim_zero d | Some st \<Rightarrow> st))\<lparr>os_UpdatedAt := now\<rparr>
       in (k(d \<mapsto> st), Ret st))"
  by (auto simp: SimSink_Apply_def sim_set_def Let_def split: any.split)

lemma sim_set_channel:
  "c \<noteq> cmd \<Longrightarrow> is_channel c \<Longrightarrow> orc_channel c ((sim_set cmd v st)\<lparr>os_UpdatedAt := now\<rparr>) = orc_channel c st"
  by (auto simp: sim_set_def orc_channel_def is_channel_def)

lemma sim_set_typed:
  "typed cmd v \<Longrightarrow> orc_channel cmd ((sim_set cmd v st)\<lparr>os_UpdatedAt := now\<rparr>) = v"
  by (auto simp: sim_set_def orc_channel_def typed_def toF_def orc_toFloat_def split: if_splits any.splits)

lemma sim_set_Device [simp]: "os_Device (sim_set cmd v st) = os_Device st"
  by (simp add: sim_set_def)

lemma sim_ok_zero: "sim_ok k \<Longrightarrow> os_Device (case k d of None \<Rightarrow> sim_zero d | Some st \<Rightarrow> st) = d"
  by (auto simp: sim_ok_def sim_zero_def split: option.split)

interpretation sim: hal_sink SimSink_Apply "\<lambda>k. k" sim_ok
proof unfold_locales
  fix k cmd v now d k' st
  assume ok: "sim_ok k" and ty: "typed cmd v" and eq: "SimSink_Apply now d cmd v k = (k', Ret st)"
  show "k' = k(d \<mapsto> st) \<and> orc_channel cmd st = v \<and> os_Device st = d"
    using eq sim_ok_zero [OF ok, of d] sim_set_typed [OF ty]
    by (auto simp: SimSink_Apply_cases Let_def split: if_splits)
next
  fix k now d cmd v k' st c st0
  assume "sim_ok k" "SimSink_Apply now d cmd v k = (k', Ret st)" "is_channel c" "c \<noteq> cmd" "k d = Some st0"
  then show "orc_channel c st = orc_channel c st0"
    using sim_set_channel [of c cmd now v st0] by (auto simp: SimSink_Apply_cases Let_def split: if_splits)
next
  fix k now d cmd v k' e
  assume "SimSink_Apply now d cmd v k = (k', Err e)"
  then show "k' = k"
    by (auto simp: SimSink_Apply_cases Let_def split: if_splits)
next
  fix k cmd v now d
  assume "typed cmd v"
  then show "snd (SimSink_Apply now d cmd v k) \<noteq> Panic"
    by (auto simp: SimSink_Apply_cases typed_def Let_def split: if_splits any.splits)
next
  fix k now d cmd v
  assume ok: "sim_ok k"
  show "sim_ok (fst (SimSink_Apply now d cmd v k))"
    using ok sim_ok_zero [OF ok, of d] by (auto simp: SimSink_Apply_cases sim_ok_def Let_def)
qed

subsection \<open>Runs over an arbitrary sink\<close>

text \<open>A sink instrumented to remember the calls made to it.\<close>

type_synonym call = "string \<times> command \<times> any"

definition traced :: "'k sink \<Rightarrow> ('k \<times> call list) sink" where
  "traced ap d cmd v kt = (case ap d cmd v (fst kt) of (k', r) \<Rightarrow> ((k', snd kt @ [(d, cmd, v)]), r))"

fun orc_run :: "(string \<Rightarrow> string) \<Rightarrow> 'k sink option \<Rightarrow> (go_time \<times> submit_request) list \<Rightarrow> orchestrator \<times> 'k \<Rightarrow> orchestrator \<times> 'k" where
  "orc_run quote snk [] s = s"
| "orc_run quote snk ((ts, req) # rqs) s = orc_run quote snk rqs (fst (Submit quote ts snk req s))"

lemma Submit_log:
  "fst (fst (Submit quote ts snk req (orc, k))) = orc
   \<or> (\<exists>a. fst (fst (Submit quote ts snk req (orc, k))) = orc_push a orc)"
  by (rule Submit_cases [of quote ts snk req orc k]) (auto simp del: split_paired_Ex split_paired_All)

lemma orc_push_policy [simp]: "o_policy (orc_push a orc) = o_policy orc"
  by (simp add: orc_push_def split: prod.split)

lemma Submit_policy [simp]: "o_policy (fst (fst (Submit quote ts snk req s))) = o_policy (fst s)"
  using Submit_log [of quote ts snk req "fst s" "snd s"] by auto

lemma orc_run_policy [simp]: "o_policy (fst (orc_run quote snk rqs s)) = o_policy (fst s)"
  by (induction quote snk rqs s rule: orc_run.induct) simp_all

lemma orc_run_log:
  "orc_wf (fst s) \<Longrightarrow> orc_log.ids_contiguous (fst s) \<Longrightarrow>
   orc_wf (fst (orc_run quote snk rqs s)) \<and> orc_log.ids_contiguous (fst (orc_run quote snk rqs s))"
proof (induction quote snk rqs s rule: orc_run.induct)
  case (2 quote snk ts req rqs s)
  have "orc_wf (fst (fst (Submit quote ts snk req s))) \<and> orc_log.ids_contiguous (fst (fst (Submit quote ts snk req s)))"
    using Submit_log [of quote ts snk req "fst s" "snd s"] 2(2,3) orc_log.wf_push orc_log.ids_push by auto
  then show ?case
    using 2(1) by simp
qed simp

text \<open>Every call of a run is one the policy allows.\<close>

definition call_ok :: "policy \<Rightarrow> call \<Rightarrow> bool" where
  "call_ok p c = (case c of (d, cmd, v) \<Rightarrow> value_ok p cmd v)"

lemma traced_submit:
  assumes "policy_wf (o_policy orc)" "list_all (call_ok (o_policy orc)) (snd k)"
  shows "list_all (call_ok (o_policy orc)) (snd (snd (fst (Submit quote ts (Some (traced ap)) req (orc, k)))))"
proof (rule Submit_cases [of quote ts "Some (traced ap)" req orc k])
  have *: "list_all (call_ok (o_policy orc)) (snd k')"
    if "calls quote (Some (traced ap)) req orc k req' applied clamped k' r" for req' applied clamped k' r
  proof -
    have "value_ok (o_policy orc) (sr_Command req') (sr_Value req')"
      using that normalize_req_value_ok [OF assms(1)] by (auto simp: calls_def)
    moreover have "snd k' = snd k @ [(sr_Device req', sr_Command req', sr_Value req')]"
      using that by (auto simp: calls_def traced_def split: prod.splits)
    ultimately show ?thesis
      using assms(2) by (simp add: call_ok_def)
  qed
  then show ?thesis if "calls quote (Some (traced ap)) req orc k req' applied clamped k' (Ret st)"
    "Submit quote ts (Some (traced ap)) req (orc, k) = ((orc_push (ts, req', applied, clamped, True, []) orc, k'),
         Ret \<lparr>sp_Accepted = True, sp_Clamped = clamped, sp_Reason = [], sp_State = Some st\<rparr>)" for req' applied clamped k' st
    using that by auto
  show ?thesis if "calls quote (Some (traced ap)) req orc k req' applied clamped k' (Err e)"
    "Submit quote ts (Some (traced ap)) req (orc, k) = ((orc_push (ts, req', applied, False, False, e) orc, k'), Err e)" for req' applied clamped k' e
    using that * by auto
  show ?thesis if "calls quote (Some (traced ap)) req orc k req' applied clamped k' Panic"
    "Submit quote ts (Some (traced ap)) req (orc, k) = ((orc, k'), Panic)" for req' applied clamped k'
    using that * by auto
qed (use assms(2) in auto)

lemma traced_run:
  "policy_wf (o_policy (fst s)) \<Longrightarrow> list_all (call_ok (o_policy (fst s))) (snd (snd s)) \<Longrightarrow>
   list_all (call_ok (o_policy (fst s))) (snd (snd (orc_run quote (Some (traced ap)) rqs s)))"
proof (induction rqs arbitrary: s)
  case (Cons rq rqs)
  obtain ts req where rq: "rq = (ts, req)" by (cases rq)
  show ?case
    using Cons.IH [of "fst (Submit quote ts (Some (traced ap)) req s)"] Cons.prems
      traced_submit [of "fst s" "snd s" quote ts ap req] by (simp add: rq)
qed simp

lemma clampedValue_max:
  assumes b: "policy_bounds p cmd = Some (lo, hi)" and wf: "f64_le lo hi" and v: "f64_le hi v \<or> f64_le v lo"
  shows "f64_eq (fst (clampedValue p cmd v)) hi \<or> f64_eq (fst (clampedValue p cmd v)) lo"
  using v wf by (auto simp: clampedValue_def b f64_order_defs)

lemma f64_sub_milli_le: "f64_finite x \<Longrightarrow> f64_le (f64_sub x f64_milli) x"
  by (simp add: f64_sub_def f64_add_neg_le)

lemma f64_add_milli_ge: "f64_finite x \<Longrightarrow> f64_le x (f64_add x f64_milli)"
  by (simp add: f64_add_pos_ge)

lemma f64_le_eq_trans: "f64_le x y \<Longrightarrow> f64_eq z y \<Longrightarrow> f64_le x z" "f64_le y x \<Longrightarrow> f64_eq z y \<Longrightarrow> f64_le z x"
  by (auto simp: f64_order_defs)

lemma extreme_clamped:
  assumes "policy_bounds p cmd = Some (pMinValve p, pMaxValve p)" "policy_wf p"
    "f64_finite (pMinValve p)" "f64_finite (pMaxValve p)"
    "f64_le (pMaxValve p) v \<or> f64_le v (pMinValve p)"
  shows "extreme p (fst (clampedValue p cmd v))"
proof -
  have "f64_le (pMinValve p) (pMaxValve p)"
    using assms(2) by (simp add: policy_wf_def)
  then show ?thesis
    using clampedValue_max [OF assms(1) _ assms(5)] f64_sub_milli_le [OF assms(4)] f64_add_milli_ge [OF assms(3)]
    by (auto simp: extreme_def dest: f64_le_eq_trans)
qed

lemma DefaultPolicy_wf [simp]: "policy_wf DefaultPolicy"
  by (simp add: policy_wf_def DefaultPolicy_def f64_eval f64_100_def)

lemma New_DefaultPolicy [simp]: "o_policy (New DefaultPolicy) = DefaultPolicy"
  by (simp add: New_def)

lemma f64_100_facts [simp]: "f64_finite f64_100" "\<not> f64_neg f64_100" "\<not> f64_is_nan f64_100" "f64_finite 0"
  by (simp_all add: f64_100_def f64_eval)

lemma normalize_req_extreme:
  assumes cmd: "sr_Command req \<in> {OCmdValve, OCmdFan}"
    and b: "policy_bounds p (sr_Command req) = Some (pMinValve p, pMaxValve p)"
    and wf: "policy_wf p" "f64_finite (pMinValve p)" "f64_finite (pMaxValve p)"
    and v: "orc_toFloat (sr_Value req) = (f, True)" "f64_le (pMaxValve p) f \<or> f64_le f (pMinValve p)"
    and tp: "RequireTwoPerson p" "sr_Source req \<in> {[], ''operator''}"
  shows "\<exists>req' cl. normalize_req quote p req = Inr (req', AFloat64 (fst (clampedValue p (sr_Command req) f)), cl)
    \<and> needs_two_person p req' (AFloat64 (fst (clampedValue p (sr_Command req) f))) \<and> sr_Device req' = sr_Device req"
proof -
  have "extreme p (fst (clampedValue p (sr_Command req) f))"
    using extreme_clamped [OF b wf v(2)] .
  then show ?thesis
    using cmd v(1) tp by (auto simp: normalize_req_def Let_def needs_two_person_def orc_toFloat_def split: prod.split)
qed

subsection \<open>Properties\<close>

text \<open>C3. Whatever intents are submitted, with whatever values, commands and sources, every
  command the orchestrator hands to its sink is a known actuator command whose value is a
  boolean for an outlet and, for the other channels, a number inside the policy's bounds or a
  NaN (which the comparisons of the clamp let through).\<close>

theorem orchestrator_envelope:
  assumes "policy_wf (o_policy (New p))"
  shows "list_all (call_ok (o_policy (New p))) (snd (snd (orc_run quote (Some (traced ap)) rqs (New p, (k, [])))))"
  using traced_run [of "(New p, (k, []))"] assms by simp

theorem orchestrator_envelope_witness:
  "list_all (call_ok DefaultPolicy) (snd (snd (orc_run id (Some (traced (SimSink_Apply 0)))
     [(1, \<lparr>sr_Device = ''d1'', sr_Command = OCmdValve, sr_Value = AFloat64 f64_inf, sr_Operator = ''op'', sr_Reason = [], sr_Source = []\<rparr>),
      (2, \<lparr>sr_Device = ''d1'', sr_Command = OCmdOutlet, sr_Value = AString ''on'', sr_Operator = ''op'', sr_Reason = [], sr_Source = []\<rparr>)]
     (New DefaultPolicy, (NewSimSink, [])))))"
  by (rule orchestrator_envelope [of DefaultPolicy, unfolded New_DefaultPolicy, OF DefaultPolicy_wf])

text \<open>C27. Every intent is audited exactly once: unless the sink panics, one \<open>Submit\<close> appends
  exactly one entry, with the next id, the intent's device, command and operator and its source
  (\<open>operator\<close> when it named none), marked accepted exactly when the caller is told so.\<close>

theorem submit_audited_once:
  assumes "orc_wf orc" and "snd (Submit quote ts snk req (orc, k)) \<noteq> Panic"
  shows "\<exists>e. o_audit (fst (fst (Submit quote ts snk req (orc, k)))) = lastn 1000 (o_audit orc @ [e])
      \<and> o_seq (fst (fst (Submit quote ts snk req (orc, k)))) = o_seq orc + 1
      \<and> oe_ID e = orc_label (o_seq orc + 1) \<and> oe_Device e = sr_Device req \<and> oe_Command e = sr_Command req
      \<and> oe_Operator e = sr_Operator req
      \<and> oe_Source e = (if sr_Source req = [] then ''operator'' else sr_Source req)
      \<and> oe_Accepted e = (case snd (Submit quote ts snk req (orc, k)) of Ret resp \<Rightarrow> sp_Accepted resp | _ \<Rightarrow> False)"
proof -
  obtain req' applied clamped accepted reason where
    eq: "fst (fst (Submit quote ts snk req (orc, k))) = orc_push (ts, req', applied, clamped, accepted, reason) orc"
    and r: "sr_Device req' = sr_Device req" "sr_Command req' = sr_Command req" "sr_Operator req' = sr_Operator req"
    "sr_Source req' = (if sr_Source req = [] then ''operator'' else sr_Source req)"
    "accepted = (case snd (Submit quote ts snk req (orc, k)) of Ret resp \<Rightarrow> sp_Accepted resp | _ \<Rightarrow> False)"
    using Submit_audits [OF assms(2)] by metis
  show ?thesis
    using assms(1) r
    by (intro exI [of _ "orc_entry_of orc (ts, req', applied, clamped, accepted, reason)"])
      (simp add: eq orc_push_def orc_record_audit orc_wf_def orc_entry_of_def)
qed

theorem submit_audited_once_witness:
  "\<exists>e. o_audit (fst (fst (Submit id 5 (Some (SimSink_Apply 0)) \<lparr>sr_Device = ''d1'', sr_Command = OCmdOutlet, sr_Value = ABool True,
       sr_Operator = ''op'', sr_Reason = [], sr_Source = []\<rparr> (New DefaultPolicy, NewSimSink)))) = [e]
     \<and> oe_Source e = ''operator'' \<and> oe_ID e = orc_label 1 \<and> oe_Accepted e"
proof -
  have "snd (Submit id 5 (Some (SimSink_Apply 0)) \<lparr>sr_Device = ''d1'', sr_Command = OCmdOutlet, sr_Value = ABool True,
       sr_Operator = ''op'', sr_Reason = [], sr_Source = []\<rparr> (New DefaultPolicy, NewSimSink)) =
    Ret \<lparr>sp_Accepted = True, sp_Clamped = False, sp_Reason = [], sp_State = Some ((sim_zero ''d1'')\<lparr>os_Outlet := True, os_UpdatedAt := 0\<rparr>)\<rparr>"
    by (simp add: Submit_def normalize_req_def orc_toBool_def needs_two_person_def SimSink_Apply_def NewSimSink_def Let_def)
  then show ?thesis
    using submit_audited_once [OF New_wf(1) [of DefaultPolicy], of id 5 "Some (SimSink_Apply 0)"
        "\<lparr>sr_Device = ''d1'', sr_Command = OCmdOutlet, sr_Value = ABool True, sr_Operator = ''op'', sr_Reason = [], sr_Source = []\<rparr>"
        NewSimSink]
    by (auto simp: New_def)
qed

text \<open>C9. The two-person rule: when the policy asks for it, an operator's intent (or one with no
  source) for a valve, or for a fan with the same bounds, at or beyond either end of the range
  is refused with the two-person reason; the sink is not touched and the refusal is audited.\<close>

theorem two_person_rule:
  assumes "orc_wf orc" and "policy_wf (o_policy orc)" and "RequireTwoPerson (o_policy orc)"
    and "f64_finite (pMinValve (o_policy orc))" and "f64_finite (pMaxValve (o_policy orc))"
    and "sr_Command req \<in> {OCmdValve, OCmdFan}" and "sr_Source req \<in> {[], ''operator''}"
    and "policy_bounds (o_policy orc) (sr_Command req) = Some (pMinValve (o_policy orc), pMaxValve (o_policy orc))"
    and "orc_toFloat (sr_Value req) = (f, True)"
    and "f64_le (pMaxValve (o_policy orc)) f \<or> f64_le f (pMinValve (o_policy orc))"
  shows "snd (Submit quote ts snk req (orc, k)) =
        Ret \<lparr>sp_Accepted = False, sp_Clamped = False, sp_Reason = two_person_msg, sp_State = None\<rparr>
      \<and> snd (fst (Submit quote ts snk req (orc, k))) = k
      \<and> (\<exists>e. o_audit (fst (fst (Submit quote ts snk req (orc, k)))) = lastn 1000 (o_audit orc @ [e])
           \<and> \<not> oe_Accepted e \<and> oe_Reason e = two_person_msg \<and> oe_Device e = sr_Device req)"
proof -
  obtain req' cl where n: "normalize_req quote (o_policy orc) req = Inr (req', AFloat64 (fst (clampedValue (o_policy orc) (sr_Command req) f)), cl)"
    "needs_two_person (o_policy orc) req' (AFloat64 (fst (clampedValue (o_policy orc) (sr_Command req) f)))"
    "sr_Device req' = sr_Device req"
    using normalize_req_extreme [OF assms(6,8,2,4,5,9,10,3,7)] by blast
  have "Submit quote ts snk req (orc, k) = ((orc_record ts req' (sr_Value req') False False two_person_msg orc, k),
      Ret \<lparr>sp_Accepted = False, sp_Clamped = False, sp_Reason = two_person_msg, sp_State = None\<rparr>)"
    by (simp add: Submit_def Let_def n reject_def)
  then show ?thesis
    using assms(1) n(3)
    by (auto simp: orc_record_audit orc_wf_def orc_entry_of_def
        intro!: exI [of _ "orc_entry_of orc (ts, req', sr_Value req', False, False, two_person_msg)"])
qed

theorem two_person_rule_witness:
  "snd (Submit id 5 (Some (SimSink_Apply 0)) \<lparr>sr_Device = ''d1'', sr_Command = OCmdFan, sr_Value = AFloat64 f64_inf,
       sr_Operator = ''op'', sr_Reason = [], sr_Source = []\<rparr> (New (DefaultPolicy\<lparr>RequireTwoPerson := True\<rparr>), NewSimSink)) =
   Ret \<lparr>sp_Accepted = False, sp_Clamped = False, sp_Reason = two_person_msg, sp_State = None\<rparr>"
proof -
  let ?p = "DefaultPolicy\<lparr>RequireTwoPerson := True\<rparr>"
  have p: "o_policy (New ?p) = ?p"
    by (simp add: New_def policy_zero_def)
  have wf: "policy_wf ?p" "pMinValve ?p = 0" "pMaxValve ?p = f64_100" "policy_bounds ?p OCmdFan = Some (0, f64_100)"
    using DefaultPolicy_wf by (simp_all add: policy_wf_def DefaultPolicy_def policy_bounds_def)
  have inf: "f64_le f64_100 f64_inf"
    by (simp add: f64_eval f64_100_def f64_inf_def)
  show ?thesis
    using two_person_rule [OF New_wf(1) [of ?p], of "\<lparr>sr_Device = ''d1'', sr_Command = OCmdFan, sr_Value = AFloat64 f64_inf,
       sr_Operator = ''op'', sr_Reason = [], sr_Source = []\<rparr>" f64_inf id 5 "Some (SimSink_Apply 0)" NewSimSink]
    by (simp add: p wf inf orc_toFloat_def)
qed

text \<open>C26. With the simulator sink no intent ever panics, and the audit agrees with the devices:
  after any sequence of intents, the last accepted entry the log retains for a device's channel
  carries the value that channel has.\<close>

theorem sim_audit_reflects:
  assumes "is_channel cmd"
    and "e \<in> set (last_accepted d cmd (o_audit (fst (submits quote SimSink_Apply rqs (New p, NewSimSink)))))"
  shows "(\<exists>st. SimSink_State d (snd (submits quote SimSink_Apply rqs (New p, NewSimSink))) = Some st
        \<and> os_Device st = d \<and> orc_channel cmd st = oe_Applied e)
      \<and> snd (Submit quote ts (Some (SimSink_Apply now)) req (submits quote SimSink_Apply rqs (New p, NewSimSink))) \<noteq> Panic"
proof -
  let ?s = "submits quote SimSink_Apply rqs (New p, NewSimSink)"
  have "sim_ok NewSimSink" "reflects (\<lambda>k. k) (New p, NewSimSink)"
    by (simp_all add: sim_ok_def NewSimSink_def reflects_def New_def last_accepted_def)
  then have inv: "sim_ok (snd ?s)" "reflects (\<lambda>k. k) ?s"
    using sim.submits_keep [of "(New p, NewSimSink)" quote rqs] by auto
  from inv(2) assms have "case snd ?s d of None \<Rightarrow> False | Some st \<Rightarrow> orc_channel cmd st = oe_Applied e"
    by (auto simp: reflects_def)
  then show ?thesis
    using inv(1) sim.submit_no_panic [OF inv(1), of quote ts now req "fst ?s"]
    by (auto simp: SimSink_State_def sim_ok_def split: option.splits)
qed

theorem sim_audit_reflects_witness:
  "\<exists>st. SimSink_State ''d1'' (snd (submits id SimSink_Apply [(1, 2, \<lparr>sr_Device = ''d1'', sr_Command = OCmdOutlet, sr_Value = ABool True,
       sr_Operator = ''op'', sr_Reason = [], sr_Source = []\<rparr>)] (New DefaultPolicy, NewSimSink))) = Some st
     \<and> orc_channel OCmdOutlet st = ABool True"
proof -
  let ?rqs = "[(1, 2, \<lparr>sr_Device = ''d1'', sr_Command = OCmdOutlet, sr_Value = ABool True,
       sr_Operator = ''op'', sr_Reason = [], sr_Source = []\<rparr>)]"
  have "last_accepted ''d1'' OCmdOutlet (o_audit (fst (submits id SimSink_Apply ?rqs (New DefaultPolicy, NewSimSink))))
      = [orc_entry_of (New DefaultPolicy) (2, \<lparr>sr_Device = ''d1'', sr_Command = OCmdOutlet, sr_Value = ABool True,
       sr_Operator = ''op'', sr_Reason = [], sr_Source = ''operator''\<rparr>, ABool True, False, True, [])]"
    by (simp add: submits_def Submit_def normalize_req_def orc_toBool_def needs_two_person_def SimSink_Apply_def NewSimSink_def
        Let_def orc_record_audit last_accepted_def New_def orc_entry_of_def lastn_def)
  then have "\<exists>e. e \<in> set (last_accepted ''d1'' OCmdOutlet (o_audit (fst (submits id SimSink_Apply ?rqs (New DefaultPolicy, NewSimSink)))))
      \<and> oe_Applied e = ABool True"
    by (simp add: orc_entry_of_def)
  then obtain e where e: "e \<in> set (last_accepted ''d1'' OCmdOutlet (o_audit (fst (submits id SimSink_Apply ?rqs (New DefaultPolicy, NewSimSink)))))"
      "oe_Applied e = ABool True" by blast
  have "is_channel OCmdOutlet" by (simp add: is_channel_def)
  from conjunct1 [OF sim_audit_reflects [OF this e(1)]] e(2) show ?thesis
    by auto
qed

text \<open>The orchestrator's audit never holds more than 1000 entries, and their ids are the
  consecutive sequence numbers ending at its counter, whatever the sink does.\<close>

lemma orchestrator_audit_bounded:
  "length (o_audit (fst (orc_run quote snk rqs (New p, k)))) \<le> 1000
   \<and> map oe_ID (o_audit (fst (orc_run quote snk rqs (New p, k))))
     = map (\<lambda>i. orc_label (o_seq (fst (orc_run quote snk rqs (New p, k))) - of_nat i))
         (rev [0..<length (o_audit (fst (orc_run quote snk rqs (New p, k))))])
   \<and> distinct (map oe_ID (o_audit (fst (orc_run quote snk rqs (New p, k)))))"
  using orc_run_log [of "(New p, k)" quote snk rqs] orc_log.ids_distinct New_wf
  by (auto simp: orc_wf_def orc_log.ids_contiguous_def)

text \<open>Without a sink the orchestrator is policy-only: no intent is accepted and each refusal
  gives a reason; an intent the policy lets through is refused for the missing sink.\<close>

lemma policy_only_rejects:
  "\<exists>reason. snd (Submit quote ts None req (orc, k)) =
       Ret \<lparr>sp_Accepted = False, sp_Clamped = False, sp_Reason = reason, sp_State = None\<rparr>
     \<and> snd (fst (Submit quote ts None req (orc, k))) = k \<and> o_seq (fst (fst (Submit quote ts None req (orc, k)))) = o_seq orc + 1
     \<and> (case normalize_req quote (o_policy orc) req of Inl (_, why) \<Rightarrow> reason = why
        | Inr (req', applied, _) \<Rightarrow> reason = (if needs_two_person (o_policy orc) req' applied then two_person_msg else no_sink_msg))"
  by (auto simp: Submit_def Let_def reject_def split: sum.split prod.split)

subsection \<open>Where the policy falls short of its comments\<close>

text \<open>
  The string \<open>nan\<close> parses, passes the clamp unclamped, is no extreme for the two-person rule,
  and reaches the device (the control store's clamp sends a NaN to the lower bound).
\<close>

lemma nan_escapes_policy:
  "\<exists>st. snd (Submit quote ts (Some (SimSink_Apply now)) \<lparr>sr_Device = ''d1'', sr_Command = OCmdValve, sr_Value = AString ''nan'',
       sr_Operator = ''op'', sr_Reason = [], sr_Source = ''operator''\<rparr> (New (DefaultPolicy\<lparr>RequireTwoPerson := True\<rparr>), NewSimSink))
     = Ret \<lparr>sp_Accepted = True, sp_Clamped = False, sp_Reason = [], sp_State = Some st\<rparr> \<and> f64_is_nan (os_Valve st)"
proof -
  have p: "o_policy (New (DefaultPolicy\<lparr>RequireTwoPerson := True\<rparr>)) = DefaultPolicy\<lparr>RequireTwoPerson := True\<rparr>"
    by (simp add: New_def policy_zero_def)
  have c: "clampedValue (DefaultPolicy\<lparr>RequireTwoPerson := True\<rparr>) OCmdValve f64_nan = (f64_nan, False)"
    by (simp add: clampedValue_def f64_lt_def split: option.split)
  have e: "\<not> extreme q f64_nan" for q
    by (simp add: extreme_def f64_le_def)
  show ?thesis
    by (simp add: Submit_def Let_def p normalize_req_def orc_toFloat_def sscanf_nan c needs_two_person_def e
        SimSink_Apply_def NewSimSink_def toF_def)
qed

text \<open>An intent that names any other source is exempt from the two-person rule.\<close>

lemma two_person_source_bypass:
  assumes "sr_Source req \<notin> {[], ''operator''}" "normalize_req quote p req = Inr (req', applied, cl)"
  shows "\<not> needs_two_person p req' applied"
  using normalize_req_Inr [OF assms(2)] assms(1) by (auto simp: needs_two_person_def)

text \<open>The audit's requested value of a clamped intent is the clamped one, not what was asked for.\<close>

lemma requested_is_applied:
  assumes "calls quote snk req orc k req' applied clamped k' (Ret st)"
  shows "oe_Requested (orc_entry_of orc (ts, req', applied, clamped, True, [])) = applied"
  using calls_typed [OF assms] by (simp add: orc_entry_of_def)

text \<open>A string that is no boolean is taken as off, never refused.\<close>

lemma outlet_any_string:
  "sr_Command req = OCmdOutlet \<Longrightarrow> sr_Value req = AString t \<Longrightarrow> t \<notin> {''true'', ''1'', ''on''} \<Longrightarrow>
   \<exists>req'. normalize_req quote p req = Inr (req', ABool False, False)"
  by (simp add: normalize_req_def Let_def orc_toBool_def)

end
