(* ===== verification/Orchestrator_Server.thy ===== *)
theory Orchestrator_Server
  imports Orchestrator
begin

text \<open>
  api/internal/orchestration/server.go: the HTTP API of the orchestrator, and the concurrent
  view of \<open>Submit\<close>: net/http runs one goroutine per request, the sink and the orchestrator
  have a mutex each, and \<open>Submit\<close> holds neither between the delivery of a command and its
  record in the audit. The step relation \<open>conc_step\<close> has one rule per critical section.
\<close>

record orc_env =
  ov_now :: go_time
  ov_ts :: go_time
  ov_quote :: "string \<Rightarrow> string"

record orc_server =
  os_authToken :: string
  os_cors :: string

datatype orc_payload =
    OStatus string
  | OResponse submit_response
  | OPolicy policy
  | OEntries "orc_entry list"

type_synonym 'k orc_handler = "(orchestrator \<times> 'k, orc_payload) handler"

definition orc_handleHealth :: "'k orc_handler" where
  "orc_handleHealth rq s = (s, write_json 200 (OStatus ''ok''))"

definition submit_body_ok :: "json option \<Rightarrow> bool" where
  "submit_body_ok body \<longleftrightarrow> strings_decode [''device'', ''command'', ''operator'', ''reason'', ''source''] body
     \<and> snd (get_field set_any ANil ''value'' body)
     \<and> get_string ''device'' body \<noteq> [] \<and> get_string ''command'' body \<noteq> []"

definition submit_of_body :: "json option \<Rightarrow> submit_request" where
  "submit_of_body body = \<lparr>sr_Device = get_string ''device'' body, sr_Command = get_string ''command'' body,
     sr_Value = fst (get_field set_any ANil ''value'' body), sr_Operator = get_string ''operator'' body,
     sr_Reason = get_string ''reason'' body, sr_Source = get_string ''source'' body\<rparr>"

text \<open>A panic in a handler makes net/http drop the connection: no status is sent.\<close>

definition aborted :: "'p response" where
  "aborted = \<lparr>rs_status = 0, rs_headers = [], rs_body = NoBody\<rparr>"

definition handleSubmit :: "orc_env \<Rightarrow> 'k sink option \<Rightarrow> 'k orc_handler" where
  "handleSubmit ev snk rq s =
     (if rq_method rq \<noteq> ''POST'' then (s, http_error ''method not allowed'' 405)
      else if \<not> submit_body_ok (rq_body rq) then (s, http_error ''device and command are required'' 400)
      else case Submit (ov_quote ev) (ov_ts ev) snk (submit_of_body (rq_body rq)) s of
          (s', Ret resp) \<Rightarrow> (s', write_json 200 (OResponse resp))
        | (s', Err e) \<Rightarrow> (s', http_error e 502)
        | (s', Panic) \<Rightarrow> (s', aborted))"

definition handlePolicy :: "'k orc_handler" where
  "handlePolicy rq s = (s, write_json 200 (OPolicy (orc_Policy (fst s))))"

definition orc_audit_limit :: "string \<Rightarrow> int" where
  "orc_audit_limit l =
     (if l = [] then 50
      else case parse_int64 l of None \<Rightarrow> 50 | Some n \<Rightarrow> if 0 < n then n else 50)"

definition orc_handleAudit :: "'k orc_handler" where
  "orc_handleAudit rq s = (s, write_json 200 (OEntries (orc_Audit (orc_audit_limit (rq_query rq ''limit'')) (fst s))))"

definition orc_mux :: "orc_env \<Rightarrow> 'k sink option \<Rightarrow> 'k orc_handler" where
  "orc_mux ev snk = serve_mux
     [(''/health'', orc_handleHealth),
      (''/orc/submit'', handleSubmit ev snk),
      (''/orc/policy'', handlePolicy),
      (''/orc/audit'', orc_handleAudit)]"

definition orc_auth :: "orc_server \<Rightarrow> 'k orc_handler \<Rightarrow> 'k orc_handler" where
  "orc_auth srv nxt = auth_check (os_authToken srv) nxt"

definition orc_corsMiddleware :: "orc_server \<Rightarrow> 'k orc_handler \<Rightarrow> 'k orc_handler" where
  "orc_corsMiddleware srv nxt = cors_wrap (os_cors srv) ''GET, POST, OPTIONS'' nxt"

definition orc_NewServer :: "orc_server \<Rightarrow> orc_env \<Rightarrow> 'k sink option \<Rightarrow> 'k orc_handler" where
  "orc_NewServer srv ev snk = orc_corsMiddleware srv (orc_auth srv (orc_mux ev snk))"

interpretation orc_http: guarded_service "orc_NewServer srv ev snk" "orc_mux ev snk" "os_authToken srv" "os_cors srv"
  "''GET, POST, OPTIONS''" for srv ev snk
  by unfold_locales
    (simp_all add: orc_NewServer_def orc_corsMiddleware_def orc_auth_def orc_mux_def orc_handleHealth_def)

subsection \<open>Concurrent intents\<close>

datatype orc_thread =
    TPending submit_request
  | TDelivered submit_request any bool "string option"
  | TFinished bool

record 'k conc =
  c_orc :: orchestrator
  c_sink :: 'k
  c_threads :: "orc_thread list"

inductive conc_step :: "(string \<Rightarrow> string) \<Rightarrow> 'k sink \<Rightarrow> 'k conc \<Rightarrow> 'k conc \<Rightarrow> bool"
  for quote :: "string \<Rightarrow> string" and ap :: "'k sink" where
  refuse: "i < length (c_threads c) \<Longrightarrow> c_threads c ! i = TPending req \<Longrightarrow>
     normalize_req quote (o_policy (c_orc c)) req = Inl (req', reason) \<Longrightarrow>
     conc_step quote ap c (c\<lparr>c_orc := fst (reject ts req' reason (c_orc c)), c_threads := (c_threads c)[i := TFinished False]\<rparr>)"
| two_person: "i < length (c_threads c) \<Longrightarrow> c_threads c ! i = TPending req \<Longrightarrow>
     normalize_req quote (o_policy (c_orc c)) req = Inr (req', applied, clamped) \<Longrightarrow>
     needs_two_person (o_policy (c_orc c)) req' applied \<Longrightarrow>
     conc_step quote ap c (c\<lparr>c_orc := fst (reject ts req' two_person_msg (c_orc c)), c_threads := (c_threads c)[i := TFinished False]\<rparr>)"
| deliver: "i < length (c_threads c) \<Longrightarrow> c_threads c ! i = TPending req \<Longrightarrow>
     calls quote (Some ap) req (c_orc c) (c_sink c) req' applied clamped k' (Ret st) \<Longrightarrow>
     conc_step quote ap c (c\<lparr>c_sink := k', c_threads := (c_threads c)[i := TDelivered req' applied clamped None]\<rparr>)"
| refused: "i < length (c_threads c) \<Longrightarrow> c_threads c ! i = TPending req \<Longrightarrow>
     calls quote (Some ap) req (c_orc c) (c_sink c) req' applied clamped k' (Err e) \<Longrightarrow>
     conc_step quote ap c (c\<lparr>c_sink := k', c_threads := (c_threads c)[i := TDelivered req' applied False (Some e)]\<rparr>)"
| log_it: "i < length (c_threads c) \<Longrightarrow> c_threads c ! i = TDelivered req' applied clamped err \<Longrightarrow>
     conc_step quote ap c (c\<lparr>c_orc := orc_record ts req' applied clamped (err = None) (case err of None \<Rightarrow> [] | Some e \<Rightarrow> e) (c_orc c),
       c_threads := (c_threads c)[i := TFinished (err = None)]\<rparr>)"

definition conc_start :: "policy \<Rightarrow> 'k \<Rightarrow> submit_request list \<Rightarrow> 'k conc" where
  "conc_start p k reqs = \<lparr>c_orc = New p, c_sink = k, c_threads = map TPending reqs\<rparr>"

abbreviation conc_reach :: "(string \<Rightarrow> string) \<Rightarrow> 'k sink \<Rightarrow> 'k conc \<Rightarrow> 'k conc \<Rightarrow> bool" where
  "conc_reach quote ap \<equiv> (conc_step quote ap)\<^sup>*\<^sup>*"

fun is_finished :: "orc_thread \<Rightarrow> bool" where
  "is_finished (TFinished b) \<longleftrightarrow> True"
| "is_finished _ \<longleftrightarrow> False"

fun is_delivered :: "orc_thread \<Rightarrow> bool" where
  "is_delivered (TDelivered req ap cl e) \<longleftrightarrow> True"
| "is_delivered _ \<longleftrightarrow> False"

lemma length_filter_update:
  "i < length xs \<Longrightarrow> length (filter P (xs[i := x])) + (if P (xs ! i) then 1 else 0) = length (filter P xs) + (if P x then 1 else 0)"
proof (induction xs arbitrary: i)
  case (Cons y ys)
  show ?case
  proof (cases i)
    case (Suc j)
    then show ?thesis
      using Cons.IH [of j] Cons.prems by simp
  qed simp
qed simp

definition conc_inv :: "policy \<Rightarrow> ('k \<times> call list) conc \<Rightarrow> bool" where
  "conc_inv p c \<longleftrightarrow> o_policy (c_orc c) = p \<and> orc_wf (c_orc c)
     \<and> o_seq (c_orc c) = of_nat (length (filter is_finished (c_threads c)))
     \<and> list_all (call_ok p) (snd (c_sink c))
     \<and> length (filter is_delivered (c_threads c)) \<le> length (snd (c_sink c))
     \<and> length (snd (c_sink c)) \<le> length (filter is_delivered (c_threads c)) + length (filter is_finished (c_threads c))"

lemma reject_frame [simp]:
  "o_policy (fst (reject ts req r orc)) = o_policy orc" "o_seq (fst (reject ts req r orc)) = o_seq orc + 1"
  by (simp_all add: reject_def)

lemma orc_wf_record: "orc_wf orc \<Longrightarrow> orc_wf (orc_record ts req ap cl acc r orc)"
  using orc_log.wf_push [of orc "(ts, req, ap, cl, acc, r)"] by (simp add: orc_push_def)

lemma orc_wf_reject: "orc_wf orc \<Longrightarrow> orc_wf (fst (reject ts req r orc))"
  by (simp add: reject_def orc_wf_record)

lemma traced_call:
  assumes "policy_wf (o_policy orc)" "calls quote (Some (traced ap)) req orc k req' applied clamped k' r"
  shows "snd k' = snd k @ [(sr_Device req', sr_Command req', sr_Value req')]
    \<and> call_ok (o_policy orc) (sr_Device req', sr_Command req', sr_Value req')"
  using assms normalize_req_value_ok [OF assms(1), of quote req req' applied clamped]
  by (auto simp: calls_def traced_def call_ok_def split: prod.splits)

lemma conc_inv_step:
  assumes "policy_wf p" "conc_step quote (traced ap) c c'" "conc_inv p c"
  shows "conc_inv p c'"
  using assms(2,1,3)
proof cases
  case (refuse i req req' reason ts)
  then show ?thesis
    using assms(3) length_filter_update [of i "c_threads c" is_finished "TFinished False"]
      length_filter_update [of i "c_threads c" is_delivered "TFinished False"]
    by (simp add: conc_inv_def orc_wf_reject)
next
  case (two_person i req req' applied clamped ts)
  then show ?thesis
    using assms(3) length_filter_update [of i "c_threads c" is_finished "TFinished False"]
      length_filter_update [of i "c_threads c" is_delivered "TFinished False"]
    by (simp add: conc_inv_def orc_wf_reject)
next
  case (deliver i req req' applied clamped k' st)
  then show ?thesis
    using assms(1,3) length_filter_update [of i "c_threads c" is_finished "TDelivered req' applied clamped None"]
      length_filter_update [of i "c_threads c" is_delivered "TDelivered req' applied clamped None"]
      traced_call [OF _ deliver(4)]
    by (simp add: conc_inv_def)
next
  case (refused i req req' applied clamped k' e)
  then show ?thesis
    using assms(1,3) length_filter_update [of i "c_threads c" is_finished "TDelivered req' applied False (Some e)"]
      length_filter_update [of i "c_threads c" is_delivered "TDelivered req' applied False (Some e)"]
      traced_call [OF _ refused(4)]
    by (simp add: conc_inv_def)
next
  case (log_it i req' applied clamped err ts)
  then show ?thesis
    using assms(3) length_filter_update [of i "c_threads c" is_finished "TFinished (err = None)"]
      length_filter_update [of i "c_threads c" is_delivered "TFinished (err = None)"]
    by (simp add: conc_inv_def orc_wf_record)
qed

lemma conc_inv_start: "conc_inv (o_policy (New p)) (conc_start p (k, []) reqs)"
proof -
  have "filter is_finished (map TPending reqs) = []" "filter is_delivered (map TPending reqs) = []"
    by (auto simp: filter_empty_conv)
  then show ?thesis
    by (simp add: conc_inv_def conc_start_def New_wf) (simp add: New_def)
qed

lemma conc_inv_reach:
  "conc_reach quote (traced ap) c c' \<Longrightarrow> policy_wf p \<Longrightarrow> conc_inv p c \<Longrightarrow> conc_inv p c'"
  by (induction rule: rtranclp_induct) (auto intro: conc_inv_step)

lemma lost_update_delivers:
  "calls quote (Some ap) req orc k req' applied clamped k' (Ret st) \<Longrightarrow> i < length ts \<Longrightarrow> ts ! i = TPending req \<Longrightarrow>
   conc_step quote ap \<lparr>c_orc = orc, c_sink = k, c_threads = ts\<rparr>
     \<lparr>c_orc = orc, c_sink = k', c_threads = ts[i := TDelivered req' applied clamped None]\<rparr>"
  using deliver [of i "\<lparr>c_orc = orc, c_sink = k, c_threads = ts\<rparr>" req quote ap req' applied clamped k' st] by simp

lemma lost_update_logs:
  "i < length thr \<Longrightarrow> thr ! i = TDelivered req' applied clamped None \<Longrightarrow>
   conc_step quote ap \<lparr>c_orc = orc, c_sink = k, c_threads = thr\<rparr>
     \<lparr>c_orc = orc_record ts req' applied clamped True [] orc, c_sink = k, c_threads = thr[i := TFinished True]\<rparr>"
  using log_it [of i "\<lparr>c_orc = orc, c_sink = k, c_threads = thr\<rparr>" req' applied clamped None quote ap ts] by simp

definition outlet_req :: "bool \<Rightarrow> submit_request" where
  "outlet_req b = \<lparr>sr_Device = ''d1'', sr_Command = OCmdOutlet, sr_Value = ABool b, sr_Operator = ''op'', sr_Reason = [],
     sr_Source = ''operator''\<rparr>"

lemma outlet_calls:
  "calls quote (Some (SimSink_Apply 0)) (outlet_req b) orc k (outlet_req b) (ABool b) False
     (fst (SimSink_Apply 0 ''d1'' OCmdOutlet (ABool b) k)) (snd (SimSink_Apply 0 ''d1'' OCmdOutlet (ABool b) k))"
  by (simp add: calls_def outlet_req_def normalize_req_def orc_toBool_def needs_two_person_def)

subsection \<open>Properties\<close>

text \<open>C29. Without the bearer token no request reaches the orchestrator or its sink; an authorized
  submit of a well-formed body is answered 200 whether the policy accepts or refuses the intent,
  and 502 with the sink's error when delivery fails; any other submit changes nothing.\<close>

theorem orchestrator_api_guarded:
  "(if authorized (os_authToken srv) rq then True
      else fst (orc_NewServer srv ev snk rq s) = s
        \<and> (if rq_path rq = ''/health'' then True
           else rs_body (snd (orc_NewServer srv ev snk rq s)) \<in> {NoBody, TextBody (''unauthorized'' @ [CHR 0x0A])}))
   \<and> rs_status (snd (handleSubmit ev snk rq s)) =
      (if rq_method rq \<noteq> ''POST'' then 405 else if \<not> submit_body_ok (rq_body rq) then 400
       else (case snd (Submit (ov_quote ev) (ov_ts ev) snk (submit_of_body (rq_body rq)) s) of
          Ret resp \<Rightarrow> 200 | Err e \<Rightarrow> 502 | Panic \<Rightarrow> 0))
   \<and> fst (handleSubmit ev snk rq s) =
      (if rq_method rq = ''POST'' \<and> submit_body_ok (rq_body rq)
       then fst (Submit (ov_quote ev) (ov_ts ev) snk (submit_of_body (rq_body rq)) s) else s)"
proof -
  have "fst (orc_NewServer srv ev snk rq s) = s" if "\<not> authorized (os_authToken srv) rq"
    using that by (rule orc_http.unauthorized_no_effect)
  moreover have "rs_body (snd (orc_NewServer srv ev snk rq s)) \<in> {NoBody, TextBody (''unauthorized'' @ [CHR 0x0A])}"
    if "\<not> authorized (os_authToken srv) rq" "rq_path rq \<noteq> ''/health''"
    using that by (rule orc_http.unauthorized_body)
  moreover have "snd (handleSubmit ev snk rq s) = (if rq_method rq \<noteq> ''POST'' then http_error ''method not allowed'' 405
      else if \<not> submit_body_ok (rq_body rq) then http_error ''device and command are required'' 400
      else (case snd (Submit (ov_quote ev) (ov_ts ev) snk (submit_of_body (rq_body rq)) s) of
          Ret resp \<Rightarrow> write_json 200 (OResponse resp) | Err e \<Rightarrow> http_error e 502 | Panic \<Rightarrow> aborted))"
    by (simp add: handleSubmit_def split: prod.split go_result.split)
  moreover have "fst (handleSubmit ev snk rq s) =
      (if rq_method rq = ''POST'' \<and> submit_body_ok (rq_body rq)
       then fst (Submit (ov_quote ev) (ov_ts ev) snk (submit_of_body (rq_body rq)) s) else s)"
    by (simp add: handleSubmit_def split: prod.split go_result.split)
  ultimately show ?thesis
    by (simp add: aborted_def split: go_result.split)
qed



text \<open>The order of the audit is not the order of the deliveries: two submits to one outlet can
  interleave so that the last accepted entry of the audit says the outlet is on while the device
  has been switched off. (Submitted one after the other, the audit agrees with the device.)\<close>

lemma audit_order_not_delivery_order:
  "\<exists>c st e. conc_reach quote (SimSink_Apply 0) (conc_start DefaultPolicy NewSimSink [outlet_req True, outlet_req False]) c
     \<and> c_threads c = [TFinished True, TFinished True]
     \<and> c_sink c ''d1'' = Some st \<and> \<not> os_Outlet st
     \<and> last_accepted ''d1'' OCmdOutlet (o_audit (c_orc c)) = [e] \<and> oe_Applied e = ABool True"
proof -
  let ?ap = "SimSink_Apply 0" and ?o = "New DefaultPolicy"
  let ?k1 = "fst (?ap ''d1'' OCmdOutlet (ABool True) NewSimSink)"
  let ?k2 = "fst (?ap ''d1'' OCmdOutlet (ABool False) ?k1)"
  let ?o1 = "orc_record 1 (outlet_req False) (ABool False) False True [] ?o"
  let ?o2 = "orc_record 2 (outlet_req True) (ABool True) False True [] ?o1"
  have ret: "\<exists>st. snd (?ap ''d1'' OCmdOutlet (ABool b) k) = Ret st" for b k
    by (simp add: SimSink_Apply_def Let_def)
  obtain st1 where c1: "calls quote (Some ?ap) (outlet_req True) ?o NewSimSink (outlet_req True) (ABool True) False ?k1 (Ret st1)"
    using outlet_calls [of quote True ?o NewSimSink] ret by metis
  obtain st2 where c2: "calls quote (Some ?ap) (outlet_req False) ?o ?k1 (outlet_req False) (ABool False) False ?k2 (Ret st2)"
    using outlet_calls [of quote False ?o ?k1] ret by metis
  have "conc_reach quote ?ap (conc_start DefaultPolicy NewSimSink [outlet_req True, outlet_req False])
      \<lparr>c_orc = ?o2, c_sink = ?k2, c_threads = [TFinished True, TFinished True]\<rparr>"
  proof -
    let ?d1 = "TDelivered (outlet_req True) (ABool True) False None" and ?d2 = "TDelivered (outlet_req False) (ABool False) False None"
    have "conc_step quote ?ap (conc_start DefaultPolicy NewSimSink [outlet_req True, outlet_req False])
        \<lparr>c_orc = ?o, c_sink = ?k1, c_threads = [?d1, TPending (outlet_req False)]\<rparr>"
      using lost_update_delivers [OF c1, of 0 "[TPending (outlet_req True), TPending (outlet_req False)]"]
      by (simp add: conc_start_def)
    moreover have "conc_step quote ?ap \<lparr>c_orc = ?o, c_sink = ?k1, c_threads = [?d1, TPending (outlet_req False)]\<rparr>
        \<lparr>c_orc = ?o, c_sink = ?k2, c_threads = [?d1, ?d2]\<rparr>"
      using lost_update_delivers [OF c2, of 1 "[?d1, TPending (outlet_req False)]"] by simp
    moreover have "conc_step quote ?ap \<lparr>c_orc = ?o, c_sink = ?k2, c_threads = [?d1, ?d2]\<rparr>
        \<lparr>c_orc = ?o1, c_sink = ?k2, c_threads = [?d1, TFinished True]\<rparr>"
      using lost_update_logs [of 1 "[?d1, ?d2]" "outlet_req False" "ABool False" False] by simp
    moreover have "conc_step quote ?ap \<lparr>c_orc = ?o1, c_sink = ?k2, c_threads = [?d1, TFinished True]\<rparr>
        \<lparr>c_orc = ?o2, c_sink = ?k2, c_threads = [TFinished True, TFinished True]\<rparr>"
      using lost_update_logs [of 0 "[?d1, TFinished True]" "outlet_req True" "ABool True" False] by simp
    ultimately show ?thesis
      by (meson r_into_rtranclp rtranclp.rtrancl_into_rtrancl)
  qed
  moreover have "\<exists>st. ?k2 ''d1'' = Some st \<and> \<not> os_Outlet st"
    by (simp add: SimSink_Apply_def Let_def)
  moreover have "\<exists>e. last_accepted ''d1'' OCmdOutlet (o_audit ?o2) = [e] \<and> oe_Applied e = ABool True"
    by (simp add: orc_record_audit last_accepted_def lastn_def New_def outlet_req_def orc_entry_of_def)
  ultimately show ?thesis
    by (metis conc.select_convs)
qed

end
