(* ===== verification/Hardware.thy ===== *)
theory Hardware
  imports Go_Http Bounded_Log
begin

text \<open>
  api/internal/hardware: the audit log (audit.go), grid-stress throttling (gridstress.go), the
  Redfish and IPMI clients (redfish.go, ipmi.go) and the management API (server.go). What lies
  outside the program is the argument \<open>net\<close>: whether a URL parses, what the BMC answers to an
  HTTP request, what running ipmitool gives. Each request and each tool run is appended to a
  trace in the state, so that theorems can say what was sent.
\<close>

subsection \<open>audit.go\<close>

datatype detail = DNone | DVia string | DCap f64

record hw_entry =
  he_ID :: string
  he_TS :: go_time
  he_Domain :: string
  he_Server :: string
  he_Action :: string
  he_Detail :: detail
  he_Operator :: string
  he_Note :: string

record audit_log =
  al_entries :: "hw_entry list"
  al_cap :: nat
  al_seq :: "64 word"

definition NewAuditLog :: audit_log where
  "NewAuditLog = \<lparr>al_entries = [], al_cap = 1000, al_seq = 0\<rparr>"

definition hw_label :: "64 word \<Rightarrow> string" where
  "hw_label n = ''aud-'' @ show_nat (unat n)"

definition Record_entry :: "hw_entry \<Rightarrow> audit_log \<Rightarrow> audit_log" where
  "Record_entry e a =
     (let q = al_seq a + 1; es = al_entries a @ [e\<lparr>he_ID := hw_label q\<rparr>]
      in a\<lparr>al_seq := q, al_entries := (if al_cap a < length es then drop (length es - al_cap a) es else es)\<rparr>)"

definition Recent :: "int \<Rightarrow> audit_log \<Rightarrow> hw_entry list" where
  "Recent limit a =
     (let es = al_entries a; n = (if limit \<le> 0 \<or> int (length es) < limit then length es else nat limit)
      in map (\<lambda>i. es ! i) (rev [length es - n..<length es]))"

lemma Recent_lastn:
  "Recent limit a = rev (lastn (if limit \<le> 0 then length (al_entries a) else nat limit) (al_entries a))"
proof -
  have "Recent limit a = rev (window limit (al_entries a))"
    by (simp add: Recent_def window_def Let_def rev_map)
  then show ?thesis
    by (simp add: window_lastn)
qed

definition audit_log_wf :: "audit_log \<Rightarrow> bool" where
  "audit_log_wf a \<longleftrightarrow> al_cap a = 1000 \<and> length (al_entries a) \<le> 1000"

lemma inj_hw_label: "inj hw_label"
proof (rule injI)
  fix a b :: "64 word"
  assume "hw_label a = hw_label b"
  then have "show_nat (unat a) = show_nat (unat b)"
    by (simp add: hw_label_def)
  then show "a = b"
    by (intro unsigned_word_eqI) (rule injD [OF inj_show_nat])
qed

lemma Record_entry_entries:
  "al_entries (Record_entry e a) = lastn (al_cap a) (al_entries a @ [e\<lparr>he_ID := hw_label (al_seq a + 1)\<rparr>])"
  by (auto simp: Record_entry_def Let_def lastn_def)

lemma Record_entry_frame [simp]:
  "al_cap (Record_entry e a) = al_cap a" "al_seq (Record_entry e a) = al_seq a + 1"
  by (simp_all add: Record_entry_def Let_def)

interpretation hw_log: sequenced_log Record_entry al_entries al_cap "\<lambda>a e. e\<lparr>he_ID := hw_label (al_seq a + 1)\<rparr>"
  audit_log_wf al_seq he_ID hw_label
  by unfold_locales (auto simp: Record_entry_entries audit_log_wf_def inj_hw_label)

lemma NewAuditLog_wf: "audit_log_wf NewAuditLog" "hw_log.ids_contiguous NewAuditLog"
  by (simp_all add: audit_log_wf_def NewAuditLog_def hw_log.ids_contiguous_def)

subsection \<open>gridstress.go\<close>

type_synonym stress_level = string

abbreviation StressNone :: stress_level where "StressNone \<equiv> ''none''"
abbreviation StressMild :: stress_level where "StressMild \<equiv> ''mild''"
abbreviation StressHigh :: stress_level where "StressHigh \<equiv> ''high''"
abbreviation StressCritical :: stress_level where "StressCritical \<equiv> ''critical''"

record grid_signal =
  gs_Level :: stress_level
  gs_Score :: f64
  gs_Source :: string
  gs_ObservedAt :: go_time
  gs_Note :: string

definition StaticCurrent :: "grid_signal \<Rightarrow> string + grid_signal" where
  "StaticCurrent sig = Inr sig"

record throttle_policy =
  MaxPowerCapW :: f64
  MildCapW :: f64
  CriticalShutdown :: "string list"

text \<open>The constants 0.70 and 0.90.\<close>

definition f64_070 :: f64 where "f64_070 = 0x3FE6666666666666"
definition f64_090 :: f64 where "f64_090 = 0x3FECCCCCCCCCCCCD"

definition DefaultThrottlePolicy :: "f64 \<Rightarrow> string list \<Rightarrow> throttle_policy" where
  "DefaultThrottlePolicy nameplateW critical =
     \<lparr>MaxPowerCapW = f64_mul nameplateW f64_070, MildCapW = f64_mul nameplateW f64_090, CriticalShutdown = critical\<rparr>"

record throttle_action =
  ta_ServerID :: string
  ta_Level :: stress_level
  ta_CapW :: f64
  ta_Shutdown :: bool

definition Resolve :: "throttle_policy \<Rightarrow> string \<Rightarrow> grid_signal \<Rightarrow> throttle_action" where
  "Resolve p serverID sig =
     (let act = \<lparr>ta_ServerID = serverID, ta_Level = gs_Level sig, ta_CapW = 0, ta_Shutdown = False\<rparr>
      in if gs_Level sig = StressMild then act\<lparr>ta_CapW := MildCapW p\<rparr>
         else if gs_Level sig = StressHigh then act\<lparr>ta_CapW := MaxPowerCapW p\<rparr>
         else if gs_Level sig = StressCritical then
           (let act1 = (if list_ex (\<lambda>s. s = serverID) (CriticalShutdown p) then act\<lparr>ta_Shutdown := True\<rparr> else act)
            in if \<not> ta_Shutdown act1 then act1\<lparr>ta_CapW := MaxPowerCapW p\<rparr> else act1)
         else act\<lparr>ta_CapW := 0\<rparr>)"

text \<open>The monitor's state is the latest signal; its source is a function.\<close>

definition stub_signal :: "go_time \<Rightarrow> grid_signal" where
  "stub_signal now = \<lparr>gs_Level = StressNone, gs_Score = 0, gs_Source = ''stub'', gs_ObservedAt = now, gs_Note = []\<rparr>"

definition NewGridStressMonitor :: "go_time \<Rightarrow> grid_signal" where
  "NewGridStressMonitor now = stub_signal now"

definition PollOnce :: "string + grid_signal \<Rightarrow> grid_signal \<Rightarrow> grid_signal \<times> string option" where
  "PollOnce outcome latest = (case outcome of Inl err \<Rightarrow> (latest, Some err) | Inr sig \<Rightarrow> (sig, None))"

definition Run_monitor :: "(string + grid_signal) list \<Rightarrow> grid_signal \<Rightarrow> grid_signal" where
  "Run_monitor ticks latest = fold (\<lambda>o1 l. fst (PollOnce o1 l)) ticks latest"

subsection \<open>redfish.go\<close>

type_synonym oem = string

abbreviation OEMGeneric :: oem where "OEMGeneric \<equiv> ''generic''"
abbreviation OEMDell :: oem where "OEMDell \<equiv> ''dell''"
abbreviation OEMHPE :: oem where "OEMHPE \<equiv> ''hpe''"
abbreviation OEMSupermicro :: oem where "OEMSupermicro \<equiv> ''supermicro''"

record redfish_client =
  BaseURL :: string
  Username :: string
  Password :: string
  OEM :: oem

definition NewRedfishClient :: "string \<Rightarrow> string \<times> string \<Rightarrow> oem \<Rightarrow> redfish_client" where
  "NewRedfishClient baseURL creds oem1 =
     \<lparr>BaseURL = baseURL, Username = fst creds, Password = snd creds, OEM = (if oem1 = [] then OEMGeneric else oem1)\<rparr>"

text \<open>A payload as it is handed to json.Marshal, which fails on a number that is not finite.\<close>

datatype jval = VStr string | VNum f64 | VArr "jval list" | VObj "(string \<times> jval) list"

fun marshal_ok :: "jval \<Rightarrow> bool" where
  "marshal_ok (VStr s) \<longleftrightarrow> True"
| "marshal_ok (VNum x) \<longleftrightarrow> f64_finite x"
| "marshal_ok (VArr vs) \<longleftrightarrow> list_all marshal_ok vs"
| "marshal_ok (VObj kvs) \<longleftrightarrow> list_all (\<lambda>kv. marshal_ok (snd kv)) kvs"

record bmc_request =
  br_Method :: string
  br_URL :: string
  br_Auth :: "(string \<times> string) option"
  br_Body :: "jval option"

datatype bmc_reply = DoErr string | DoResp nat string "string + string"

datatype exec_result = ExecOk | ExecNotFound | ExecFail string string

record net =
  url_error :: "string \<Rightarrow> string option"
  marshal_error :: string
  do_http :: "bmc_request \<Rightarrow> bmc_reply"
  run_tool :: "string \<Rightarrow> string list \<Rightarrow> exec_result"

datatype hw_call = CallBmc bmc_request | CallTool string "string list"

definition client_auth :: "redfish_client \<Rightarrow> (string \<times> string) option" where
  "client_auth c = (if Username c \<noteq> [] then Some (Username c, Password c) else None)"

definition redfishSend :: "net \<Rightarrow> redfish_client \<Rightarrow> string \<Rightarrow> string \<Rightarrow> jval \<Rightarrow> hw_call list \<times> string option" where
  "redfishSend n c method path body =
     (if \<not> marshal_ok body then ([], Some (''redfish marshal: '' @ marshal_error n))
      else case url_error n (BaseURL c @ path) of
          Some e \<Rightarrow> ([], Some (''redfish request build: '' @ e))
        | None \<Rightarrow>
            let rq = \<lparr>br_Method = method, br_URL = BaseURL c @ path, br_Auth = client_auth c, br_Body = Some body\<rparr>
            in ([CallBmc rq],
                case do_http n rq of
                  DoErr e \<Rightarrow> Some (''redfish '' @ method @ '' '' @ path @ '': '' @ e)
                | DoResp code status _ \<Rightarrow>
                    if code < 200 \<or> 299 < code then Some (''redfish '' @ method @ '' '' @ path @ '' -> '' @ status)
                    else None))"

definition redfishPost :: "net \<Rightarrow> redfish_client \<Rightarrow> string \<Rightarrow> jval \<Rightarrow> hw_call list \<times> string option" where
  "redfishPost n c path body = redfishSend n c ''POST'' path body"

definition redfishPatch :: "net \<Rightarrow> redfish_client \<Rightarrow> string \<Rightarrow> jval \<Rightarrow> hw_call list \<times> string option" where
  "redfishPatch n c path body = redfishSend n c ''PATCH'' path body"

text \<open>A GET whose reply is decoded: the body is what json's decoder makes of it, an error or a power state.\<close>

definition redfishGet :: "net \<Rightarrow> redfish_client \<Rightarrow> string \<Rightarrow> hw_call list \<times> (string + string)" where
  "redfishGet n c path =
     (case url_error n (BaseURL c @ path) of
        Some e \<Rightarrow> ([], Inl (''redfish request build: '' @ e))
      | None \<Rightarrow>
          let rq = \<lparr>br_Method = ''GET'', br_URL = BaseURL c @ path, br_Auth = client_auth c, br_Body = None\<rparr>
          in ([CallBmc rq],
              case do_http n rq of
                DoErr e \<Rightarrow> Inl (''redfish GET '' @ path @ '': '' @ e)
              | DoResp code status body \<Rightarrow>
                  if code < 200 \<or> 299 < code then Inl (''redfish GET '' @ path @ '' -> '' @ status)
                  else body))"

definition GetSystemPower :: "net \<Rightarrow> redfish_client \<Rightarrow> string \<Rightarrow> hw_call list \<times> (string + string)" where
  "GetSystemPower n c systemID = redfishGet n c (''/redfish/v1/Systems/'' @ systemID)"

definition SetSystemPower :: "net \<Rightarrow> redfish_client \<Rightarrow> string \<Rightarrow> string \<Rightarrow> hw_call list \<times> string option" where
  "SetSystemPower n c systemID action =
     redfishPost n c (''/redfish/v1/Systems/'' @ systemID @ ''/Actions/ComputerSystem.Reset'')
       (VObj ((if OEM c = OEMDell \<and> action = ''GracefulRestart''
          then [(''@Redfish.ActionInfo'', VStr (''/redfish/v1/Systems/'' @ systemID @ ''/#ComputerSystem.Reset''))] else [])
        @ [(''ResetType'', VStr action)]))"

definition BootOverride :: "net \<Rightarrow> redfish_client \<Rightarrow> string \<Rightarrow> string \<Rightarrow> hw_call list \<times> string option" where
  "BootOverride n c systemID target =
     redfishPatch n c (''/redfish/v1/Systems/'' @ systemID)
       (VObj [(''Boot'', VObj [(''BootSourceOverrideEnabled'', VStr ''Once''), (''BootSourceOverrideTarget'', VStr target)])])"

definition cap_payload :: "oem \<Rightarrow> f64 \<Rightarrow> jval" where
  "cap_payload o1 w =
     (if o1 = OEMHPE then VObj [(''Oem'', VObj [(''Hpe'', VObj [(''PowerLimit'', VObj [(''PowerLimitInWatts'', VNum w)])])])]
      else if o1 = OEMDell then VObj [(''Oem'', VObj [(''Dell'', VObj [(''PowerLimit'', VObj [(''PowerLimitInWatts'', VNum w)])])])]
      else if o1 = OEMSupermicro then VObj [(''Oem'', VObj [(''Supermicro'', VObj [(''PowerLimit'', VObj [(''PowerLimitWatts'', VNum w)])])])]
      else VObj [(''PowerControl'', VArr [VObj [(''PowerCapWatts'', VNum w)]])])"

definition SetCPUPowerCap :: "net \<Rightarrow> redfish_client \<Rightarrow> string \<Rightarrow> f64 \<Rightarrow> hw_call list \<times> string option" where
  "SetCPUPowerCap n c chassisID w =
     redfishPatch n c (''/redfish/v1/Chassis/'' @ chassisID @ ''/Power'') (cap_payload (OEM c) w)"

definition IndicatorLED :: "net \<Rightarrow> redfish_client \<Rightarrow> string \<Rightarrow> string \<Rightarrow> hw_call list \<times> string option" where
  "IndicatorLED n c systemID st =
     redfishPatch n c (''/redfish/v1/Systems/'' @ systemID) (VObj [(''IndicatorLED'', VStr st)])"

definition LoadRedfishEndpoint :: "(string \<Rightarrow> string) \<Rightarrow> redfish_client option" where
  "LoadRedfishEndpoint getenv =
     (if getenv ''REDFISH_URL'' = [] then None
      else Some (NewRedfishClient (getenv ''REDFISH_URL'') (getenv ''REDFISH_USER'', getenv ''REDFISH_PASS'') (getenv ''REDFISH_OEM'')))"

subsection \<open>ipmi.go\<close>

record ipmi_client =
  ic_Host :: string
  ic_User :: string
  ic_Password :: string
  ic_Tool :: string

definition NewIPMIClient :: "string \<Rightarrow> string \<Rightarrow> string \<Rightarrow> ipmi_client" where
  "NewIPMIClient host user password = \<lparr>ic_Host = host, ic_User = user, ic_Password = password, ic_Tool = []\<rparr>"

definition ErrIPMIToolMissing :: string where "ErrIPMIToolMissing = ''ipmitool not available''"

definition PowerControl :: "net \<Rightarrow> ipmi_client \<Rightarrow> string \<Rightarrow> hw_call list \<times> string option" where
  "PowerControl n c action =
     (let tool = (if ic_Tool c = [] then ''ipmitool'' else ic_Tool c);
          args = [''-H'', ic_Host c, ''-U'', ic_User c, ''-P'', ic_Password c, ''chassis'', ''power'', action]
      in ([CallTool tool args],
          case run_tool n tool args of
            ExecOk \<Rightarrow> None
          | ExecNotFound \<Rightarrow> Some (ErrIPMIToolMissing @ '': '' @ tool)
          | ExecFail e out \<Rightarrow> Some (''ipmi power '' @ action @ '' failed: '' @ e @ '' ('' @ out @ '')'')))"

subsection \<open>server.go\<close>

text \<open>The manager: the clients and the policy are fixed at start, the state is the signal, the
  audit log (None for a nil sink) and the trace of what was sent.\<close>

record manager =
  m_redfish :: "redfish_client option"
  m_ipmi :: "ipmi_client option"
  m_policy :: throttle_policy

text \<open>The monitor and the audit that \<open>NewManager\<close> also takes are the service's state.\<close>

definition NewManager :: "redfish_client option \<Rightarrow> ipmi_client option \<Rightarrow> throttle_policy \<Rightarrow> manager" where
  "NewManager rf ipmi policy = \<lparr>m_redfish = rf, m_ipmi = ipmi, m_policy = policy\<rparr>"

record hw_state =
  hs_latest :: grid_signal
  hs_audit :: "audit_log option"
  hs_sent :: "hw_call list"

datatype hw_payload =
    HStatus string
  | HSignal grid_signal
  | HPower string string
  | HBoot string string
  | HCap string f64
  | HActions grid_signal "throttle_action list"
  | HEntries "hw_entry list"

type_synonym hw_handler = "(hw_state, hw_payload) handler"

definition hw_record :: "go_time \<Rightarrow> string \<Rightarrow> string \<Rightarrow> detail \<Rightarrow> string \<Rightarrow> string \<Rightarrow> hw_state \<Rightarrow> hw_state" where
  "hw_record ts server action det oper note s =
     (case hs_audit s of
        None \<Rightarrow> s
      | Some a \<Rightarrow> s\<lparr>hs_audit := Some (Record_entry
          \<lparr>he_ID = [], he_TS = ts, he_Domain = ''hardware'', he_Server = server, he_Action = action,
           he_Detail = det, he_Operator = oper, he_Note = note\<rparr> a)\<rparr>)"

definition sends :: "hw_call list \<Rightarrow> hw_state \<Rightarrow> hw_state" where
  "sends cs s = s\<lparr>hs_sent := hs_sent s @ cs\<rparr>"

definition hw_handleHealth :: hw_handler where
  "hw_handleHealth rq s = (s, write_json 200 (HStatus ''ok''))"

definition handleGrid :: hw_handler where
  "handleGrid rq s =
     (if rq_method rq \<noteq> ''GET'' then (s, http_error ''method not allowed'' 405)
      else (s, write_json 200 (HSignal (hs_latest s))))"

text \<open>The switch of \<open>handlePower\<close>: \<open>Inl\<close> the message of an unavailable backend, \<open>Inr\<close> what the backend did.\<close>

definition power_backend :: "net \<Rightarrow> manager \<Rightarrow> string \<Rightarrow> string \<Rightarrow> string \<Rightarrow> string + (hw_call list \<times> string option)" where
  "power_backend n m via system action =
     (if via = ''ipmi'' \<or> (via = [] \<and> m_redfish m = None \<and> m_ipmi m \<noteq> None) then
        (case m_ipmi m of None \<Rightarrow> Inl ''ipmi backend unavailable'' | Some c \<Rightarrow> Inr (PowerControl n c action))
      else if via = ''redfish'' \<or> (via = [] \<and> m_redfish m \<noteq> None) then
        (case m_redfish m of None \<Rightarrow> Inl ''redfish backend unavailable'' | Some c \<Rightarrow> Inr (SetSystemPower n c system action))
      else Inl ''no backend configured'')"

definition handlePower :: "net \<Rightarrow> go_time \<Rightarrow> manager \<Rightarrow> hw_handler" where
  "handlePower n ts m rq s =
     (let body = rq_body rq; server = get_string ''server'' body
      in if \<not> strings_decode [''server'', ''system_id'', ''action'', ''via'', ''operator'', ''note''] body
         then (s, http_error ''bad json'' 400)
         else if server = [] then (s, http_error ''server is required'' 400)
         else
           let system = (if get_string ''system_id'' body = [] then server else get_string ''system_id'' body);
               action = get_string ''action'' body; via = get_string ''via'' body
           in case power_backend n m via system action of
                Inl msg \<Rightarrow> (s, http_error msg 503)
              | Inr (cs, err) \<Rightarrow>
                  let s' = hw_record ts server (''power:'' @ action) (DVia via) (get_string ''operator'' body)
                        (get_string ''note'' body) (sends cs s)
                  in (case err of
                        Some e \<Rightarrow> (s', http_error e 502)
                      | None \<Rightarrow> (s', write_json 200 (HPower server action))))"

definition handleBoot :: "net \<Rightarrow> go_time \<Rightarrow> manager \<Rightarrow> hw_handler" where
  "handleBoot n ts m rq s =
     (if rq_method rq \<noteq> ''POST'' then (s, http_error ''method not allowed'' 405)
      else
        let body = rq_body rq; server = get_string ''server'' body; target = get_string ''target'' body
        in if \<not> strings_decode [''server'', ''system_id'', ''target'', ''operator'', ''note''] body \<or> server = [] \<or> target = []
           then (s, http_error ''server and target are required'' 400)
           else
             let system = (if get_string ''system_id'' body = [] then server else get_string ''system_id'' body)
             in case m_redfish m of
                  None \<Rightarrow> (s, http_error ''redfish backend unavailable'' 503)
                | Some c \<Rightarrow>
                    (case BootOverride n c system target of
                       (cs, Some e) \<Rightarrow> (sends cs s, http_error e 502)
                     | (cs, None) \<Rightarrow>
                         (hw_record ts server (''boot:'' @ target) DNone (get_string ''operator'' body) (get_string ''note'' body) (sends cs s),
                          write_json 200 (HBoot server target))))"

definition handlePowerCap :: "net \<Rightarrow> go_time \<Rightarrow> manager \<Rightarrow> hw_handler" where
  "handlePowerCap n ts m rq s =
     (if rq_method rq \<noteq> ''POST'' then (s, http_error ''method not allowed'' 405)
      else
        let body = rq_body rq; server = get_string ''server'' body; (capW, cap_ok) = get_field set_float 0 ''cap_w'' body
        in if \<not> (strings_decode [''server'', ''chassis_id'', ''operator'', ''note''] body \<and> cap_ok) \<or> server = []
           then (s, http_error ''server is required'' 400)
           else
             let chassis = (if get_string ''chassis_id'' body = [] then server else get_string ''chassis_id'' body)
             in case m_redfish m of
                  None \<Rightarrow> (s, http_error ''redfish backend unavailable'' 503)
                | Some c \<Rightarrow>
                    (case SetCPUPowerCap n c chassis capW of
                       (cs, Some e) \<Rightarrow> (sends cs s, http_error e 502)
                     | (cs, None) \<Rightarrow>
                         (hw_record ts server ''powercap'' (DCap capW) (get_string ''operator'' body) (get_string ''note'' body) (sends cs s),
                          write_json 200 (HCap server capW))))"

text \<open>The decode error is ignored here: what was read of the list is used.\<close>

definition handleThrottleResolve :: "manager \<Rightarrow> hw_handler" where
  "handleThrottleResolve m rq s =
     (if rq_method rq \<noteq> ''POST'' then (s, http_error ''method not allowed'' 405)
      else
        let servers = fst (get_field set_strings [] ''servers'' (rq_body rq))
        in if servers = [] then (s, http_error ''servers is required'' 400)
           else (s, write_json 200 (HActions (hs_latest s) (map (\<lambda>srv. Resolve (m_policy m) srv (hs_latest s)) servers))))"

definition hw_audit_limit :: "string \<Rightarrow> int" where
  "hw_audit_limit l =
     (if l = [] then 50
      else case parse_int64 l of None \<Rightarrow> 50 | Some n \<Rightarrow> if 0 < n then n else 50)"

definition hw_handleAudit :: hw_handler where
  "hw_handleAudit rq s =
     (case hs_audit s of
        None \<Rightarrow> (s, write_json 200 (HEntries []))
      | Some a \<Rightarrow> (s, write_json 200 (HEntries (Recent (hw_audit_limit (rq_query rq ''limit'')) a))))"

record hw_server =
  hw_authToken :: string
  hw_cors :: string

definition hw_mux :: "net \<Rightarrow> go_time \<Rightarrow> manager \<Rightarrow> hw_handler" where
  "hw_mux n ts m = serve_mux
     [(''/health'', hw_handleHealth),
      (''/hw/grid'', handleGrid),
      (''/hw/power'', handlePower n ts m),
      (''/hw/boot'', handleBoot n ts m),
      (''/hw/powercap'', handlePowerCap n ts m),
      (''/hw/throttle/resolve'', handleThrottleResolve m),
      (''/hw/audit'', hw_handleAudit)]"

definition hw_auth :: "hw_server \<Rightarrow> hw_handler \<Rightarrow> hw_handler" where
  "hw_auth srv nxt = auth_check (hw_authToken srv) nxt"

definition hw_corsMiddleware :: "hw_server \<Rightarrow> hw_handler \<Rightarrow> hw_handler" where
  "hw_corsMiddleware srv nxt = cors_wrap (hw_cors srv) ''GET, POST, PATCH, OPTIONS'' nxt"

definition hw_NewServer :: "hw_server \<Rightarrow> net \<Rightarrow> go_time \<Rightarrow> manager \<Rightarrow> hw_handler" where
  "hw_NewServer srv n ts m = hw_corsMiddleware srv (hw_auth srv (hw_mux n ts m))"

interpretation hw_http: guarded_service "hw_NewServer srv n ts m" "hw_mux n ts m" "hw_authToken srv" "hw_cors srv"
  "''GET, POST, PATCH, OPTIONS''" for srv n ts m
  by unfold_locales
    (simp_all add: hw_NewServer_def hw_corsMiddleware_def hw_auth_def hw_mux_def hw_handleHealth_def)

subsection \<open>Lemmas for the properties\<close>

lemma throttle_constants:
  "f64_finite f64_070" "f64_finite f64_090" "\<not> f64_neg f64_070" "\<not> f64_neg f64_090" "\<not> f64_neg f64_one"
  "f64_mag f64_070 \<le> f64_mag f64_090" "f64_mag f64_090 \<le> f64_mag f64_one" "f64_finite f64_one"
  by (simp_all add: f64_070_def f64_090_def f64_one_def f64_finite_def f64_mag_def f64_neg_def inf_mag_def)

lemma default_caps_ordered:
  assumes "f64_finite w" "\<not> f64_neg w"
  shows "f64_le (f64_mul w f64_070) (f64_mul w f64_090) \<and> f64_le (f64_mul w f64_090) w"
  using f64_mul_mono_right [OF assms(1) throttle_constants(1,2) assms(2) throttle_constants(3,4,6)]
    f64_mul_mono_right [OF assms(1) throttle_constants(2,8) assms(2) throttle_constants(4,5,7)]
  by (simp add: f64_mul_one [OF assms(1)])

lemma hw_record_audit:
  assumes "hs_audit s = Some a" "audit_log_wf a"
  shows "hw_record ts server action det oper note s = s\<lparr>hs_audit := Some (Record_entry
          \<lparr>he_ID = [], he_TS = ts, he_Domain = ''hardware'', he_Server = server, he_Action = action,
           he_Detail = det, he_Operator = oper, he_Note = note\<rparr> a)\<rparr>"
  using assms by (simp add: hw_record_def)

lemma hs_audit_sends [simp]: "hs_audit (sends cs s) = hs_audit s" "hs_sent (sends cs s) = hs_sent s @ cs"
  "hs_latest (sends cs s) = hs_latest s"
  by (simp_all add: sends_def)

text \<open>The entry of an action, as the log keeps it.\<close>

definition action_entry :: "audit_log \<Rightarrow> go_time \<Rightarrow> string \<Rightarrow> string \<Rightarrow> detail \<Rightarrow> string \<Rightarrow> string \<Rightarrow> hw_entry" where
  "action_entry a ts server action det oper note =
     \<lparr>he_ID = hw_label (al_seq a + 1), he_TS = ts, he_Domain = ''hardware'', he_Server = server, he_Action = action,
      he_Detail = det, he_Operator = oper, he_Note = note\<rparr>"

lemma hw_record_entries:
  assumes "hs_audit s = Some a" "audit_log_wf a"
  shows "\<exists>a'. hs_audit (hw_record ts server action det oper note s) = Some a'
    \<and> al_entries a' = lastn 1000 (al_entries a @ [action_entry a ts server action det oper note])
    \<and> al_seq a' = al_seq a + 1"
    "hs_sent (hw_record ts server action det oper note s) = hs_sent s"
  using assms by (simp_all add: hw_record_def Record_entry_entries audit_log_wf_def action_entry_def)

definition audit_after :: "nat \<Rightarrow> audit_log \<Rightarrow> hw_entry \<Rightarrow> audit_log option \<Rightarrow> bool" where
  "audit_after status a e after = (if status = 200 then \<exists>a'. after = Some a' \<and> al_entries a' = lastn 1000 (al_entries a @ [e])
     else after = Some a)"

lemma audit_after_same [simp]: "status \<noteq> 200 \<Longrightarrow> audit_after status a e (Some a)"
  by (simp add: audit_after_def)

lemma audit_after_record:
  assumes "hs_audit s = Some a" "audit_log_wf a"
  shows "audit_after 200 a (action_entry a ts server action det oper note) (hs_audit (hw_record ts server action det oper note s))"
  using hw_record_entries(1) [OF assms, of ts server action det oper "note"] by (auto simp: audit_after_def)

lemma handleBoot_audit:
  assumes "hs_audit s = Some a" "audit_log_wf a"
  shows "audit_after (rs_status (snd (handleBoot n ts m rq s))) a
    (action_entry a ts (get_string ''server'' (rq_body rq)) (''boot:'' @ get_string ''target'' (rq_body rq)) DNone
       (get_string ''operator'' (rq_body rq)) (get_string ''note'' (rq_body rq)))
    (hs_audit (fst (handleBoot n ts m rq s)))"
proof -
  have "hs_audit (sends cs s) = Some a" for cs
    using assms(1) by simp
  note rec = audit_after_record [OF this assms(2)]
  show ?thesis
    by (simp add: handleBoot_def Let_def assms(1) rec split: prod.split option.split)
qed

lemma handlePowerCap_audit:
  assumes "hs_audit s = Some a" "audit_log_wf a"
  shows "audit_after (rs_status (snd (handlePowerCap n ts m rq s))) a
    (action_entry a ts (get_string ''server'' (rq_body rq)) ''powercap'' (DCap (fst (get_field set_float 0 ''cap_w'' (rq_body rq))))
       (get_string ''operator'' (rq_body rq)) (get_string ''note'' (rq_body rq)))
    (hs_audit (fst (handlePowerCap n ts m rq s)))"
proof -
  have "hs_audit (sends cs s) = Some a" for cs
    using assms(1) by simp
  note rec = audit_after_record [OF this assms(2)]
  show ?thesis
    by (simp add: handlePowerCap_def Let_def assms(1) rec split: prod.split option.split)
qed

definition hw_mut_path :: "string \<Rightarrow> bool" where
  "hw_mut_path p \<longleftrightarrow> p = ''/hw/power'' \<or> p = ''/hw/boot'' \<or> p = ''/hw/powercap''"

lemma hw_reads [simp]:
  "fst (hw_handleHealth rq s) = s" "fst (handleGrid rq s) = s" "fst (handleThrottleResolve m rq s) = s"
  "fst (hw_handleAudit rq s) = s"
  by (simp_all add: hw_handleHealth_def handleGrid_def handleThrottleResolve_def hw_handleAudit_def Let_def split: option.split)

lemma Recent_ids:
  assumes "hw_log.ids_contiguous a"
  shows "map he_ID (Recent limit a) = map (\<lambda>i. hw_label (al_seq a - of_nat i)) [0..<length (Recent limit a)]"
proof -
  define n where "n = (if limit \<le> 0 then length (al_entries a) else nat limit)"
  define f where "f = (\<lambda>i. hw_label (al_seq a - of_nat i))"
  have "map he_ID (al_entries a) = map f (rev [0..<length (al_entries a)])"
    using assms by (simp add: hw_log.ids_contiguous_def f_def)
  then have "map he_ID (Recent limit a) = rev (lastn n (map f (rev [0..<length (al_entries a)])))"
    by (simp add: Recent_lastn n_def rev_map [symmetric] map_lastn)
  also have "\<dots> = map f [0..<min n (length (al_entries a))]"
    by (simp add: map_lastn [symmetric] rev_map [symmetric]) (simp add: lastn_def drop_rev min_def take_map)
  finally show ?thesis
    by (simp add: f_def Recent_lastn n_def)
qed

subsection \<open>Properties\<close>

text \<open>C23. Throttling gets stricter with the grid's stress: with the default policy of a server
  with a finite, non-negative nameplate power, the cap resolved for a mild signal is at most the
  nameplate and the cap for a high signal at most the mild one; under a critical signal exactly
  the nominated servers are shut down and every other one gets the high cap; any other level
  gives no cap and no shutdown.\<close>

theorem throttle_stricter_with_stress:
  assumes "f64_finite w" and "\<not> f64_neg w"
  shows "f64_le (ta_CapW (Resolve (DefaultThrottlePolicy w crit) srv (sig\<lparr>gs_Level := StressMild\<rparr>))) w
    \<and> f64_le (ta_CapW (Resolve (DefaultThrottlePolicy w crit) srv (sig\<lparr>gs_Level := StressHigh\<rparr>)))
        (ta_CapW (Resolve (DefaultThrottlePolicy w crit) srv (sig\<lparr>gs_Level := StressMild\<rparr>)))
    \<and> ta_Shutdown (Resolve (DefaultThrottlePolicy w crit) srv sig) = (gs_Level sig = StressCritical \<and> srv \<in> set crit)
    \<and> ta_CapW (Resolve (DefaultThrottlePolicy w crit) srv (sig\<lparr>gs_Level := StressCritical\<rparr>)) =
        (if srv \<in> set crit then 0 else ta_CapW (Resolve (DefaultThrottlePolicy w crit) srv (sig\<lparr>gs_Level := StressHigh\<rparr>)))
    \<and> (gs_Level sig \<in> {StressMild, StressHigh, StressCritical} \<or> ta_CapW (Resolve (DefaultThrottlePolicy w crit) srv sig) = 0)
    \<and> ta_ServerID (Resolve (DefaultThrottlePolicy w crit) srv sig) = srv \<and> ta_Level (Resolve (DefaultThrottlePolicy w crit) srv sig) = gs_Level sig"
  using default_caps_ordered [OF assms]
  by (auto simp: Resolve_def DefaultThrottlePolicy_def Let_def list_ex_iff)

theorem throttle_stricter_with_stress_witness:
  "f64_le (ta_CapW (Resolve (DefaultThrottlePolicy f64_100 [''srv1'']) ''srv2'' (stub_signal 0\<lparr>gs_Level := StressHigh\<rparr>)))
     (ta_CapW (Resolve (DefaultThrottlePolicy f64_100 [''srv1'']) ''srv2'' (stub_signal 0\<lparr>gs_Level := StressMild\<rparr>)))"
proof -
  have "f64_finite f64_100" "\<not> f64_neg f64_100"
    by (simp_all add: f64_100_def f64_finite_def f64_mag_def f64_neg_def inf_mag_def)
  from throttle_stricter_with_stress [OF this] show ?thesis by blast
qed

text \<open>C24. Every power action that reaches a backend is audited exactly once, whether it succeeds
  (200) or fails (502), with its server and action and the operator and note of the request, and
  exactly the backend's calls are sent; when no backend serves it (503) nothing is sent and
  nothing is audited.\<close>

theorem power_actions_audited:
  assumes "hs_audit s = Some a" and "audit_log_wf a"
    and "strings_decode [''server'', ''system_id'', ''action'', ''via'', ''operator'', ''note''] (rq_body rq)"
    and "get_string ''server'' (rq_body rq) = server" and "server \<noteq> []"
    and "system = (if get_string ''system_id'' (rq_body rq) = [] then server else get_string ''system_id'' (rq_body rq))"
  shows "case power_backend n m (get_string ''via'' (rq_body rq)) system (get_string ''action'' (rq_body rq)) of
      Inl msg \<Rightarrow> fst (handlePower n ts m rq s) = s \<and> rs_status (snd (handlePower n ts m rq s)) = 503
    | Inr (cs, err) \<Rightarrow>
        (\<exists>a'. hs_audit (fst (handlePower n ts m rq s)) = Some a'
          \<and> al_entries a' = lastn 1000 (al_entries a @ [action_entry a ts server (''power:'' @ get_string ''action'' (rq_body rq))
               (DVia (get_string ''via'' (rq_body rq))) (get_string ''operator'' (rq_body rq)) (get_string ''note'' (rq_body rq))])
          \<and> al_seq a' = al_seq a + 1)
        \<and> hs_sent (fst (handlePower n ts m rq s)) = hs_sent s @ cs
        \<and> rs_status (snd (handlePower n ts m rq s)) = (if err = None then 200 else 502)"
  using assms hw_record_entries [of "sends cs s" a for cs]
  by (auto simp: handlePower_def Let_def split: sum.split prod.split option.split)

theorem power_actions_audited_witness:
  "rs_status (snd (handlePower \<lparr>url_error = (\<lambda>_. None), marshal_error = [], do_http = (\<lambda>_. DoErr ''timeout''), run_tool = (\<lambda>_ _. ExecOk)\<rparr> 7
       \<lparr>m_redfish = None, m_ipmi = Some (NewIPMIClient ''10.0.0.1'' ''root'' ''pw''), m_policy = DefaultThrottlePolicy 0 []\<rparr>
       \<lparr>rq_method = ''POST'', rq_path = ''/hw/power'', rq_auth = [], rq_query = (\<lambda>_. []),
        rq_body = Some (JObj [(''server'', JStr ''srv1''), (''action'', JStr ''off'')])\<rparr>
       \<lparr>hs_latest = stub_signal 0, hs_audit = Some NewAuditLog, hs_sent = []\<rparr>)) = 200"
  using power_actions_audited [where s = "\<lparr>hs_latest = stub_signal 0, hs_audit = Some NewAuditLog, hs_sent = []\<rparr>" and a = NewAuditLog and
      rq = "\<lparr>rq_method = ''POST'', rq_path = ''/hw/power'', rq_auth = [], rq_query = (\<lambda>_. []),
        rq_body = Some (JObj [(''server'', JStr ''srv1''), (''action'', JStr ''off'')])\<rparr>" and server = "''srv1''" and system = "''srv1''"
      and n = "\<lparr>url_error = (\<lambda>_. None), marshal_error = [], do_http = (\<lambda>_. DoErr ''timeout''), run_tool = (\<lambda>_ _. ExecOk)\<rparr>"
      and m = "\<lparr>m_redfish = None, m_ipmi = Some (NewIPMIClient ''10.0.0.1'' ''root'' ''pw''), m_policy = DefaultThrottlePolicy 0 []\<rparr>" and ts = 7]
  by (simp add: NewAuditLog_wf json_defs power_backend_def PowerControl_def Let_def)

text \<open>Boot overrides and power caps are audited exactly when they succeed: a 200 answer comes with
  one new entry for the server; any other answer leaves the log as it was, although the request
  may have been sent to the BMC.\<close>

lemma boot_and_cap_audited_on_success:
  assumes "hs_audit s = Some a" and "audit_log_wf a"
  shows "audit_after (rs_status (snd (handleBoot n ts m rq s))) a
      (action_entry a ts (get_string ''server'' (rq_body rq)) (''boot:'' @ get_string ''target'' (rq_body rq)) DNone
         (get_string ''operator'' (rq_body rq)) (get_string ''note'' (rq_body rq)))
      (hs_audit (fst (handleBoot n ts m rq s)))
    \<and> audit_after (rs_status (snd (handlePowerCap n ts m rq s))) a
      (action_entry a ts (get_string ''server'' (rq_body rq)) ''powercap'' (DCap (fst (get_field set_float 0 ''cap_w'' (rq_body rq))))
         (get_string ''operator'' (rq_body rq)) (get_string ''note'' (rq_body rq)))
      (hs_audit (fst (handlePowerCap n ts m rq s)))"
  using handleBoot_audit [OF assms] handlePowerCap_audit [OF assms] by simp

text \<open>The hardware audit reads newest first: \<open>Recent\<close> of any log grown by \<open>Record\<close> returns at most
  1000 entries, whose ids count down from the log's counter without a gap.\<close>

lemma hw_audit_newest_first:
  "map he_ID (Recent limit (fold Record_entry es NewAuditLog)) =
     map (\<lambda>i. hw_label (al_seq (fold Record_entry es NewAuditLog) - of_nat i)) [0..<length (Recent limit (fold Record_entry es NewAuditLog))]
   \<and> length (Recent limit (fold Record_entry es NewAuditLog)) \<le> 1000"
  using Recent_ids [OF hw_log.ids_fold [OF NewAuditLog_wf], of limit es]
    hw_log.bounded [OF NewAuditLog_wf(1), of es] by (simp add: Recent_lastn NewAuditLog_def)

text \<open>Without the bearer token no request reaches a BMC or the audit: the state, with its trace
  of what was sent, is unchanged. With it, only the three action endpoints can send anything.\<close>

lemma hw_api_guarded:
  "(authorized (hw_authToken srv) rq \<and> hw_mut_path (rq_path rq)) \<or> fst (hw_NewServer srv n ts m rq s) = s"
proof -
  have "fst (hw_mux n ts m rq s) = s" if "\<not> hw_mut_path (rq_path rq)"
    using that by (simp add: hw_mux_def hw_mut_path_def)
  then have "fst (hw_NewServer srv n ts m rq s) = s" if "\<not> hw_mut_path (rq_path rq)"
    using that by (simp add: hw_NewServer_def hw_corsMiddleware_def hw_auth_def cors_wrap_def auth_check_def Let_def split_beta)
  then show ?thesis
    using hw_http.unauthorized_no_effect [of srv rq n ts m s] by blast
qed

subsection \<open>Where the API falls short of its documentation\<close>

text \<open>The power endpoint looks at no method: a GET with a body switches a server off.\<close>

lemma power_any_method: "handlePower n ts m (rq\<lparr>rq_method := meth\<rparr>) s = handlePower n ts m rq s"
  by (simp add: handlePower_def)

text \<open>The Redfish action names the endpoint documents reach ipmitool as they are.\<close>

lemma power_action_untranslated:
  "power_backend n \<lparr>m_redfish = None, m_ipmi = Some c, m_policy = p\<rparr> [] sys ''ForceOff'' =
   Inr (PowerControl n c ''ForceOff'')"
  by (simp add: power_backend_def)

text \<open>A boot override whose reply is lost has been sent and leaves no trace in the audit.\<close>

lemma failed_boot_sent_not_audited:
  assumes "hs_audit s = Some a" "m_redfish m = Some c" "rq_method rq = ''POST''"
    "strings_decode [''server'', ''system_id'', ''target'', ''operator'', ''note''] (rq_body rq)"
    "get_string ''server'' (rq_body rq) \<noteq> []" "get_string ''target'' (rq_body rq) \<noteq> []"
    "\<And>u. url_error n u = None" "\<And>q. do_http n q = DoErr ''timeout''"
  shows "hs_audit (fst (handleBoot n ts m rq s)) = Some a \<and> hs_sent (fst (handleBoot n ts m rq s)) \<noteq> hs_sent s"
  using assms by (simp add: handleBoot_def BootOverride_def redfishPatch_def redfishSend_def Let_def)

end
