(* ===== verification/Point.thy ===== *)
theory Point
  imports Go_Float
begin

text \<open>
  go-telemetry/internal/point/point.go: the telemetry sample and its wire format. The encoder
  and the decoder work on byte lists; the decoder keeps the source's offsets and its slices,
  and a slice out of range is a panic, so that its absence is a theorem. The timestamp is what
  \<open>UnixNano\<close> returns. The JSON form is the library's and is not modelled.
\<close>

type_synonym metric = string
type_synonym unit_name = string

abbreviation MetricTemperature :: metric where "MetricTemperature \<equiv> ''temperature''"
abbreviation MetricVoltage :: metric where "MetricVoltage \<equiv> ''voltage''"
abbreviation MetricAmperage :: metric where "MetricAmperage \<equiv> ''amperage''"
abbreviation MetricAirflow :: metric where "MetricAirflow \<equiv> ''airflow''"
abbreviation MetricPower :: metric where "MetricPower \<equiv> ''power''"
abbreviation MetricHumidity :: metric where "MetricHumidity \<equiv> ''humidity''"
abbreviation MetricStateOfCharge :: metric where "MetricStateOfCharge \<equiv> ''state_of_charge''"
abbreviation MetricFanSpeed :: metric where "MetricFanSpeed \<equiv> ''fan_speed''"
abbreviation MetricValvePosition :: metric where "MetricValvePosition \<equiv> ''valve_position''"
abbreviation MetricOutletState :: metric where "MetricOutletState \<equiv> ''outlet_state''"

definition UnitForMetric :: "metric \<Rightarrow> unit_name" where
  "UnitForMetric m =
     (if m = MetricTemperature then ''celsius''
      else if m = MetricVoltage then ''volt''
      else if m = MetricAmperage then ''ampere''
      else if m = MetricAirflow then ''m3_per_s''
      else if m = MetricPower then ''watt''
      else if m = MetricHumidity \<or> m = MetricStateOfCharge \<or> m = MetricFanSpeed \<or> m = MetricValvePosition then ''percent''
      else if m = MetricOutletState then ''boolean''
      else ''ratio'')"

record data_point =
  dp_Device :: string
  dp_Sensor :: string
  dp_Metric :: metric
  dp_Value :: f64
  dp_Unit :: unit_name
  dp_Timestamp :: "64 word"

definition New_point :: "string \<Rightarrow> string \<Rightarrow> metric \<Rightarrow> f64 \<Rightarrow> 64 word \<Rightarrow> data_point" where
  "New_point device sensor met v ts =
     \<lparr>dp_Device = device, dp_Sensor = sensor, dp_Metric = met, dp_Value = v, dp_Unit = UnitForMetric met, dp_Timestamp = ts\<rparr>"

subsection \<open>The wire format\<close>

definition wireMagic :: nat where "wireMagic = 0x54505444"
definition wireVersion :: nat where "wireVersion = 1"

text \<open>\<open>PutUint16(l, uint16(len(s)))\<close> keeps the low 16 bits of the length.\<close>

definition putLenPrefixed :: "byte list \<Rightarrow> byte list \<Rightarrow> byte list" where
  "putLenPrefixed b s = b @ be_bytes 2 (length s mod 65536) @ s"

definition MarshalBinary :: "data_point \<Rightarrow> byte list go_result" where
  "MarshalBinary p =
     (if dp_Device p = [] \<or> dp_Sensor p = [] \<or> dp_Metric p = []
      then Err ''point: device, sensor and metric are required''
      else
        let dev = bytes_of_string (dp_Device p); sensor = bytes_of_string (dp_Sensor p);
            met = bytes_of_string (dp_Metric p); un = bytes_of_string (dp_Unit p);
            hdr = be_bytes 4 wireMagic @ [word_of_nat wireVersion] @ be_bytes 2 (length dev mod 65536);
            buf = hdr @ dev;
            buf = putLenPrefixed buf sensor;
            buf = putLenPrefixed buf met;
            buf = putLenPrefixed buf un;
            num = be_bytes 8 (unat (dp_Value p)) @ be_bytes 8 (unat (dp_Timestamp p))
        in Ret (buf @ num))"

text \<open>The closure \<open>read\<close>: the field at the offset and the offset after it.\<close>

definition read_field :: "byte list \<Rightarrow> nat \<Rightarrow> (string \<times> nat) go_result" where
  "read_field data off =
     (if length data < off + 2 then Err ''point: truncated length''
      else then_do (slice data off (off + 2)) (\<lambda>lb.
        let l = be_nat lb; off2 = off + 2
        in if length data < off2 + l then Err ''point: truncated field''
           else then_do (slice data off2 (off2 + l)) (\<lambda>s. Ret (string_of_bytes s, off2 + l))))"

definition UnmarshalBinary :: "byte list \<Rightarrow> data_point go_result" where
  "UnmarshalBinary data =
     (if length data < 7 then Err ''point: buffer too short''
      else then_do (slice data 0 4) (\<lambda>mg.
        if be_nat mg \<noteq> wireMagic then Err ''point: bad magic''
        else then_do (at_index data 4) (\<lambda>v.
          if unat v \<noteq> wireVersion then Err ''point: unsupported version''
          else then_do (slice data 5 7) (\<lambda>lb.
            let devLen = be_nat lb
            in if length data < 7 + devLen then Err ''point: truncated device''
               else then_do (slice data 7 (7 + devLen)) (\<lambda>dev.
                 then_do (read_field data (7 + devLen)) (\<lambda>(sensor, off1).
                 then_do (read_field data off1) (\<lambda>(m, off2).
                 then_do (read_field data off2) (\<lambda>(u, off3).
                   if length data < off3 + 16 then Err ''point: truncated value/timestamp''
                   else then_do (slice data off3 (off3 + 8)) (\<lambda>vb.
                     then_do (slice data (off3 + 8) (off3 + 16)) (\<lambda>tb.
                       Ret \<lparr>dp_Device = string_of_bytes dev, dp_Sensor = sensor, dp_Metric = m,
                            dp_Value = word_of_nat (be_nat vb), dp_Unit = u,
                            dp_Timestamp = word_of_nat (be_nat tb)\<rparr>))))))))))"

subsection \<open>The frame of a point\<close>

text \<open>A length-prefixed field, and the whole frame as a concatenation of fields.\<close>

definition field :: "string \<Rightarrow> byte list" where
  "field s = be_bytes 2 (length s) @ bytes_of_string s"

definition frame :: "data_point \<Rightarrow> byte list" where
  "frame p = be_bytes 4 wireMagic @ [word_of_nat wireVersion] @ field (dp_Device p) @ field (dp_Sensor p)
     @ field (dp_Metric p) @ field (dp_Unit p) @ be_bytes 8 (unat (dp_Value p)) @ be_bytes 8 (unat (dp_Timestamp p))"

definition fits :: "data_point \<Rightarrow> bool" where
  "fits p \<longleftrightarrow> length (dp_Device p) < 65536 \<and> length (dp_Sensor p) < 65536 \<and> length (dp_Metric p) < 65536
     \<and> length (dp_Unit p) < 65536"

lemma length_field [simp]: "length (field s) = 2 + length s"
  by (simp add: field_def)

lemma MarshalBinary_frame:
  "fits p \<Longrightarrow> MarshalBinary p = (if dp_Device p = [] \<or> dp_Sensor p = [] \<or> dp_Metric p = []
     then Err ''point: device, sensor and metric are required'' else Ret (frame p))"
  by (simp add: MarshalBinary_def frame_def fits_def field_def putLenPrefixed_def Let_def)

lemma field_split:
  assumes "2 \<le> length xs" "2 + be_nat (take 2 xs) \<le> length xs"
  shows "xs = field (string_of_bytes (take (be_nat (take 2 xs)) (drop 2 xs))) @ drop (2 + be_nat (take 2 xs)) xs"
proof -
  define l where "l = be_nat (take 2 xs)"
  define t where "t = take l (drop 2 xs)"
  have b: "be_bytes 2 l = take 2 xs"
    unfolding l_def using assms(1) by (intro be_bytes_be_nat) simp
  have len: "length t = l"
    using assms(2) [folded l_def] by (simp add: t_def)
  have "field (string_of_bytes t) = take 2 xs @ t"
    by (simp only: field_def length_string_of_bytes bytes_of_string_of_bytes len b)
  moreover have "drop (2 + l) xs = drop l (drop 2 xs)"
    by (simp add: add.commute)
  moreover have "take 2 xs @ t @ drop l (drop 2 xs) = xs"
    unfolding t_def by (simp only: append_take_drop_id)
  ultimately show ?thesis
    by (simp only: l_def [symmetric] t_def [symmetric] append_assoc)
qed

lemma read_field_total [simp]: "read_field data off \<noteq> Panic"
  by (simp add: read_field_def Let_def)

lemma read_field_iff:
  assumes "off \<le> length data"
  shows "read_field data off = Ret (s, off') \<longleftrightarrow>
    length s < 65536 \<and> off' = off + 2 + length s \<and> off' \<le> length data \<and> drop off data = field s @ drop off' data"
proof
  assume h: "read_field data off = Ret (s, off')"
  let ?l = "be_nat (take 2 (drop off data))"
  from h have b: "off + 2 \<le> length data" "off + 2 + ?l \<le> length data"
    and s: "s = string_of_bytes (take ?l (drop (off + 2) data))" "off' = off + 2 + ?l"
    by (auto simp: read_field_def Let_def split: if_splits)
  have "?l < 256 ^ length (take 2 (drop off data))"
    by (rule be_nat_bound)
  then have l: "?l < 65536"
    using b(1) by simp
  have len: "length s = ?l"
    using b s(1) by simp
  have e0: "drop off data = field (string_of_bytes (take ?l (drop 2 (drop off data)))) @ drop (2 + ?l) (drop off data)"
    by (rule field_split) (use b in simp_all)
  have e1: "drop 2 (drop off data) = drop (off + 2) data" "drop (2 + ?l) (drop off data) = drop off' data"
    by (simp_all add: s(2) add.commute add.left_commute)
  have "drop off data = field s @ drop off' data"
    by (rule e0 [unfolded e1, folded s(1)])
  then show "length s < 65536 \<and> off' = off + 2 + length s \<and> off' \<le> length data \<and> drop off data = field s @ drop off' data"
    using l len b(2) s(2) by (intro conjI) (simp_all only: len)
next
  assume h: "length s < 65536 \<and> off' = off + 2 + length s \<and> off' \<le> length data \<and> drop off data = field s @ drop off' data"
  then have h1: "length s < 65536" "off' = off + 2 + length s" "off' \<le> length data" by auto
  from h have d: "drop off data = be_bytes 2 (length s) @ bytes_of_string s @ drop off' data"
    by (simp add: field_def)
  have t: "be_nat (take 2 (drop off data)) = length s"
    unfolding d using h by (simp add: be_nat_be_bytes)
  have "drop (off + 2) data = drop 2 (drop off data)"
    by (simp add: add.commute)
  also have "\<dots> = bytes_of_string s @ drop off' data"
    unfolding d by simp
  finally have u: "take (length s) (drop (off + 2) data) = bytes_of_string s"
    by simp
  show "read_field data off = Ret (s, off')"
    using h1 u by (simp add: read_field_def Let_def t)
qed

lemma read_field_frame:
  assumes "off \<le> length data" "drop off data = field s @ rest" "length s < 65536"
  shows "read_field data off = Ret (s, off + 2 + length s) \<and> off + 2 + length s \<le> length data
    \<and> drop (off + 2 + length s) data = rest"
proof -
  have "length data = off + (2 + length s) + length rest"
    using arg_cong [OF assms(2), of length] assms(1) by simp
  moreover have "drop (off + 2 + length s) data = drop (2 + length s) (drop off data)"
    by (simp add: add.commute add.left_commute)
  then have "drop (off + 2 + length s) data = rest"
    unfolding assms(2) by simp
  ultimately show ?thesis
    using read_field_iff [OF assms(1), of s "off + 2 + length s"] assms(2,3) by simp
qed

lemma word_of_be_nat: "word_of_nat (be_nat (be_bytes 8 (unat w))) = (w :: 64 word)"
proof -
  have "unat w < 256 ^ 8"
    using unsigned_less [where 'a = nat, of w] by simp
  then show ?thesis
    by (simp add: be_nat_be_bytes)
qed

lemma be_bytes_of_word: "length bs = 8 \<Longrightarrow> be_bytes 8 (unat (word_of_nat (be_nat bs) :: 64 word)) = bs"
proof -
  assume len: "length bs = 8"
  have "be_nat bs < 256 ^ 8"
    using be_nat_bound [of bs] by (simp only: len)
  then have "unat (word_of_nat (be_nat bs) :: 64 word) = be_nat bs"
    by (simp add: unat_of_nat)
  then show ?thesis
    using be_bytes_be_nat [OF len] by simp
qed

text \<open>The head of a frame as the decoder reads it.\<close>

lemma magic_bytes: "be_nat (be_bytes 4 wireMagic) = wireMagic" "unat (word_of_nat wireVersion :: byte) = wireVersion"
  by (simp_all add: be_nat_be_bytes wireMagic_def wireVersion_def)

definition head_ok :: "byte list \<Rightarrow> bool" where
  "head_ok data \<longleftrightarrow> 7 \<le> length data \<and> take 5 data = be_bytes 4 wireMagic @ [word_of_nat wireVersion]"

lemma head_ok_iff:
  assumes "7 \<le> length data"
  shows "head_ok data \<longleftrightarrow> be_nat (take 4 data) = wireMagic \<and> unat (data ! 4) = wireVersion"
proof -
  have t: "take 5 data = take 4 data @ [data ! 4]"
    using assms take_Suc_conv_app_nth [of 4 data] by simp
  have "take 4 data = be_bytes 4 wireMagic \<longleftrightarrow> be_nat (take 4 data) = wireMagic"
    using be_bytes_be_nat [of "take 4 data" 4] assms magic_bytes(1) by auto
  moreover have "data ! 4 = word_of_nat wireVersion \<longleftrightarrow> unat (data ! 4) = wireVersion"
    using magic_bytes(2) by (auto intro: unsigned_word_eqI [where 'a = nat])
  ultimately show ?thesis
    using assms by (simp add: head_ok_def t)
qed

definition tail_of :: "byte list \<Rightarrow> string \<times> string \<times> string \<times> string \<Rightarrow> nat \<Rightarrow> data_point" where
  "tail_of data fs off = (case fs of (d, s, m, u) \<Rightarrow>
     \<lparr>dp_Device = d, dp_Sensor = s, dp_Metric = m, dp_Value = word_of_nat (be_nat (take 8 (drop off data))), dp_Unit = u,
      dp_Timestamp = word_of_nat (be_nat (take 8 (drop (off + 8) data)))\<rparr>)"

lemma UnmarshalBinary_reads:
  "UnmarshalBinary data = Ret p \<longleftrightarrow> head_ok data \<and>
    (\<exists>d s m u o0 o1 o2 o3. read_field data 5 = Ret (d, o0) \<and> read_field data o0 = Ret (s, o1)
      \<and> read_field data o1 = Ret (m, o2) \<and> read_field data o2 = Ret (u, o3)
      \<and> o3 + 16 \<le> length data \<and> p = tail_of data (d, s, m, u) o3)"
proof (cases "7 \<le> length data")
  case True
  let ?l = "be_nat (take 2 (drop 5 data))"
  have r5: "read_field data 5 = (if length data < 7 + ?l then Err ''point: truncated field''
      else Ret (string_of_bytes (take ?l (drop 7 data)), 7 + ?l))"
    using True by (simp add: read_field_def Let_def)
  define Q where "Q = (\<lambda>d o0. \<exists>s m u o1 o2 o3. read_field data o0 = Ret (s, o1)
      \<and> read_field data o1 = Ret (m, o2) \<and> read_field data o2 = Ret (u, o3)
      \<and> o3 + 16 \<le> length data \<and> p = tail_of data (d, s, m, u) o3)"
  have "UnmarshalBinary data = Ret p \<longleftrightarrow> head_ok data \<and> 7 + ?l \<le> length data \<and>
      Q (string_of_bytes (take ?l (drop 7 data))) (7 + ?l)"
    unfolding Q_def using True head_ok_iff [OF True]
    by (auto simp: UnmarshalBinary_def Let_def then_do_Ret_iff tail_of_def not_less split: if_splits) fastforce
  moreover have "7 + ?l \<le> length data \<and> Q (string_of_bytes (take ?l (drop 7 data))) (7 + ?l) \<longleftrightarrow>
      (\<exists>d o0. read_field data 5 = Ret (d, o0) \<and> Q d o0)"
    by (simp add: r5 not_less)
  ultimately show ?thesis
    unfolding Q_def by blast
next
  case False
  then show ?thesis
    by (simp add: UnmarshalBinary_def head_ok_def)
qed

lemma UnmarshalBinary_sound:
  assumes "UnmarshalBinary data = Ret p"
  shows "fits p \<and> (\<exists>rest. data = frame p @ rest)"
proof -
  obtain d s m u o0 o1 o2 o3 where head: "head_ok data"
    and r: "read_field data 5 = Ret (d, o0)" "read_field data o0 = Ret (s, o1)"
      "read_field data o1 = Ret (m, o2)" "read_field data o2 = Ret (u, o3)"
    and end16: "o3 + 16 \<le> length data" and p: "p = tail_of data (d, s, m, u) o3"
    using assms unfolding UnmarshalBinary_reads by blast
  have "5 \<le> length data" using head by (simp add: head_ok_def)
  note f0 = r(1) [unfolded read_field_iff [OF this]]
  then have "o0 \<le> length data" by simp
  note f1 = r(2) [unfolded read_field_iff [OF this]]
  then have "o1 \<le> length data" by simp
  note f2 = r(3) [unfolded read_field_iff [OF this]]
  then have "o2 \<le> length data" by simp
  note f3 = r(4) [unfolded read_field_iff [OF this]]
  let ?v = "take 8 (drop o3 data)" and ?t = "take 8 (drop (o3 + 8) data)" and ?rest = "drop (o3 + 16) data"
  have tail: "drop o3 data = ?v @ ?t @ ?rest"
    using append_take_drop_id [of 8 "drop o3 data"] append_take_drop_id [of 8 "drop (o3 + 8) data"]
    by (simp add: add.commute)
  have "length ?v = 8" "length ?t = 8"
    using end16 by simp_all
  note vt = this [THEN be_bytes_of_word]
  have "data = take 5 data @ drop 5 data"
    by simp
  also have "\<dots> = (be_bytes 4 wireMagic @ [word_of_nat wireVersion]) @ field d @ field s @ field m @ field u @ ?v @ ?t @ ?rest"
    using head f0 f1 f2 f3 tail by (simp only: head_ok_def append_assoc)
  also have "\<dots> = frame p @ ?rest"
    by (simp add: frame_def p tail_of_def vt)
  finally show ?thesis
    using f0 f1 f2 f3 p by (auto simp: fits_def tail_of_def)
qed

lemma UnmarshalBinary_complete:
  assumes "fits p"
  shows "UnmarshalBinary (frame p @ rest) = Ret p"
proof -
  let ?num = "be_bytes 8 (unat (dp_Value p)) @ be_bytes 8 (unat (dp_Timestamp p))"
  define data where "data = frame p @ rest"
  define o0 where "o0 = 5 + 2 + length (dp_Device p)"
  define o1 where "o1 = o0 + 2 + length (dp_Sensor p)"
  define o2 where "o2 = o1 + 2 + length (dp_Metric p)"
  define o3 where "o3 = o2 + 2 + length (dp_Unit p)"
  have len: "5 \<le> length data"
    by (simp add: data_def frame_def)
  have head: "head_ok data"
    by (simp add: head_ok_def data_def frame_def)
  have "drop 5 data = field (dp_Device p) @ field (dp_Sensor p) @ field (dp_Metric p) @ field (dp_Unit p) @ ?num @ rest"
    by (simp add: data_def frame_def)
  from read_field_frame [OF len this] assms
  have r0: "read_field data 5 = Ret (dp_Device p, o0)" "o0 \<le> length data"
    "drop o0 data = field (dp_Sensor p) @ field (dp_Metric p) @ field (dp_Unit p) @ ?num @ rest"
    by (auto simp: o0_def fits_def)
  from read_field_frame [OF r0(2,3)] assms
  have r1: "read_field data o0 = Ret (dp_Sensor p, o1)" "o1 \<le> length data"
    "drop o1 data = field (dp_Metric p) @ field (dp_Unit p) @ ?num @ rest"
    by (auto simp: o1_def fits_def)
  from read_field_frame [OF r1(2,3)] assms
  have r2: "read_field data o1 = Ret (dp_Metric p, o2)" "o2 \<le> length data" "drop o2 data = field (dp_Unit p) @ ?num @ rest"
    by (auto simp: o2_def fits_def)
  from read_field_frame [OF r2(2,3)] assms
  have r3: "read_field data o2 = Ret (dp_Unit p, o3)" "o3 \<le> length data" "drop o3 data = ?num @ rest"
    by (auto simp: o3_def fits_def)
  have "drop (o3 + 8) data = drop 8 (drop o3 data)"
    by (simp add: add.commute)
  then have t: "drop (o3 + 8) data = be_bytes 8 (unat (dp_Timestamp p)) @ rest"
    by (simp add: r3(3))
  have "length data = o3 + length (drop o3 data)"
    using r3(2) by simp
  then have "o3 + 16 \<le> length data"
    by (simp add: r3(3))
  moreover have "p = tail_of data (dp_Device p, dp_Sensor p, dp_Metric p, dp_Unit p) o3"
    by (simp add: tail_of_def r3(3) t word_of_be_nat)
  ultimately have "UnmarshalBinary data = Ret p"
    unfolding UnmarshalBinary_reads using head r0(1) r1(1) r2(1) r3(1) by blast
  then show ?thesis
    by (simp only: data_def)
qed

lemma UnmarshalBinary_iff: "UnmarshalBinary data = Ret p \<longleftrightarrow> fits p \<and> (\<exists>rest. data = frame p @ rest)"
  using UnmarshalBinary_sound UnmarshalBinary_complete by blast

subsection \<open>Properties\<close>



text \<open>The decoder never panics: on every byte list it returns a point or an error, so no slice it
  takes is out of range.\<close>

lemma decoder_never_panics: "UnmarshalBinary data \<noteq> Panic"
  by (auto simp: UnmarshalBinary_def Let_def then_do_Panic_iff not_less split: if_splits)

text \<open>A string of 65536 bytes or more does not survive: the encoder truncates its length to 16
  bits, still reports success, and no decoder output of any bytes is ever that point.\<close>

lemma oversize_point_lost:
  assumes "65536 \<le> length (dp_Device p) \<or> 65536 \<le> length (dp_Sensor p) \<or> 65536 \<le> length (dp_Metric p) \<or> 65536 \<le> length (dp_Unit p)"
    and "dp_Device p \<noteq> []" and "dp_Sensor p \<noteq> []" and "dp_Metric p \<noteq> []"
  shows "\<exists>bs. MarshalBinary p = Ret bs \<and> UnmarshalBinary (bs @ rest) \<noteq> Ret p"
  using assms UnmarshalBinary_iff [of _ p] by (auto simp: MarshalBinary_def Let_def fits_def)

end
