(* ===== verification/Metrics.thy ===== *)
theory Metrics
  imports Point Bounded_Log "HOL-Library.Sublist"
begin

text \<open>
  go-telemetry/internal/metrics: the counters (metrics.go) and the dead-letter sink
  (deadletter.go). The counters are atomic 64-bit integers; the sink's operations hold its
  mutex. \<open>Drain\<close> waits on a condition variable from a helper goroutine; it is modelled as a
  step relation, one step per critical section. \<open>Trace\<close> only logs and is not modelled.
\<close>

subsection \<open>metrics.go\<close>

record registry =
  r_ingested :: "64 word"
  r_written :: "64 word"
  r_batches :: "64 word"
  r_writeErrors :: "64 word"
  r_deadLetters :: "64 word"
  r_pollErrors :: "64 word"
  r_perSource :: "string \<rightharpoonup> 64 word"

definition NewRegistry :: registry where
  "NewRegistry = \<lparr>r_ingested = 0, r_written = 0, r_batches = 0, r_writeErrors = 0, r_deadLetters = 0, r_pollErrors = 0,
     r_perSource = Map.empty\<rparr>"

definition IncIngested :: "64 word \<Rightarrow> registry \<Rightarrow> registry" where
  "IncIngested n r = r\<lparr>r_ingested := r_ingested r + n\<rparr>"

definition IncWritten :: "64 word \<Rightarrow> registry \<Rightarrow> registry" where
  "IncWritten n r = r\<lparr>r_written := r_written r + n\<rparr>"

definition IncBatches :: "64 word \<Rightarrow> registry \<Rightarrow> registry" where
  "IncBatches n r = r\<lparr>r_batches := r_batches r + n\<rparr>"

definition IncWriteErrors :: "64 word \<Rightarrow> registry \<Rightarrow> registry" where
  "IncWriteErrors n r = r\<lparr>r_writeErrors := r_writeErrors r + n\<rparr>"

definition IncDeadLetters :: "64 word \<Rightarrow> registry \<Rightarrow> registry" where
  "IncDeadLetters n r = r\<lparr>r_deadLetters := r_deadLetters r + n\<rparr>"

definition IncPollErrors :: "64 word \<Rightarrow> registry \<Rightarrow> registry" where
  "IncPollErrors n r = r\<lparr>r_pollErrors := r_pollErrors r + n\<rparr>"

definition IncSource :: "string \<Rightarrow> 64 word \<Rightarrow> registry \<Rightarrow> registry" where
  "IncSource name n r = r\<lparr>r_perSource := (r_perSource r)(name \<mapsto>
     (case r_perSource r name of None \<Rightarrow> 0 | Some v \<Rightarrow> v) + n)\<rparr>"

lemmas inc_defs = IncIngested_def IncWritten_def IncBatches_def IncWriteErrors_def IncDeadLetters_def IncPollErrors_def
  IncSource_def

record snapshot =
  sn_UptimeSec :: f64
  sn_Counters :: registry
  sn_Rate :: f64

text \<open>The uptime is a reading of the clock; the counters are read as int64.\<close>

definition Snapshot :: "f64 \<Rightarrow> registry \<Rightarrow> snapshot" where
  "Snapshot uptime r = \<lparr>sn_UptimeSec = uptime, sn_Counters = r,
     sn_Rate = (if f64_lt 0 uptime then f64_div (f64_of_int (sint (r_ingested r))) uptime else 0)\<rparr>"

subsection \<open>deadletter.go\<close>

record dead_letter =
  dl_Point :: data_point
  dl_Error :: string
  dl_Attempted :: go_time

record dl_sink =
  dl_items :: "dead_letter list"
  dl_cap :: nat
  dl_reg :: "registry option"

definition NewDeadLetterSink :: "registry option \<Rightarrow> int \<Rightarrow> dl_sink" where
  "NewDeadLetterSink reg capacity = \<lparr>dl_items = [], dl_cap = (if capacity \<le> 0 then 1024 else nat capacity), dl_reg = reg\<rparr>"

definition Put :: "dead_letter \<Rightarrow> dl_sink \<Rightarrow> dl_sink" where
  "Put d s =
     (let items = (if dl_cap s \<le> length (dl_items s) then tl (dl_items s) else dl_items s)
      in s\<lparr>dl_items := items @ [d], dl_reg := map_option (IncDeadLetters 1) (dl_reg s)\<rparr>)"

definition Len :: "dl_sink \<Rightarrow> nat" where
  "Len s = length (dl_items s)"

definition dl_wf :: "dl_sink \<Rightarrow> bool" where
  "dl_wf s \<longleftrightarrow> 0 < dl_cap s \<and> length (dl_items s) \<le> dl_cap s"

lemma Put_items: "dl_wf s \<Longrightarrow> dl_items (Put d s) = lastn (dl_cap s) (dl_items s @ [d])"
  by (cases "dl_items s") (auto simp: Put_def Let_def dl_wf_def lastn_def)

lemma Put_frame [simp]: "dl_cap (Put d s) = dl_cap s" "dl_reg (Put d s) = map_option (IncDeadLetters 1) (dl_reg s)"
  by (simp_all add: Put_def Let_def)

interpretation dl_log: bounded_log Put dl_items dl_cap "\<lambda>s d. d" dl_wf
  by unfold_locales (auto simp: Put_items, auto simp: dl_wf_def Put_def Let_def)

lemma dl_rendered [simp]: "dl_log.rendered_run ds s = ds"
  by (induction ds arbitrary: s) simp_all

lemma NewDeadLetterSink_wf: "dl_wf (NewDeadLetterSink reg c)"
  by (simp add: dl_wf_def NewDeadLetterSink_def)

lemma Puts_items: "dl_wf s \<Longrightarrow> dl_items (fold Put ds s) = lastn (dl_cap s) (dl_items s @ ds)"
  using dl_log.retained_fold [of s ds] by simp

lemma IncDeadLetters_add: "IncDeadLetters n (IncDeadLetters m r) = IncDeadLetters (m + n) r"
  by (simp add: IncDeadLetters_def add.assoc)

lemma Puts_reg: "dl_reg (fold Put ds s) = map_option (IncDeadLetters (of_nat (length ds))) (dl_reg s)"
proof (induction ds arbitrary: s)
  case Nil
  have "IncDeadLetters 0 = (\<lambda>r. r)"
    by (simp add: IncDeadLetters_def fun_eq_iff)
  then show ?case by (simp add: option.map_ident)
next
  case (Cons d ds)
  then show ?case
    by (cases "dl_reg s") (simp_all add: IncDeadLetters_add)
qed

subsection \<open>Drain\<close>

text \<open>
  The helper goroutine of one turn of Drain's loop: not yet at \<open>Wait\<close>, waiting, signalled, or
  finished (its channel is closed). The drainer is at the head of its loop, in its select for
  the helper with the given number, or has returned. \<open>Signal\<close> wakes the longest waiting helper.
\<close>

datatype helper = HStart | HWaiting | HWoken | HDone

datatype drainer = DHead | DSelect nat | DReturned

record drain_state =
  d_sink :: dl_sink
  d_helpers :: "helper list"
  d_drainer :: drainer
  d_delivered :: "dead_letter list"
  d_cancelled :: bool

fun signal_first :: "helper list \<Rightarrow> helper list" where
  "signal_first [] = []"
| "signal_first (h # hs) = (if h = HWaiting then HWoken # hs else h # signal_first hs)"

datatype drain_label = LPut dead_letter | LCancel | LDrain | LHelper nat

inductive drain_step :: "drain_state \<Rightarrow> drain_label \<Rightarrow> drain_state \<Rightarrow> bool" where
  put: "drain_step c (LPut d) (c\<lparr>d_sink := Put d (d_sink c), d_helpers := signal_first (d_helpers c)\<rparr>)"
| cancel: "drain_step c LCancel (c\<lparr>d_cancelled := True\<rparr>)"
| take_all: "d_drainer c = DHead \<Longrightarrow> dl_items (d_sink c) \<noteq> [] \<Longrightarrow>
    drain_step c LDrain (c\<lparr>d_delivered := d_delivered c @ dl_items (d_sink c), d_sink := (d_sink c)\<lparr>dl_items := []\<rparr>\<rparr>)"
| spawn: "d_drainer c = DHead \<Longrightarrow> dl_items (d_sink c) = [] \<Longrightarrow>
    drain_step c LDrain (c\<lparr>d_helpers := d_helpers c @ [HStart], d_drainer := DSelect (length (d_helpers c))\<rparr>)"
| resume: "d_drainer c = DSelect i \<Longrightarrow> i < length (d_helpers c) \<Longrightarrow> d_helpers c ! i = HDone \<Longrightarrow>
    drain_step c LDrain (c\<lparr>d_drainer := DHead\<rparr>)"
| give_up: "d_drainer c = DSelect i \<Longrightarrow> d_cancelled c \<Longrightarrow> drain_step c LDrain (c\<lparr>d_drainer := DReturned\<rparr>)"
| wait_on: "i < length (d_helpers c) \<Longrightarrow> d_helpers c ! i = HStart \<Longrightarrow>
    drain_step c (LHelper i) (c\<lparr>d_helpers := (d_helpers c)[i := HWaiting]\<rparr>)"
| woken: "i < length (d_helpers c) \<Longrightarrow> d_helpers c ! i = HWoken \<Longrightarrow>
    drain_step c (LHelper i) (c\<lparr>d_helpers := (d_helpers c)[i := HDone]\<rparr>)"

inductive_cases drain_stepE: "drain_step c l c'"

definition drain_start :: "dl_sink \<Rightarrow> drain_state" where
  "drain_start s = \<lparr>d_sink = s, d_helpers = [], d_drainer = DHead, d_delivered = [], d_cancelled = False\<rparr>"

inductive drain_reach :: "drain_state \<Rightarrow> dead_letter list \<Rightarrow> drain_state \<Rightarrow> bool" for c0 :: drain_state where
  start: "drain_reach c0 [] c0"
| putting: "drain_reach c0 ds c \<Longrightarrow> drain_step c (LPut d) c' \<Longrightarrow> drain_reach c0 (ds @ [d]) c'"
| other: "drain_reach c0 ds c \<Longrightarrow> drain_step c l c' \<Longrightarrow> \<forall>d. l \<noteq> LPut d \<Longrightarrow> drain_reach c0 ds c'"

lemma subseq_evict: "subseq (dl_items (Put d s)) (dl_items s @ [d])"
  by (cases "dl_items s") (auto simp: Put_def Let_def)

lemma drain_conserves:
  assumes "drain_reach (drain_start s) ds c" "dl_wf s"
  shows "dl_wf (d_sink c) \<and> subseq (d_delivered c @ dl_items (d_sink c)) (dl_items s @ ds)"
  using assms
proof (induction ds c rule: drain_reach.induct)
  case start
  then show ?case by (simp add: drain_start_def)
next
  case (putting ds c d c')
  then have IH: "dl_wf (d_sink c)" "subseq (d_delivered c @ dl_items (d_sink c)) (dl_items s @ ds)" by auto
  have c': "d_delivered c' = d_delivered c" "d_sink c' = Put d (d_sink c)"
    using putting(2) by (auto elim: drain_stepE)
  have "subseq (dl_items (Put d (d_sink c))) (dl_items (d_sink c) @ [d])"
    by (rule subseq_evict)
  then have "subseq (d_delivered c @ dl_items (Put d (d_sink c))) ((d_delivered c @ dl_items (d_sink c)) @ [d])"
    by (simp add: subseq_append')
  moreover have "subseq ((d_delivered c @ dl_items (d_sink c)) @ [d]) ((dl_items s @ ds) @ [d])"
    using IH(2) by (simp only: subseq_append)
  ultimately show ?case
    using IH(1) dl_log.wf_push by (auto simp: c' intro: subseq_order.trans)
next
  case (other ds c l c')
  then have IH: "dl_wf (d_sink c)" "subseq (d_delivered c @ dl_items (d_sink c)) (dl_items s @ ds)" by auto
  from other(2) show ?case
    using IH other(3) by cases (auto simp: dl_wf_def)
qed

subsection \<open>Properties\<close>

text \<open>C33. The dead-letter sink never exceeds its capacity and keeps the most recent letters: after any
  sequence of \<open>Put\<close>s on a fresh sink its content is the last \<open>cap\<close> of them, in order, and a registry
  attached to it has counted every one of them, the evicted ones included.\<close>

theorem dead_letters_bounded:
  "dl_items (fold Put ds (NewDeadLetterSink reg c)) = lastn (if c \<le> 0 then 1024 else nat c) ds
   \<and> Len (fold Put ds (NewDeadLetterSink reg c)) \<le> (if c \<le> 0 then 1024 else nat c)
   \<and> dl_reg (fold Put ds (NewDeadLetterSink reg c)) = map_option (IncDeadLetters (of_nat (length ds))) reg"
  using Puts_items [OF NewDeadLetterSink_wf, of ds reg c]
  by (simp add: Puts_reg Len_def) (simp add: NewDeadLetterSink_def)

text \<open>C34. Draining never duplicates, reorders or invents a letter: in every interleaving of puts, the
  drainer and its helpers, what was delivered followed by what is still buffered is a
  subsequence of what was put.\<close>

theorem drain_keeps_order:
  assumes "drain_reach (drain_start (NewDeadLetterSink reg n)) ds c"
  shows "subseq (d_delivered c @ dl_items (d_sink c)) ds \<and> dl_wf (d_sink c)"
  using drain_conserves [OF assms NewDeadLetterSink_wf] by (simp add: NewDeadLetterSink_def)

definition a_letter :: dead_letter where
  "a_letter = \<lparr>dl_Point = New_point ''d'' ''s'' MetricPower 0 0, dl_Error = ''refused'', dl_Attempted = 0\<rparr>"

text \<open>The lost wakeup: a put between the start of the helper and its \<open>Wait\<close>.\<close>

definition missed :: "registry option \<Rightarrow> int \<Rightarrow> drain_state" where
  "missed reg n = \<lparr>d_sink = Put a_letter (NewDeadLetterSink reg n), d_helpers = [HWaiting], d_drainer = DSelect 0,
     d_delivered = [], d_cancelled = False\<rparr>"

lemma missed_reach: "drain_reach (drain_start (NewDeadLetterSink reg n)) [a_letter] (missed reg n)"
proof -
  let ?s = "NewDeadLetterSink reg n"
  let ?c1 = "\<lparr>d_sink = ?s, d_helpers = [HStart], d_drainer = DSelect 0, d_delivered = [], d_cancelled = False\<rparr>"
  let ?c2 = "\<lparr>d_sink = Put a_letter ?s, d_helpers = [HStart], d_drainer = DSelect 0, d_delivered = [], d_cancelled = False\<rparr>"
  have "drain_step (drain_start ?s) LDrain ?c1"
    using spawn [of "drain_start ?s"] by (simp add: drain_start_def NewDeadLetterSink_def)
  then have r1: "drain_reach (drain_start ?s) [] ?c1"
    by (rule other [OF start]) simp
  have "drain_step ?c1 (LPut a_letter) ?c2"
    using put [of ?c1 a_letter] by simp
  then have "drain_reach (drain_start ?s) ([] @ [a_letter]) ?c2"
    by (rule putting [OF r1])
  moreover have "drain_step ?c2 (LHelper 0) (missed reg n)"
    using wait_on [of 0 ?c2] by (simp add: missed_def)
  ultimately show ?thesis
    using other [of "drain_start ?s" "[a_letter]" ?c2 "LHelper 0" "missed reg n"] by simp
qed

text \<open>Drain can miss a letter's signal: there is a reachable state with a letter in the sink in
  which the drainer waits for a helper that nobody will wake: no step is possible except another
  put or the cancellation.\<close>

lemma drain_lost_wakeup:
  "drain_reach (drain_start (NewDeadLetterSink reg n)) [a_letter] (missed reg n)
   \<and> dl_items (d_sink (missed reg n)) \<noteq> [] \<and> d_drainer (missed reg n) = DSelect 0
   \<and> {l. \<exists>c'. drain_step (missed reg n) l c'} = insert LCancel (range LPut)"
proof -
  have "{l. \<exists>c'. drain_step (missed reg n) l c'} = insert LCancel (range LPut)"
  proof (rule equalityI; rule subsetI)
    fix l
    assume "l \<in> {l. \<exists>c'. drain_step (missed reg n) l c'}"
    then obtain c' where "drain_step (missed reg n) l c'" by auto
    then show "l \<in> insert LCancel (range LPut)"
      by cases (auto simp: missed_def)
  next
    fix l
    assume "l \<in> insert LCancel (range LPut)"
    then consider "l = LCancel" | d where "l = LPut d" by auto
    then show "l \<in> {l. \<exists>c'. drain_step (missed reg n) l c'}"
    proof cases
      case 1
      show ?thesis
        unfolding mem_Collect_eq 1 by (rule exI, rule cancel)
    next
      case (2 d)
      show ?thesis
        unfolding mem_Collect_eq 2 by (rule exI, rule put)
    qed
  qed
  moreover have "dl_items (d_sink (missed reg n)) \<noteq> [] \<and> d_drainer (missed reg n) = DSelect 0"
    by (simp add: missed_def Put_def Let_def)
  ultimately show ?thesis
    using missed_reach by blast
qed

theorem drain_keeps_order_witness:
  "subseq (d_delivered (missed None 5) @ dl_items (d_sink (missed None 5))) [a_letter]"
  using drain_keeps_order [OF missed_reach [of None 5]] by simp

end
