(* ===== verification/Pipeline.thy ===== *)
theory Pipeline
  imports Metrics "HOL-Library.Multiset"
begin

text \<open>
  go-telemetry/internal/pipeline/pipeline.go: sources, the bounded ingest channel, the worker
  pool and the shutdown, as a step relation in which every channel operation, every write of a
  batch and every shutdown action is a step; which of the ready steps happens is open, as it is
  in Go. A sink is whatever it answers to each batch. The state keeps, beside the program's,
  the history of the points sent, of those the sink took and of those it refused.
\<close>

record config =
  IngestBuffer :: int
  Workers :: int
  BatchSize :: int
  BatchTimeout :: int
  PollInterval :: int

text \<open>The defaults of \<open>New\<close>, durations in nanoseconds.\<close>

definition New_pipeline :: "config \<Rightarrow> config" where
  "New_pipeline cfg =
     (let cfg = (if IngestBuffer cfg \<le> 0 then cfg\<lparr>IngestBuffer := 65536\<rparr> else cfg);
          cfg = (if Workers cfg \<le> 0 then cfg\<lparr>Workers := 4\<rparr> else cfg);
          cfg = (if BatchSize cfg \<le> 0 then cfg\<lparr>BatchSize := 4096\<rparr> else cfg);
          cfg = (if BatchTimeout cfg \<le> 0 then cfg\<lparr>BatchTimeout := 200000000\<rparr> else cfg);
          cfg = (if PollInterval cfg \<le> 0 then cfg\<lparr>PollInterval := 1000000000\<rparr> else cfg)
      in cfg)"

datatype source_state = SIdle | SSending "data_point list" | SStopped

text \<open>A worker collects a batch, or is in \<open>flush\<close> with one; the flag says that it stops after it.\<close>

datatype worker_state = WRun "data_point list" | WFlush "data_point list" bool | WStopped

record pipe =
  p_bus :: "data_point list"
  p_done :: bool
  p_closed :: bool
  p_returned :: bool
  p_sources :: "source_state list"
  p_workers :: "worker_state list"
  p_reg :: registry
  p_dl :: "dl_sink option"
  p_sent :: "data_point list"
  p_handed :: "data_point list"
  p_written :: "data_point list"
  p_failed :: "data_point list"

text \<open>The start of \<open>Run\<close>, with one state per source and per worker.\<close>

definition pipe_start :: "config \<Rightarrow> nat \<Rightarrow> dl_sink option \<Rightarrow> pipe" where
  "pipe_start cfg n dl = \<lparr>p_bus = [], p_done = False, p_closed = False, p_returned = False,
     p_sources = replicate n SIdle, p_workers = replicate (nat (Workers cfg)) (WRun []),
     p_reg = NewRegistry, p_dl = dl, p_sent = [], p_handed = [], p_written = [], p_failed = []\<rparr>"

text \<open>The worker after its flush, and the worker that stops: with a batch it flushes it first.\<close>

definition after_flush :: "bool \<Rightarrow> worker_state" where
  "after_flush stop = (if stop then WStopped else WRun [])"

definition stopping :: "data_point list \<Rightarrow> worker_state" where
  "stopping b = (if b = [] then WStopped else WFlush b True)"

definition timed_out :: "data_point list \<Rightarrow> worker_state" where
  "timed_out b = (if b = [] then WRun [] else WFlush b False)"

definition received :: "config \<Rightarrow> data_point list \<Rightarrow> worker_state" where
  "received cfg b = (if BatchSize cfg \<le> int (length b) then WFlush b False else WRun b)"

text \<open>The two branches of \<open>flush\<close>.\<close>

definition flush_ok :: "data_point list \<Rightarrow> pipe \<Rightarrow> pipe" where
  "flush_ok b s = s\<lparr>p_reg := IncWritten (of_nat (length b)) (IncBatches 1 (p_reg s)),
     p_handed := p_handed s @ b, p_written := p_written s @ b\<rparr>"

definition flush_err :: "string \<Rightarrow> go_time \<Rightarrow> data_point list \<Rightarrow> pipe \<Rightarrow> pipe" where
  "flush_err e now b s =
     (let dls = map (\<lambda>pt. \<lparr>dl_Point = pt, dl_Error = e, dl_Attempted = now\<rparr>) b
      in s\<lparr>p_reg := IncWriteErrors 1 (p_reg s), p_dl := map_option (fold Put dls) (p_dl s),
           p_handed := p_handed s @ b, p_failed := p_failed s @ b\<rparr>)"

inductive pipe_step :: "config \<Rightarrow> pipe \<Rightarrow> pipe \<Rightarrow> bool" for cfg :: config where
  poll: "i < length (p_sources s) \<Longrightarrow> p_sources s ! i = SIdle \<Longrightarrow>
    pipe_step cfg s (s\<lparr>p_reg := IncSource name (of_nat (length pts)) (p_reg s), p_sources := (p_sources s)[i := SSending pts]\<rparr>)"
| poll_error: "i < length (p_sources s) \<Longrightarrow> p_sources s ! i = SIdle \<Longrightarrow>
    pipe_step cfg s (s\<lparr>p_reg := IncPollErrors 1 (p_reg s)\<rparr>)"
| send: "i < length (p_sources s) \<Longrightarrow> p_sources s ! i = SSending (pt # pts) \<Longrightarrow> int (length (p_bus s)) < IngestBuffer cfg \<Longrightarrow>
    pipe_step cfg s (s\<lparr>p_bus := p_bus s @ [pt], p_sent := p_sent s @ [pt], p_reg := IncIngested 1 (p_reg s),
      p_sources := (p_sources s)[i := SSending pts]\<rparr>)"
| sent_all: "i < length (p_sources s) \<Longrightarrow> p_sources s ! i = SSending [] \<Longrightarrow>
    pipe_step cfg s (s\<lparr>p_sources := (p_sources s)[i := SIdle]\<rparr>)"
| source_stop: "i < length (p_sources s) \<Longrightarrow> p_done s \<Longrightarrow> p_sources s ! i = SIdle \<or> p_sources s ! i = SSending (pt # pts) \<Longrightarrow>
    pipe_step cfg s (s\<lparr>p_sources := (p_sources s)[i := SStopped]\<rparr>)"
| recv: "j < length (p_workers s) \<Longrightarrow> p_workers s ! j = WRun b \<Longrightarrow> p_bus s = pt # rest \<Longrightarrow>
    pipe_step cfg s (s\<lparr>p_bus := rest, p_workers := (p_workers s)[j := received cfg (b @ [pt])]\<rparr>)"
| recv_closed: "j < length (p_workers s) \<Longrightarrow> p_workers s ! j = WRun b \<Longrightarrow> p_bus s = [] \<Longrightarrow> p_closed s \<Longrightarrow>
    pipe_step cfg s (s\<lparr>p_workers := (p_workers s)[j := stopping b]\<rparr>)"
| timeout: "j < length (p_workers s) \<Longrightarrow> p_workers s ! j = WRun b \<Longrightarrow>
    pipe_step cfg s (s\<lparr>p_workers := (p_workers s)[j := timed_out b]\<rparr>)"
| worker_done: "j < length (p_workers s) \<Longrightarrow> p_workers s ! j = WRun b \<Longrightarrow> p_done s \<Longrightarrow>
    pipe_step cfg s (s\<lparr>p_workers := (p_workers s)[j := stopping b]\<rparr>)"
| wrote: "j < length (p_workers s) \<Longrightarrow> p_workers s ! j = WFlush b stop \<Longrightarrow>
    pipe_step cfg s ((flush_ok b s)\<lparr>p_workers := (p_workers s)[j := after_flush stop]\<rparr>)"
| write_failed: "j < length (p_workers s) \<Longrightarrow> p_workers s ! j = WFlush b stop \<Longrightarrow>
    pipe_step cfg s ((flush_err e now b s)\<lparr>p_workers := (p_workers s)[j := after_flush stop]\<rparr>)"
| Stop: "pipe_step cfg s (s\<lparr>p_done := True\<rparr>)"
| close_bus: "p_done s \<Longrightarrow> \<not> p_closed s \<Longrightarrow> list_all (\<lambda>x. x = SStopped) (p_sources s) \<Longrightarrow> pipe_step cfg s (s\<lparr>p_closed := True\<rparr>)"
| return: "p_closed s \<Longrightarrow> list_all (\<lambda>w. w = WStopped) (p_workers s) \<Longrightarrow> pipe_step cfg s (s\<lparr>p_returned := True\<rparr>)"

inductive_cases pipe_stepE: "pipe_step cfg s s'"

abbreviation pipe_reach :: "config \<Rightarrow> pipe \<Rightarrow> pipe \<Rightarrow> bool" where
  "pipe_reach cfg \<equiv> (pipe_step cfg)\<^sup>*\<^sup>*"

subsection \<open>The invariant\<close>

fun batch_of :: "worker_state \<Rightarrow> data_point list" where
  "batch_of (WRun b) = b"
| "batch_of (WFlush b stop) = b"
| "batch_of WStopped = []"

fun batch_ok :: "config \<Rightarrow> worker_state \<Rightarrow> bool" where
  "batch_ok cfg (WRun b) \<longleftrightarrow> int (length b) < BatchSize cfg"
| "batch_ok cfg (WFlush b stop) \<longleftrightarrow> b \<noteq> [] \<and> int (length b) \<le> BatchSize cfg"
| "batch_ok cfg WStopped \<longleftrightarrow> True"

definition in_batches :: "worker_state list \<Rightarrow> data_point multiset" where
  "in_batches ws = sum_list (map (mset \<circ> batch_of) ws)"

lemma sum_list_update_mset:
  "j < length ws \<Longrightarrow> sum_list (map f (ws[j := w])) + f (ws ! j) = (sum_list (map f ws) :: 'a multiset) + f w"
proof (induction ws arbitrary: j)
  case (Cons x xs)
  show ?case
  proof (cases j)
    case (Suc k)
    then show ?thesis
      using Cons.IH [of k] Cons.prems by (simp add: add.assoc)
  qed (simp add: add.commute add.left_commute)
qed simp

lemma in_batches_update:
  "j < length ws \<Longrightarrow> in_batches (ws[j := w]) + mset (batch_of (ws ! j)) = in_batches ws + mset (batch_of w)"
  unfolding in_batches_def using sum_list_update_mset [of j ws "mset \<circ> batch_of" w] by simp

lemma in_batches_same:
  "j < length ws \<Longrightarrow> batch_of w = batch_of (ws ! j) \<Longrightarrow> in_batches (ws[j := w]) = in_batches ws"
  using in_batches_update [of j ws w] by simp

lemma in_batches_flushed:
  "j < length ws \<Longrightarrow> batch_of w = [] \<Longrightarrow> in_batches (ws[j := w]) + mset (batch_of (ws ! j)) = in_batches ws"
  using in_batches_update [of j ws w] by simp

lemma batch_of_simps [simp]:
  "batch_of (after_flush stop) = []" "batch_of (stopping b) = b" "batch_of (timed_out b) = b" "batch_of (received cfg b) = b"
  by (simp_all add: after_flush_def stopping_def timed_out_def received_def)

text \<open>Where a point is: on the bus, in a worker's batch, taken by the sink, or refused by it.\<close>

definition conserved :: "pipe \<Rightarrow> bool" where
  "conserved s \<longleftrightarrow> mset (p_sent s) = mset (p_bus s) + in_batches (p_workers s) + mset (p_written s) + mset (p_failed s)"

definition counted :: "pipe \<Rightarrow> bool" where
  "counted s \<longleftrightarrow> r_ingested (p_reg s) = of_nat (length (p_sent s)) \<and> r_written (p_reg s) = of_nat (length (p_written s))"

definition bounded :: "config \<Rightarrow> pipe \<Rightarrow> bool" where
  "bounded cfg s \<longleftrightarrow> int (length (p_bus s)) \<le> IngestBuffer cfg \<and> list_all (batch_ok cfg) (p_workers s)"

definition shut :: "pipe \<Rightarrow> bool" where
  "shut s \<longleftrightarrow> (p_closed s \<longrightarrow> p_done s \<and> list_all (\<lambda>x. x = SStopped) (p_sources s))
     \<and> (p_returned s \<longrightarrow> p_closed s \<and> list_all (\<lambda>w. w = WStopped) (p_workers s))"

definition buffered :: "dl_sink option \<Rightarrow> dl_sink option \<Rightarrow> data_point list \<Rightarrow> bool" where
  "buffered dl now failed \<longleftrightarrow> (case dl of None \<Rightarrow> now = None
     | Some d \<Rightarrow> (case now of None \<Rightarrow> False
         | Some d' \<Rightarrow> dl_wf d' \<and> dl_cap d' = dl_cap d \<and> map dl_Point (dl_items d') = lastn (dl_cap d) (map dl_Point (dl_items d) @ failed)))"

definition buffered_dl :: "dl_sink option \<Rightarrow> pipe \<Rightarrow> bool" where
  "buffered_dl dl s \<longleftrightarrow> buffered dl (p_dl s) (p_failed s)"

definition cfg_ok :: "config \<Rightarrow> bool" where
  "cfg_ok cfg \<longleftrightarrow> 0 < IngestBuffer cfg \<and> 0 < Workers cfg \<and> 0 < BatchSize cfg"

lemma New_pipeline_ok: "cfg_ok (New_pipeline cfg)"
  by (simp add: New_pipeline_def cfg_ok_def Let_def)

lemma flush_sel [simp]:
  "p_bus (flush_ok b s) = p_bus s" "p_sent (flush_ok b s) = p_sent s" "p_workers (flush_ok b s) = p_workers s"
  "p_sources (flush_ok b s) = p_sources s" "p_done (flush_ok b s) = p_done s" "p_closed (flush_ok b s) = p_closed s"
  "p_returned (flush_ok b s) = p_returned s" "p_dl (flush_ok b s) = p_dl s" "p_failed (flush_ok b s) = p_failed s"
  "p_written (flush_ok b s) = p_written s @ b" "p_handed (flush_ok b s) = p_handed s @ b"
  "p_bus (flush_err e now b s) = p_bus s" "p_sent (flush_err e now b s) = p_sent s" "p_workers (flush_err e now b s) = p_workers s"
  "p_sources (flush_err e now b s) = p_sources s" "p_done (flush_err e now b s) = p_done s" "p_closed (flush_err e now b s) = p_closed s"
  "p_returned (flush_err e now b s) = p_returned s" "p_written (flush_err e now b s) = p_written s"
  "p_failed (flush_err e now b s) = p_failed s @ b" "p_handed (flush_err e now b s) = p_handed s @ b"
  "p_dl (flush_err e now b s) = map_option (fold Put (map (\<lambda>pt. \<lparr>dl_Point = pt, dl_Error = e, dl_Attempted = now\<rparr>) b)) (p_dl s)"
  by (simp_all add: flush_ok_def flush_err_def Let_def)

lemma flush_reg [simp]:
  "r_ingested (p_reg (flush_ok b s)) = r_ingested (p_reg s)" "r_written (p_reg (flush_ok b s)) = r_written (p_reg s) + of_nat (length b)"
  "r_ingested (p_reg (flush_err e now b s)) = r_ingested (p_reg s)" "r_written (p_reg (flush_err e now b s)) = r_written (p_reg s)"
  by (simp_all add: flush_ok_def flush_err_def inc_defs Let_def)

lemma inc_sel [simp]:
  "r_ingested (IncSource n k r) = r_ingested r" "r_written (IncSource n k r) = r_written r"
  "r_ingested (IncPollErrors k r) = r_ingested r" "r_written (IncPollErrors k r) = r_written r"
  "r_ingested (IncIngested k r) = r_ingested r + k" "r_written (IncIngested k r) = r_written r"
  by (simp_all add: inc_defs)

lemma step_counted: "pipe_step cfg s s' \<Longrightarrow> counted s \<Longrightarrow> counted s'"
  by (erule pipe_stepE) (simp_all add: counted_def add.commute)

lemma step_conserved: "pipe_step cfg s s' \<Longrightarrow> conserved s \<Longrightarrow> conserved s'"
proof (erule pipe_stepE)
  fix j b pt rest
  assume "conserved s" "s' = s\<lparr>p_bus := rest, p_workers := (p_workers s)[j := received cfg (b @ [pt])]\<rparr>"
    "j < length (p_workers s)" "p_workers s ! j = WRun b" "p_bus s = pt # rest"
  then show "conserved s'"
    using in_batches_update [of j "p_workers s" "received cfg (b @ [pt])"] by (simp add: conserved_def)
next
  fix j b stop
  assume "conserved s" "s' = (flush_ok b s)\<lparr>p_workers := (p_workers s)[j := after_flush stop]\<rparr>"
    "j < length (p_workers s)" "p_workers s ! j = WFlush b stop"
  then show "conserved s'"
    using in_batches_flushed [of j "p_workers s" "after_flush stop"] by (simp add: conserved_def ac_simps)
next
  fix j b stop e now
  assume "conserved s" "s' = (flush_err e now b s)\<lparr>p_workers := (p_workers s)[j := after_flush stop]\<rparr>"
    "j < length (p_workers s)" "p_workers s ! j = WFlush b stop"
  then show "conserved s'"
    using in_batches_flushed [of j "p_workers s" "after_flush stop"] by (simp add: conserved_def ac_simps)
qed (simp_all add: conserved_def in_batches_same)

lemma batch_ok_next:
  "cfg_ok cfg \<Longrightarrow> batch_ok cfg (after_flush stop)"
  "batch_ok cfg (WRun b) \<Longrightarrow> batch_ok cfg (stopping b)"
  "batch_ok cfg (WRun b) \<Longrightarrow> batch_ok cfg (timed_out b)"
  "batch_ok cfg (WRun b) \<Longrightarrow> batch_ok cfg (received cfg (b @ [pt]))"
  by (auto simp: after_flush_def stopping_def timed_out_def received_def cfg_ok_def)

lemma list_all_update: "list_all P xs \<Longrightarrow> P x \<Longrightarrow> list_all P (xs[j := x])"
  by (cases "j < length xs") (auto simp: list_all_length nth_list_update)

lemma list_all_at: "list_all P xs \<Longrightarrow> j < length xs \<Longrightarrow> P (xs ! j)"
  by (simp add: list_all_length)

lemma step_bounded: "pipe_step cfg s s' \<Longrightarrow> cfg_ok cfg \<Longrightarrow> bounded cfg s \<Longrightarrow> bounded cfg s'"
  by (erule pipe_stepE)
    (auto simp: bounded_def intro!: list_all_update batch_ok_next dest: list_all_at)

lemma no_stopped_update:
  "list_all (\<lambda>x. x = c) xs \<Longrightarrow> i < length xs \<Longrightarrow> xs ! i = y \<Longrightarrow> y \<noteq> c \<Longrightarrow> False"
  by (auto simp: list_all_length)

lemma step_shut: "pipe_step cfg s s' \<Longrightarrow> shut s \<Longrightarrow> shut s'"
  by (erule pipe_stepE)
    (auto simp: shut_def dest: no_stopped_update intro!: list_all_update)

lemma step_buffered: "pipe_step cfg s s' \<Longrightarrow> buffered_dl dl s \<Longrightarrow> buffered_dl dl s'"
proof (erule pipe_stepE)
  fix j b stop e now
  assume inv: "buffered_dl dl s" and s': "s' = (flush_err e now b s)\<lparr>p_workers := (p_workers s)[j := after_flush stop]\<rparr>"
  let ?dls = "map (\<lambda>pt. \<lparr>dl_Point = pt, dl_Error = e, dl_Attempted = now\<rparr>) b"
  show "buffered_dl dl s'"
  proof (cases dl)
    case None
    with inv show ?thesis by (simp add: buffered_dl_def buffered_def s')
  next
    case (Some d)
    then obtain d' where d': "p_dl s = Some d'" "dl_wf d'" "dl_cap d' = dl_cap d"
      "map dl_Point (dl_items d') = lastn (dl_cap d) (map dl_Point (dl_items d) @ p_failed s)"
      using inv by (auto simp: buffered_dl_def buffered_def split: option.splits)
    have "map dl_Point (dl_items (fold Put ?dls d')) = lastn (dl_cap d) (map dl_Point (dl_items d') @ b)"
      using Puts_items [OF d'(2)] by (simp add: d'(3) map_lastn comp_def)
    also have "\<dots> = lastn (dl_cap d) (map dl_Point (dl_items d) @ p_failed s @ b)"
      by (simp add: d'(4) lastn_lastn_append)
    finally show ?thesis
      using Some d' dl_log.wf_fold [OF d'(2)] dl_log.capacity_fold by (simp add: buffered_dl_def buffered_def s')
  qed
qed (simp_all add: buffered_dl_def)

lemma reach_inv:
  assumes "pipe_reach cfg s0 s" "cfg_ok cfg"
    and "counted s0" "conserved s0" "bounded cfg s0" "shut s0" "buffered_dl dl s0"
  shows "counted s \<and> conserved s \<and> bounded cfg s \<and> shut s \<and> buffered_dl dl s"
  using assms(1)
proof (induction rule: rtranclp_induct)
  case base
  show ?case using assms by simp
next
  case (step s1 s2)
  then show ?case
    using assms(2) step_counted step_conserved step_bounded step_shut step_buffered by metis
qed

lemma in_batches_start [simp]: "in_batches (replicate k (WRun [])) = {#}"
  by (induction k) (simp_all add: in_batches_def)

lemma start_inv:
  assumes "cfg_ok cfg" "case dl of None \<Rightarrow> True | Some d \<Rightarrow> dl_wf d"
  shows "counted (pipe_start cfg n dl)" "conserved (pipe_start cfg n dl)" "bounded cfg (pipe_start cfg n dl)"
    "shut (pipe_start cfg n dl)" "buffered_dl dl (pipe_start cfg n dl)"
  using assms by (auto simp: counted_def conserved_def bounded_def shut_def buffered_dl_def buffered_def pipe_start_def NewRegistry_def
      cfg_ok_def list_all_length dl_wf_def split: option.splits)

text \<open>With one worker the sink is handed the points in the order they were sent.\<close>

definition ordered :: "pipe \<Rightarrow> bool" where
  "ordered s \<longleftrightarrow> length (p_workers s) = 1 \<and> p_sent s = p_handed s @ batch_of (p_workers s ! 0) @ p_bus s"

lemma step_ordered: "pipe_step cfg s s' \<Longrightarrow> ordered s \<Longrightarrow> ordered s'"
  by (erule pipe_stepE) (auto simp: ordered_def)

lemma reach_ordered: "pipe_reach cfg s0 s \<Longrightarrow> ordered s0 \<Longrightarrow> ordered s"
  by (induction rule: rtranclp_induct) (auto intro: step_ordered)

subsection \<open>Properties\<close>



text \<open>C35. The bounds hold and the shutdown is orderly: the bus never holds more than its capacity, a
  running worker's batch is below the batch size and a flushed one non-empty and at most that
  size; the bus is closed only after every source has stopped, so nothing is ever sent on a
  closed channel, and \<open>Run\<close> returns only after every worker has.\<close>

theorem pipeline_bounded:
  assumes "pipe_reach (New_pipeline cfg) (pipe_start (New_pipeline cfg) n None) s"
  shows "int (length (p_bus s)) \<le> IngestBuffer (New_pipeline cfg) \<and> list_all (batch_ok (New_pipeline cfg)) (p_workers s)
    \<and> (if p_closed s then p_done s \<and> list_all (\<lambda>x. x = SStopped) (p_sources s) else True)
    \<and> (if p_returned s then p_closed s \<and> list_all (\<lambda>w. w = WStopped) (p_workers s) else True)"
proof -
  have "counted s \<and> conserved s \<and> bounded (New_pipeline cfg) s \<and> shut s \<and> buffered_dl None s"
    by (rule reach_inv [OF assms New_pipeline_ok]) (auto intro!: start_inv New_pipeline_ok)
  then show ?thesis
    by (simp add: bounded_def shut_def)
qed

text \<open>C36. One worker keeps the order: with a single worker, in every reachable state, what the sink was
  handed, followed by the worker's batch and the bus, is the sequence of points sent.\<close>

theorem single_worker_keeps_order:
  assumes "Workers cfg = 1" and "pipe_reach (New_pipeline cfg) (pipe_start (New_pipeline cfg) n dl) s"
  shows "p_sent s = p_handed s @ batch_of (p_workers s ! 0) @ p_bus s"
proof -
  have "Workers (New_pipeline cfg) = 1"
    using assms(1) by (simp add: New_pipeline_def Let_def)
  then have "ordered (pipe_start (New_pipeline cfg) n dl)"
    by (simp add: ordered_def pipe_start_def)
  then show ?thesis
    using reach_ordered [OF assms(2)] by (simp add: ordered_def)
qed

definition small_cfg :: config where
  "small_cfg = \<lparr>IngestBuffer = 1, Workers = 1, BatchSize = 1, BatchTimeout = 1, PollInterval = 1\<rparr>"

definition a_point :: data_point where
  "a_point = New_point ''rack-01'' ''inlet'' MetricTemperature f64_50 0"

lemma small_cfg_kept [simp]: "New_pipeline small_cfg = small_cfg"
  by (simp add: New_pipeline_def small_cfg_def Let_def)

text \<open>The run that loses a point: it is on the bus when the worker sees the cancellation.\<close>

definition lossy :: "bool \<Rightarrow> bool \<Rightarrow> source_state \<Rightarrow> worker_state \<Rightarrow> bool \<Rightarrow> pipe" where
  "lossy cancelled closed src wrk returned = \<lparr>p_bus = [a_point], p_done = cancelled, p_closed = closed, p_returned = returned,
     p_sources = [src], p_workers = [wrk], p_reg = IncIngested 1 (IncSource ''c'' 1 NewRegistry), p_dl = None,
     p_sent = [a_point], p_handed = [], p_written = [], p_failed = []\<rparr>"

lemma lossy_run: "pipe_reach small_cfg (pipe_start small_cfg 1 None) (lossy True True SStopped WStopped True)"
proof -
  let ?s0 = "pipe_start small_cfg 1 None"
  let ?s1 = "?s0\<lparr>p_reg := IncSource ''c'' 1 NewRegistry, p_sources := [SSending [a_point]]\<rparr>"
  have "pipe_step small_cfg ?s0 ?s1"
    using poll [of 0 ?s0 small_cfg "[a_point]" "''c''"] by (simp add: pipe_start_def small_cfg_def)
  moreover have "pipe_step small_cfg ?s1 (lossy False False (SSending []) (WRun []) False)"
    using send [of 0 ?s1 a_point "[]" small_cfg] by (simp add: pipe_start_def small_cfg_def lossy_def)
  moreover have "pipe_step small_cfg (lossy False False (SSending []) (WRun []) False) (lossy False False SIdle (WRun []) False)"
    using sent_all [of 0 "lossy False False (SSending []) (WRun []) False" small_cfg] by (simp add: lossy_def)
  moreover have "pipe_step small_cfg (lossy False False SIdle (WRun []) False) (lossy True False SIdle (WRun []) False)"
    using Stop [of small_cfg "lossy False False SIdle (WRun []) False"] by (simp add: lossy_def)
  moreover have "pipe_step small_cfg (lossy True False SIdle (WRun []) False) (lossy True False SIdle WStopped False)"
    using worker_done [of 0 "lossy True False SIdle (WRun []) False" "[]" small_cfg] by (simp add: lossy_def stopping_def)
  moreover have "pipe_step small_cfg (lossy True False SIdle WStopped False) (lossy True False SStopped WStopped False)"
    using source_stop [of 0 "lossy True False SIdle WStopped False" _ _ small_cfg] by (simp add: lossy_def)
  moreover have "pipe_step small_cfg (lossy True False SStopped WStopped False) (lossy True True SStopped WStopped False)"
    using close_bus [of "lossy True False SStopped WStopped False" small_cfg] by (simp add: lossy_def)
  moreover have "pipe_step small_cfg (lossy True True SStopped WStopped False) (lossy True True SStopped WStopped True)"
    using return [of "lossy True True SStopped WStopped False" small_cfg] by (simp add: lossy_def)
  ultimately show ?thesis
    by (meson converse_rtranclp_into_rtranclp rtranclp.rtrancl_refl)
qed

text \<open>C40. Shutdown does not drain the bus: a worker returns as soon as it sees the cancellation, and
  there is a run in which \<open>Run\<close> returns with a point that was counted as ingested still on the bus,
  neither written nor dead-lettered.\<close>

theorem shutdown_loses_points:
  "\<exists>s. pipe_reach (New_pipeline small_cfg) (pipe_start (New_pipeline small_cfg) 1 None) s \<and> p_returned s
     \<and> p_bus s = [a_point] \<and> p_written s = [] \<and> p_failed s = [] \<and> r_ingested (p_reg s) = 1"
  using lossy_run by (intro exI [of _ "lossy True True SStopped WStopped True"])
    (simp add: lossy_def inc_defs NewRegistry_def)

theorem single_worker_keeps_order_witness:
  "p_sent (lossy True True SStopped WStopped True) = p_handed (lossy True True SStopped WStopped True) @ [] @ [a_point]"
  using single_worker_keeps_order [of small_cfg 1 None "lossy True True SStopped WStopped True"] lossy_run
  by (simp add: lossy_def small_cfg_def [THEN arg_cong, of Workers])

theorem pipeline_bounded_witness:
  "int (length (p_bus (lossy True True SStopped WStopped True))) \<le> IngestBuffer small_cfg"
  using pipeline_bounded [of small_cfg 1 "lossy True True SStopped WStopped True"] lossy_run by simp

end
