(* ===== verification/Go_Format.thy ===== *)
theory Go_Format
  imports Go_Strconv
begin

text \<open>
  \<open>strconv.FormatFloat(v, 'f', -1, 64)\<close>: the shortest decimal that parses back to \<open>v\<close>, in plain
  notation. The library looks for the last decimal place at which the truncated value or the
  next decimal above it still rounds to \<open>v\<close>, coarse places first, and takes the nearer of the two
  when both do. The model does the same search with exact integers; place \<open>j\<close> stands for
  \<open>10\<close> to the power \<open>j - 1074\<close>, and at place 0 every finite float is exact, so the search ends.
\<close>

fun fixed_digits :: "nat \<Rightarrow> nat \<Rightarrow> string" where
  "fixed_digits 0 n = []"
| "fixed_digits (Suc k) n = fixed_digits k (n div 10) @ [digit_char (n mod 10)]"

text \<open>The decimal \<open>n\<close> at place \<open>j\<close>: numerator, denominator and plain notation.\<close>

definition dec_num :: "nat \<Rightarrow> nat \<Rightarrow> nat" where
  "dec_num n j = n * 10 ^ (j - 1074)"

definition dec_den :: "nat \<Rightarrow> nat" where
  "dec_den j = 10 ^ (1074 - j)"

definition dec_text :: "nat \<Rightarrow> nat \<Rightarrow> string" where
  "dec_text n j =
     (if 1074 \<le> j then show_nat (dec_num n j)
      else show_nat (n div dec_den j) @ CHR ''.'' # fixed_digits (1074 - j) (n mod dec_den j))"

text \<open>The value in units of \<open>2\<close> to the power \<open>-1074\<close>, scaled to place \<open>j\<close>, over this unit.\<close>

definition place_unit :: "nat \<Rightarrow> nat" where
  "place_unit j = 2 ^ 1074 * 10 ^ (j - 1074)"

definition rounds_to :: "f64 \<Rightarrow> nat \<Rightarrow> nat \<Rightarrow> bool" where
  "rounds_to v j n = (f64_of_ratio (f64_neg v) (dec_num n j) (dec_den j) = v)"

fun shortest :: "f64 \<Rightarrow> nat \<Rightarrow> nat \<times> nat" where
  "shortest v 0 = (f64_units (f64_mag v) * dec_den 0 div place_unit 0, 0)"
| "shortest v (Suc j) =
     (let x = f64_units (f64_mag v) * dec_den (Suc j); n = x div place_unit (Suc j)
      in if rounds_to v (Suc j) n \<and> rounds_to v (Suc j) (Suc n) then (rne x (place_unit (Suc j)), Suc j)
         else if rounds_to v (Suc j) n then (n, Suc j)
         else if rounds_to v (Suc j) (Suc n) then (Suc n, Suc j)
         else shortest v j)"

definition top_place :: "f64 \<Rightarrow> nat" where
  "top_place v = 1074 + length (show_nat (f64_units (f64_mag v) div 2 ^ 1074))"

definition format_f :: "f64 \<Rightarrow> string" where
  "format_f v =
     (if f64_is_nan v then ''NaN''
      else if f64_is_inf v then (if f64_neg v then ''-Inf'' else ''+Inf'')
      else let (n, j) = shortest v (top_place v)
        in (if f64_neg v then ''-'' else []) @ dec_text n j)"

subsection \<open>What is printed parses back\<close>

lemma f64_round_mag_scale:
  assumes "0 < c" "0 < d"
  shows "f64_round_mag (n * c) (d * c) = f64_round_mag n d"
  using f64_round_mag_mono [of d "d * c" n "n * c"] f64_round_mag_mono [of "d * c" d "n * c" n] assms
  by (simp add: ac_simps)

lemma div_exact_pow: "((u::nat) * 10 ^ k div 2 ^ k) * 2 ^ k = u * 10 ^ k"
proof -
  have "(10::nat) ^ k = 2 ^ k * 5 ^ k"
    by (simp add: power_mult_distrib [symmetric])
  then show ?thesis by simp
qed

lemma last_place_exact:
  assumes "f64_finite v"
  shows "rounds_to v 0 (f64_units (f64_mag v) * dec_den 0 div place_unit 0)"
proof -
  let ?u = "f64_units (f64_mag v)"
  have "f64_mag v \<le> inf_mag"
    using assms by (simp add: f64_finite_def)
  then have "f64_round_mag (?u * 10 ^ 1074) (1 * 10 ^ 1074) = f64_mag v"
    by (simp only: f64_round_mag_scale zero_less_power zero_less_numeral zero_less_one f64_round_mag_units)
  moreover have "dec_num (?u * dec_den 0 div place_unit 0) 0 * 2 ^ 1074 = ?u * 10 ^ 1074"
    using div_exact_pow [of ?u 1074] by (simp only: dec_num_def dec_den_def place_unit_def diff_zero diff_0_eq_0 power_0 mult_1_right)
  ultimately show ?thesis
    by (simp only: rounds_to_def f64_of_ratio_def f64_round_def dec_den_def diff_zero mult_1 f64_make_neg_mag)
qed

lemma shortest_rounds:
  assumes "f64_finite v" and "shortest v j = (n, k)"
  shows "rounds_to v k n"
  using assms(2)
proof (induction j)
  case 0
  then show ?case using last_place_exact [OF assms(1)] by auto
next
  case (Suc j)
  show ?case
    using Suc.prems Suc.IH rne_cases [of "f64_units (f64_mag v) * dec_den (Suc j)" "place_unit (Suc j)"]
    by (auto simp: Let_def split: if_splits)
qed

lemma is_digit_facts:
  assumes "is_digit c"
  shows "c \<noteq> CHR ''_''" "c \<noteq> CHR ''.''" "c \<noteq> CHR ''-''" "c \<noteq> CHR ''+''" "digit_of hex c = Some (digit_val c)"
    "ascii_lower c = c" "c \<noteq> CHR ''x''" "c \<noteq> CHR ''i''" "c \<noteq> CHR ''I''" "c \<noteq> CHR ''n''" "c \<noteq> CHR ''N''"
  using assms unfolding is_digit_def digit_of_def digit_val_def ascii_lower_def Let_def by auto

lemma scan_mant_digits:
  "list_all is_digit ds \<Longrightarrow> scan_mant False m fd dot dig (ds @ rest) =
     scan_mant False (foldl (\<lambda>acc c. acc * 10 + digit_val c) m ds) (if dot then fd + length ds else fd) dot (dig \<or> ds \<noteq> []) rest"
  by (induction ds arbitrary: m fd dig) (auto simp: is_digit_facts)

lemma foldl_digits_append:
  "foldl (\<lambda>acc c. acc * 10 + digit_val c) (dec_val xs) ys = dec_val (xs @ ys)"
  by (simp add: dec_val_def)

text \<open>The digits of a plain decimal: an integer part and, after a point, a fraction.\<close>

definition plain :: "bool \<Rightarrow> string \<Rightarrow> bool \<Rightarrow> string \<Rightarrow> string" where
  "plain neg ip frac fp = (if neg then ''-'' else []) @ ip @ (if frac then CHR ''.'' # fp else [])"

definition plain_ok :: "string \<Rightarrow> bool \<Rightarrow> string \<Rightarrow> bool" where
  "plain_ok ip frac fp \<longleftrightarrow> ip \<noteq> [] \<and> list_all is_digit ip \<and> list_all is_digit fp \<and> (frac \<or> fp = [])"

lemma scan_plain:
  assumes "plain_ok ip frac fp"
  shows "scan_mant False 0 0 False False (ip @ (if frac then CHR ''.'' # fp else [])) =
    (dec_val (ip @ fp), length fp, True, [])"
proof -
  have d: "foldl (\<lambda>acc c. acc * 10 + digit_val c) 0 ip = dec_val ip"
    by (simp add: dec_val_def)
  have e: "scan_mant False (dec_val ip) 0 True True fp = (dec_val (ip @ fp), length fp, True, [])"
    using scan_mant_digits [of fp "dec_val ip" 0 True True "[]"] assms
    by (simp add: plain_ok_def foldl_digits_append)
  show ?thesis
    using assms e by (auto simp: plain_ok_def scan_mant_digits d)
qed

lemma plain_no_hex:
  assumes "plain_ok ip frac fp" and that: "s1 = ip @ (if frac then CHR ''.'' # fp else [])"
  shows "\<not> (2 < length s1 \<and> s1 ! 0 = CHR ''0'' \<and> ascii_lower (s1 ! 1) = CHR ''x'')"
proof (cases ip)
  case Nil
  then show ?thesis using assms by (simp add: plain_ok_def)
next
  case (Cons c cs)
  have "ascii_lower CHR ''.'' \<noteq> CHR ''x''"
    by (simp add: ascii_lower_def)
  then show ?thesis
    using assms that Cons by (cases cs) (auto simp: plain_ok_def is_digit_facts)
qed

lemma plain_chars: "plain_ok ip frac fp \<Longrightarrow> CHR ''_'' \<notin> set (plain neg ip frac fp)"
  by (auto simp: plain_ok_def plain_def list_all_iff is_digit_facts(1) split: if_splits dest: is_digit_facts(1))

lemma read_plain:
  assumes "plain_ok ip frac fp"
  shows "read_float (plain neg ip frac fp) = Some (neg, dec_val (ip @ fp), 10 ^ length fp, [])"
proof -
  let ?s1 = "ip @ (if frac then CHR ''.'' # fp else [])" and ?s = "plain neg ip frac fp"
  have hd1: "?s1 \<noteq> []" "hd ?s1 \<noteq> CHR ''-''" "hd ?s1 \<noteq> CHR ''+''"
    using assms by (auto simp: plain_ok_def neq_Nil_conv is_digit_facts)
  have neg: "(?s \<noteq> [] \<and> hd ?s = CHR ''-'') = neg"
    using hd1 by (simp add: plain_def)
  have s1: "(if ?s \<noteq> [] \<and> (hd ?s = CHR ''-'' \<or> hd ?s = CHR ''+'') then tl ?s else ?s) = ?s1"
    using hd1 by (simp add: plain_def)
  have hex: "(2 < length ?s1 \<and> ?s1 ! 0 = CHR ''0'' \<and> ascii_lower (?s1 ! 1) = CHR ''x'') = False"
    using plain_no_hex [OF assms refl] by blast
  have us: "CHR ''_'' \<notin> set (take n ?s)" for n
    using plain_chars [OF assms] by (metis in_set_takeD)
  show ?thesis
    unfolding read_float_def s1 neg hex Let_def if_False scan_plain [OF assms]
    using us by (simp add: read_exp_def)
qed

lemma special_plain: "plain_ok ip frac fp \<Longrightarrow> parse_special (plain neg ip frac fp) = None"
  by (cases ip) (auto simp: parse_special_def plain_def plain_ok_def parse_inf_def is_digit_facts)

lemma parse_plain:
  assumes "plain_ok ip frac fp"
  shows "parse_float (plain neg ip frac fp) =
    (let v = f64_of_ratio neg (dec_val (ip @ fp)) (10 ^ length fp) in (v, if f64_is_inf v then Some ErrRange else None))"
  by (simp add: parse_float_def special_plain [OF assms] read_plain [OF assms])

lemma fixed_digits_digits [simp]: "list_all is_digit (fixed_digits k n)"
  by (induction k arbitrary: n) simp_all

lemma length_fixed_digits [simp]: "length (fixed_digits k n) = k"
  by (induction k arbitrary: n) simp_all

lemma dec_val_fixed: "dec_val (xs @ fixed_digits k n) = dec_val xs * 10 ^ k + n mod 10 ^ k"
proof (induction k arbitrary: n)
  case 0
  then show ?case by simp
next
  case (Suc k)
  have "dec_val (xs @ fixed_digits (Suc k) n) = dec_val ((xs @ fixed_digits k (n div 10)) @ [digit_char (n mod 10)])"
    by simp
  also have "\<dots> = (dec_val xs * 10 ^ k + n div 10 mod 10 ^ k) * 10 + n mod 10"
    by (simp only: dec_val_snoc Suc.IH digit_val_char mod_less_divisor zero_less_numeral)
  also have "\<dots> = dec_val xs * 10 ^ Suc k + n mod 10 ^ Suc k"
    by (simp add: mod_mult2_eq algebra_simps)
  finally show ?case .
qed

lemma show_nat_all_digits [simp]: "list_all is_digit (show_nat n)"
  by (simp add: list_all_iff show_nat_digits)

text \<open>The text of the decimal at a place, as digits.\<close>

lemma dec_text_plain:
  "\<exists>ip frac fp. plain_ok ip frac fp \<and> (if neg then ''-'' else []) @ dec_text n j = plain neg ip frac fp
     \<and> dec_val (ip @ fp) = dec_num n j \<and> 10 ^ length fp = dec_den j"
proof (cases "1074 \<le> j")
  case True
  then show ?thesis
    by (intro exI [of _ "show_nat (dec_num n j)"] exI [of _ False] exI [of _ "[]"])
      (simp add: plain_ok_def plain_def dec_text_def dec_den_def)
next
  case False
  have "dec_val (show_nat (n div dec_den j) @ fixed_digits (1074 - j) (n mod dec_den j)) = dec_num n j"
    using False unfolding dec_val_fixed by (simp add: dec_den_def dec_num_def div_mult_mod_eq)
  with False show ?thesis
    by (intro exI [of _ "show_nat (n div dec_den j)"] exI [of _ True] exI [of _ "fixed_digits (1074 - j) (n mod dec_den j)"])
      (simp add: plain_ok_def plain_def dec_text_def dec_den_def)
qed

lemma format_f_parses:
  assumes "f64_finite v"
  shows "parse_float (format_f v) = (v, None)"
proof -
  obtain n j where nj: "shortest v (top_place v) = (n, j)"
    by (cases "shortest v (top_place v)")
  obtain ip frac fp where p: "plain_ok ip frac fp" "(if f64_neg v then ''-'' else []) @ dec_text n j = plain (f64_neg v) ip frac fp"
    "dec_val (ip @ fp) = dec_num n j" "10 ^ length fp = dec_den j"
    using dec_text_plain [of "f64_neg v" n j] by blast
  have "format_f v = plain (f64_neg v) ip frac fp"
    using f64_finite_not_special [OF assms] nj p(2) by (simp add: format_f_def)
  moreover have "f64_of_ratio (f64_neg v) (dec_num n j) (dec_den j) = v"
    using shortest_rounds [OF assms nj] by (simp add: rounds_to_def)
  ultimately show ?thesis
    using parse_plain [OF p(1)] f64_finite_not_special [OF assms] p(3,4) by simp
qed

text \<open>No text of a number holds a character the line protocol or SQL gives a meaning to.\<close>

definition number_char :: "char \<Rightarrow> bool" where
  "number_char c \<longleftrightarrow> is_digit c \<or> c \<in> set ''-+.NaInf''"

lemma format_f_chars: "list_all number_char (format_f v)"
proof (cases "f64_is_nan v \<or> f64_is_inf v")
  case True
  then show ?thesis by (auto simp: format_f_def number_char_def)
next
  case False
  obtain n j where nj: "shortest v (top_place v) = (n, j)"
    by (cases "shortest v (top_place v)")
  obtain ip frac fp where p: "plain_ok ip frac fp" "(if f64_neg v then ''-'' else []) @ dec_text n j = plain (f64_neg v) ip frac fp"
    using dec_text_plain [of "f64_neg v" n j] by blast
  have "list_all number_char (plain (f64_neg v) ip frac fp)"
    using p(1) by (auto simp: plain_ok_def plain_def number_char_def list_all_iff)
  then show ?thesis
    using False nj p(2) by (simp add: format_f_def)
qed

text \<open>Integers in decimal parse back.\<close>

lemma parse_show_int:
  assumes "- (2 ^ 63) \<le> i" "i < 2 ^ 63"
  shows "parse_int64 (show_int i) = Some i"
proof -
  have sign: "hd (show_nat n) \<noteq> CHR ''-'' \<and> hd (show_nat n) \<noteq> CHR ''+''" for n
    using show_nat_digits [of "hd (show_nat n)" n] is_digit_facts(3,4) by (metis hd_in_set show_nat_nonempty)
  show ?thesis
    using assms sign by (cases "i < 0") (simp_all add: parse_int64_def show_int_def Let_def)
qed

end
