(* ===== verification/Writer.thy ===== *)
theory Writer
  imports Point Go_Format
begin

text \<open>
  go-telemetry/internal/writer/writer.go: the sinks the pipeline writes to. A writer is its state
  and what it has put on the wire; what the network does (a dial, a deadline or a write that
  fails, after how many bytes) and the clock readings are the argument of each call. Every call
  of the QuestDB writer runs under its mutex, so it is one transition.
\<close>

subsection \<open>Lines of the InfluxDB line protocol\<close>

abbreviation backslash :: char where "backslash \<equiv> CHR 0x5C"
abbreviation newline :: char where "newline \<equiv> CHR 0x0A"

definition escape :: "string \<Rightarrow> string" where
  "escape s =
     (let s = replace_char CHR '' '' [backslash, CHR '' ''] s;
          s = replace_char CHR '','' [backslash, CHR '',''] s;
          s = replace_char CHR ''='' [backslash, CHR ''=''] s
      in s)"

definition formatFloat :: "f64 \<Rightarrow> string" where
  "formatFloat v = format_f v"

definition ilp_text :: "string \<Rightarrow> data_point \<Rightarrow> 64 word \<Rightarrow> string" where
  "ilp_text table p ts = table @ '',device='' @ escape (dp_Device p) @ '',sensor='' @ escape (dp_Sensor p)
     @ '',metric='' @ escape (dp_Metric p) @ '' value='' @ formatFloat (dp_Value p) @ '' '' @ show_int (sint ts)"

subsection \<open>The QuestDB writer\<close>

record questdb_cfg =
  q_Address :: string
  q_Table :: string

text \<open>What happened on the network, newest last; connections are numbered in the order they were dialed.\<close>

datatype sock = Dialed nat string | DeadlineSet nat go_time | Sent nat string | Closed nat

record questdb =
  q_cfg :: questdb_cfg
  q_conn :: "nat option"
  q_next :: nat
  q_net :: "sock list"

definition NewQuestDB :: "questdb_cfg \<Rightarrow> questdb" where
  "NewQuestDB cfg =
     (let cfg = (if q_Address cfg = [] then cfg\<lparr>q_Address := ''localhost:9009''\<rparr> else cfg);
          cfg = (if q_Table cfg = [] then cfg\<lparr>q_Table := ''readings''\<rparr> else cfg)
      in \<lparr>q_cfg = cfg, q_conn = None, q_next = 0, q_net = []\<rparr>)"

text \<open>
  The world of one call: the error of a dial, of SetDeadline, the bytes a failing write gets out
  and its error, the deadline of the context, the clock, and the clock at the \<open>i\<close>-th point.
\<close>

record write_env =
  e_dial :: "string option"
  e_setdl :: "string option"
  e_write :: "(nat \<times> string) option"
  e_ctx :: "go_time option"
  e_now :: go_time
  e_clock :: "nat \<Rightarrow> 64 word"

definition deadline :: "write_env \<Rightarrow> go_time" where
  "deadline ev = (case e_ctx ev of Some d \<Rightarrow> d | None \<Rightarrow> e_now ev + 10 * 10 ^ 9)"

definition line :: "string \<Rightarrow> 64 word \<Rightarrow> data_point \<Rightarrow> string" where
  "line table now p =
     (let ts = dp_Timestamp p; ts = (if sint ts \<le> 0 then now else ts) in ilp_text table p ts)"

fun payload_from :: "string \<Rightarrow> (nat \<Rightarrow> 64 word) \<Rightarrow> nat \<Rightarrow> data_point list \<Rightarrow> string" where
  "payload_from table clk i [] = []"
| "payload_from table clk i (p # ps) = line table (clk i) p @ [newline] @ payload_from table clk (Suc i) ps"

definition dial_conn :: "write_env \<Rightarrow> questdb \<Rightarrow> questdb + string" where
  "dial_conn ev q = (case q_conn q of Some c \<Rightarrow> Inl q
     | None \<Rightarrow> (case e_dial ev of
           Some err \<Rightarrow> Inr (''questdb: dial '' @ q_Address (q_cfg q) @ '': '' @ err)
         | None \<Rightarrow> Inl (q\<lparr>q_conn := Some (q_next q), q_next := Suc (q_next q),
                         q_net := q_net q @ [Dialed (q_next q) (q_Address (q_cfg q))]\<rparr>)))"

definition send_payload :: "write_env \<Rightarrow> nat \<Rightarrow> string \<Rightarrow> questdb \<Rightarrow> questdb \<times> string option" where
  "send_payload ev c payload q = (case e_setdl ev of
       Some err \<Rightarrow> (q, Some err)
     | None \<Rightarrow>
         let q = q\<lparr>q_net := q_net q @ [DeadlineSet c (deadline ev)]\<rparr>
         in (case e_write ev of
               Some (n, err) \<Rightarrow> (q\<lparr>q_net := q_net q @ [Sent c (take n payload)], q_conn := None\<rparr>, Some (''questdb: write: '' @ err))
             | None \<Rightarrow> (q\<lparr>q_net := q_net q @ [Sent c payload]\<rparr>, None)))"

definition WriteBatch :: "write_env \<Rightarrow> data_point list \<Rightarrow> questdb \<Rightarrow> questdb \<times> string option" where
  "WriteBatch ev pts q =
     (if pts = [] then (q, None)
      else let payload = payload_from (q_Table (q_cfg q)) (e_clock ev) 0 pts
        in (case dial_conn ev q of
              Inr err \<Rightarrow> (q, Some err)
            | Inl q' \<Rightarrow> send_payload ev (the (q_conn q')) payload q'))"

text \<open>\<open>Close\<close>; the argument is the error of closing the connection.\<close>

definition Close :: "string option \<Rightarrow> questdb \<Rightarrow> questdb \<times> string option" where
  "Close err q = (case q_conn q of None \<Rightarrow> (q, None)
     | Some c \<Rightarrow> (q\<lparr>q_conn := None, q_net := q_net q @ [Closed c]\<rparr>, err))"

subsection \<open>The log and the null writer\<close>

record log_writer =
  l_table :: string
  l_out :: string

definition NewLogWriter :: "string \<Rightarrow> log_writer" where
  "NewLogWriter table = \<lparr>l_table = (if table = [] then ''readings'' else table), l_out = []\<rparr>"

definition log_payload :: "string \<Rightarrow> data_point list \<Rightarrow> string" where
  "log_payload table pts = concat (map (\<lambda>p. ilp_text table p (dp_Timestamp p) @ [newline]) pts)"

text \<open>The environment is the bytes a failing write gets out and its error.\<close>

definition log_WriteBatch :: "(nat \<times> string) option \<Rightarrow> data_point list \<Rightarrow> log_writer \<Rightarrow> log_writer \<times> string option" where
  "log_WriteBatch ev pts l =
     (let b = log_payload (l_table l) pts
      in case ev of None \<Rightarrow> (l\<lparr>l_out := l_out l @ b\<rparr>, None)
        | Some (n, err) \<Rightarrow> (l\<lparr>l_out := l_out l @ take n b\<rparr>, Some err))"

definition questdb_Name :: "questdb \<Rightarrow> string" where
  "questdb_Name q = ''questdb''"

definition log_Name :: "log_writer \<Rightarrow> string" where
  "log_Name l = ''log''"

definition log_Close :: "log_writer \<Rightarrow> log_writer \<times> string option" where
  "log_Close l = (l, None)"

datatype null_writer = Null

definition NewNullWriter :: null_writer where
  "NewNullWriter = Null"

definition null_Name :: "null_writer \<Rightarrow> string" where
  "null_Name n = ''null''"

definition null_WriteBatch :: "unit \<Rightarrow> data_point list \<Rightarrow> null_writer \<Rightarrow> null_writer \<times> string option" where
  "null_WriteBatch ev pts n = (n, None)"

definition null_Close :: "null_writer \<Rightarrow> null_writer \<times> string option" where
  "null_Close n = (n, None)"

subsection \<open>The contract of TimeSeriesWriter\<close>

text \<open>
  A batch that is accepted is put on the wire whole, after everything before it; a batch that is
  rejected leaves at most a prefix there.
\<close>

locale ts_writer =
  fixes put_batch :: "'env \<Rightarrow> data_point list \<Rightarrow> 's \<Rightarrow> 's \<times> string option"
    and wire :: "'s \<Rightarrow> string"
    and rendering :: "'env \<Rightarrow> 's \<Rightarrow> data_point list \<Rightarrow> string"
  assumes accepted: "put_batch ev pts s = (s', None) \<Longrightarrow> wire s' = wire s @ rendering ev s pts"
    and rejected: "put_batch ev pts s = (s', Some err) \<Longrightarrow> \<exists>n. wire s' = wire s @ take n (rendering ev s pts)"
    and rendering_stable: "rendering ev (fst (put_batch ev' pts' s)) pts = rendering ev s pts"
begin

definition after :: "('env \<times> data_point list) list \<Rightarrow> 's \<Rightarrow> 's" where
  "after bs s = fold (\<lambda>(ev, pts) s. fst (put_batch ev pts s)) bs s"

lemma after_simps [simp]: "after [] s = s" "after ((ev, pts) # bs) s = after bs (fst (put_batch ev pts s))"
  by (simp_all add: after_def)

lemma rendering_after: "rendering ev (after bs s) pts = rendering ev s pts"
  by (induction bs arbitrary: s) (auto simp: rendering_stable)

lemma written: "\<exists>n. wire (fst (put_batch ev pts s)) = wire s @ take n (rendering ev s pts)
    \<and> (snd (put_batch ev pts s) = None \<longrightarrow> take n (rendering ev s pts) = rendering ev s pts)"
proof (cases "put_batch ev pts s")
  case (Pair s' r)
  show ?thesis
  proof (cases r)
    case None
    then show ?thesis
      using accepted [of ev pts s s'] Pair by (intro exI [of _ "length (rendering ev s pts)"]) simp
  next
    case (Some err)
    then show ?thesis
      using rejected [of ev pts s s' err] Pair by auto
  qed
qed

text \<open>The wire after a run of batches: for each, in order, a prefix of its text, all of it when accepted.\<close>

fun results :: "('env \<times> data_point list) list \<Rightarrow> 's \<Rightarrow> string option list" where
  "results [] s = []"
| "results ((ev, pts) # bs) s = snd (put_batch ev pts s) # results bs (fst (put_batch ev pts s))"

lemma wire_after:
  "\<exists>ps. wire (after bs s) = wire s @ concat ps \<and> length ps = length bs
     \<and> (\<forall>i < length bs. (\<exists>n. ps ! i = take n (rendering (fst (bs ! i)) s (snd (bs ! i))))
         \<and> (results bs s ! i = None \<longrightarrow> ps ! i = rendering (fst (bs ! i)) s (snd (bs ! i))))"
proof (induction bs arbitrary: s)
  case Nil
  show ?case by simp
next
  case (Cons b bs)
  obtain ev pts where b: "b = (ev, pts)" by (cases b)
  let ?s = "fst (put_batch ev pts s)"
  obtain n where n: "wire ?s = wire s @ take n (rendering ev s pts)"
    "snd (put_batch ev pts s) = None \<longrightarrow> take n (rendering ev s pts) = rendering ev s pts"
    using written by blast
  obtain ps where ps: "wire (after bs ?s) = wire ?s @ concat ps" "length ps = length bs"
    "\<forall>i < length bs. (\<exists>n. ps ! i = take n (rendering (fst (bs ! i)) ?s (snd (bs ! i))))
         \<and> (results bs ?s ! i = None \<longrightarrow> ps ! i = rendering (fst (bs ! i)) ?s (snd (bs ! i)))"
    using Cons by blast
  show ?case
  proof (intro exI [of _ "take n (rendering ev s pts) # ps"] conjI allI impI)
    show "wire (after (b # bs) s) = wire s @ concat (take n (rendering ev s pts) # ps)"
      by (simp add: b ps(1) n(1))
    show "length (take n (rendering ev s pts) # ps) = length (b # bs)"
      by (simp add: ps(2))
    fix i
    assume "i < length (b # bs)"
    then show "\<exists>m. (take n (rendering ev s pts) # ps) ! i = take m (rendering (fst ((b # bs) ! i)) s (snd ((b # bs) ! i)))"
      and "results (b # bs) s ! i = None \<Longrightarrow>
        (take n (rendering ev s pts) # ps) ! i = rendering (fst ((b # bs) ! i)) s (snd ((b # bs) ! i))"
      using n(2) ps(3) b by (cases i; auto simp: rendering_stable)+
  qed
qed

end

fun sent_bytes :: "sock \<Rightarrow> string" where
  "sent_bytes (Sent c s) = s"
| "sent_bytes (Dialed c a) = []"
| "sent_bytes (DeadlineSet c t) = []"
| "sent_bytes (Closed c) = []"

definition on_wire :: "questdb \<Rightarrow> string" where
  "on_wire q = concat (map sent_bytes (q_net q))"

definition questdb_rendering :: "write_env \<Rightarrow> questdb \<Rightarrow> data_point list \<Rightarrow> string" where
  "questdb_rendering ev q pts = payload_from (q_Table (q_cfg q)) (e_clock ev) 0 pts"

lemma WriteBatch_cfg [simp]: "q_cfg (fst (WriteBatch ev pts q)) = q_cfg q"
  by (simp add: WriteBatch_def Let_def dial_conn_def send_payload_def split: option.splits)

interpretation questdb: ts_writer WriteBatch on_wire questdb_rendering
proof
  fix ev pts q q' err
  show "WriteBatch ev pts q = (q', None) \<Longrightarrow> on_wire q' = on_wire q @ questdb_rendering ev q pts"
    by (auto simp: WriteBatch_def Let_def dial_conn_def send_payload_def on_wire_def questdb_rendering_def
        split: if_splits option.splits)
  show "WriteBatch ev pts q = (q', Some err) \<Longrightarrow> \<exists>n. on_wire q' = on_wire q @ take n (questdb_rendering ev q pts)"
    by (auto simp: WriteBatch_def Let_def dial_conn_def send_payload_def on_wire_def questdb_rendering_def
        split: if_splits option.splits intro: exI [of _ 0])
qed (simp add: questdb_rendering_def)

interpretation logw: ts_writer log_WriteBatch l_out "\<lambda>ev l. log_payload (l_table l)"
  by unfold_locales (auto simp: log_WriteBatch_def Let_def split: option.splits)

interpretation nullw: ts_writer null_WriteBatch "\<lambda>n. []" "\<lambda>ev n pts. []"
  by unfold_locales (auto simp: null_WriteBatch_def)

subsection \<open>Reading the line protocol back\<close>

text \<open>
  The reading side the writer aims at: in names a backslash takes the meaning off a following
  space, comma or equals sign; a line is a table name, comma-separated tags, one field and a
  timestamp, ended by a newline.
\<close>

definition ilp_special :: "char \<Rightarrow> bool" where
  "ilp_special c \<longleftrightarrow> c = CHR '' '' \<or> c = CHR '','' \<or> c = CHR ''=''"

definition ilp_stop :: "char \<Rightarrow> bool" where
  "ilp_stop c \<longleftrightarrow> ilp_special c \<or> c = newline"

fun read_name :: "string \<Rightarrow> string \<times> string" where
  "read_name [] = ([], [])"
| "read_name [c] = (if ilp_stop c then ([], [c]) else ([c], []))"
| "read_name (c # d # cs) =
     (if c = backslash \<and> ilp_special d then (let (n, r) = read_name cs in (d # n, r))
      else if ilp_stop c then ([], c # d # cs)
      else (let (n, r) = read_name (d # cs) in (c # n, r)))"

definition expect :: "char \<Rightarrow> string \<Rightarrow> string option" where
  "expect c s = (case s of [] \<Rightarrow> None | d # r \<Rightarrow> if d = c then Some r else None)"

definition read_tag :: "string \<Rightarrow> ((string \<times> string) \<times> string) option" where
  "read_tag s = (case expect CHR '','' s of None \<Rightarrow> None
     | Some r \<Rightarrow> (let (k, r) = read_name r in case expect CHR ''='' r of None \<Rightarrow> None
         | Some r \<Rightarrow> (let (v, r) = read_name r in Some ((k, v), r))))"

definition read_fields :: "string \<Rightarrow> (string \<times> string \<times> string \<times> string) option" where
  "read_fields s = (case expect CHR '' '' s of None \<Rightarrow> None
     | Some r \<Rightarrow> (let (f, r) = read_name r in case expect CHR ''='' r of None \<Rightarrow> None
         | Some r \<Rightarrow> (let (v, r) = read_name r in case expect CHR '' '' r of None \<Rightarrow> None
             | Some r \<Rightarrow> (let (t, r) = read_name r in case expect newline r of None \<Rightarrow> None
                 | Some r \<Rightarrow> Some (f, v, t, r)))))"

record ilp_row =
  i_Table :: string
  i_Tags :: "(string \<times> string) list"
  i_Field :: string
  i_Value :: string
  i_Time :: string

text \<open>The number of tags to read is given; the writer puts three.\<close>

fun read_tags :: "nat \<Rightarrow> string \<Rightarrow> ((string \<times> string) list \<times> string) option" where
  "read_tags 0 s = Some ([], s)"
| "read_tags (Suc n) s = (case read_tag s of None \<Rightarrow> None
     | Some (kv, r) \<Rightarrow> map_option (\<lambda>(kvs, r). (kv # kvs, r)) (read_tags n r))"

definition read_row :: "nat \<Rightarrow> string \<Rightarrow> (ilp_row \<times> string) option" where
  "read_row n s = (let (t, r) = read_name s in case read_tags n r of None \<Rightarrow> None
     | Some (tags, r) \<Rightarrow> map_option (\<lambda>(f, v, ts, r). (\<lparr>i_Table = t, i_Tags = tags, i_Field = f, i_Value = v, i_Time = ts\<rparr>, r)) (read_fields r))"

text \<open>\<open>k\<close> lines, the whole text.\<close>

fun read_rows :: "nat \<Rightarrow> string \<Rightarrow> ilp_row list option" where
  "read_rows 0 s = (if s = [] then Some [] else None)"
| "read_rows (Suc k) s = (case read_row 3 s of None \<Rightarrow> None
     | Some (row, r) \<Rightarrow> map_option (\<lambda>rows. row # rows) (read_rows k r))"

text \<open>Names the escaping protects, and texts it need not touch.\<close>

definition tag_safe :: "string \<Rightarrow> bool" where
  "tag_safe s \<longleftrightarrow> backslash \<notin> set s \<and> newline \<notin> set s"

definition plain_name :: "string \<Rightarrow> bool" where
  "plain_name s \<longleftrightarrow> list_all (\<lambda>c. c \<noteq> backslash \<and> \<not> ilp_stop c) s"

lemma special_facts: "ilp_stop backslash = False" "ilp_special d \<Longrightarrow> ilp_stop d" "ilp_stop newline"
  by (simp_all add: ilp_stop_def ilp_special_def)

lemma escape_Nil [simp]: "escape [] = []"
  by (simp add: escape_def)

lemma escape_Cons [simp]: "escape (c # s) = (if ilp_special c then [backslash, c] else [c]) @ escape s"
  by (simp add: escape_def Let_def ilp_special_def)

lemma read_name_escape:
  assumes "tag_safe s" and "ilp_stop d"
  shows "read_name (escape s @ d # r) = (s, d # r)"
  using assms(1)
proof (induction s)
  case Nil
  then show ?case using assms(2) by (cases r) (auto simp: special_facts)
next
  case (Cons c s)
  have safe: "c \<noteq> backslash" "c \<noteq> newline" "tag_safe s"
    using Cons.prems by (auto simp: tag_safe_def)
  show ?case
  proof (cases "ilp_special c")
    case True
    then show ?thesis using Cons.IH [OF safe(3)] by simp
  next
    case False
    then have "\<not> ilp_stop c" using safe(2) by (simp add: ilp_stop_def)
    then show ?thesis
      using Cons.IH [OF safe(3)] safe(1) False by (cases "escape s @ d # r") auto
  qed
qed

lemma plain_escape [simp]: "plain_name s \<Longrightarrow> escape s = s"
  by (induction s) (auto simp: plain_name_def ilp_stop_def)

lemma plain_safe: "plain_name s \<Longrightarrow> tag_safe s"
  by (induction s) (auto simp: plain_name_def tag_safe_def special_facts(3))

lemma read_name_plain: "plain_name s \<Longrightarrow> ilp_stop d \<Longrightarrow> read_name (s @ d # r) = (s, d # r)"
  using read_name_escape [OF plain_safe, of s d r] by simp

lemma plain_lits [simp]: "plain_name ''device''" "plain_name ''sensor''" "plain_name ''metric''" "plain_name ''value''"
  by (simp_all add: plain_name_def ilp_stop_def ilp_special_def)

lemma number_char_plain: "number_char c \<Longrightarrow> c \<noteq> backslash \<and> \<not> ilp_stop c"
proof (rule ccontr)
  have no: "\<not> number_char backslash" "\<not> number_char newline" "\<not> number_char CHR '' ''" "\<not> number_char CHR '',''"
    "\<not> number_char CHR ''=''"
    by (simp_all add: number_char_def is_digit_def)
  assume "number_char c" "\<not> (c \<noteq> backslash \<and> \<not> ilp_stop c)"
  then show False using no unfolding ilp_stop_def ilp_special_def by blast
qed

lemma plain_number: "list_all number_char s \<Longrightarrow> plain_name s"
  by (simp add: plain_name_def list_all_iff number_char_plain)

lemma show_int_chars: "list_all number_char (show_int i)"
  using show_nat_digits by (auto simp: show_int_def list_all_iff number_char_def)

lemma expect_hit [simp]: "expect c (c # r) = Some r"
  by (simp add: expect_def)

lemma read_tag_escaped: "plain_name k \<Longrightarrow> tag_safe v \<Longrightarrow> ilp_stop d \<Longrightarrow>
    read_tag (CHR '','' # k @ CHR ''='' # escape v @ d # r) = Some ((k, v), d # r)"
  by (simp add: read_tag_def read_name_plain read_name_escape ilp_stop_def ilp_special_def)

text \<open>The row a point becomes.\<close>

definition row_of :: "string \<Rightarrow> data_point \<Rightarrow> 64 word \<Rightarrow> ilp_row" where
  "row_of table p ts = \<lparr>i_Table = table,
     i_Tags = [(''device'', dp_Device p), (''sensor'', dp_Sensor p), (''metric'', dp_Metric p)],
     i_Field = ''value'', i_Value = formatFloat (dp_Value p), i_Time = show_int (sint ts)\<rparr>"

definition point_safe :: "data_point \<Rightarrow> bool" where
  "point_safe p \<longleftrightarrow> tag_safe (dp_Device p) \<and> tag_safe (dp_Sensor p) \<and> tag_safe (dp_Metric p)"

lemma read_row_ilp:
  assumes "plain_name table" and "point_safe p"
  shows "read_row 3 (ilp_text table p ts @ newline # r) = Some (row_of table p ts, r)"
proof -
  have num: "plain_name (formatFloat (dp_Value p))" "plain_name (show_int (sint ts))"
    by (simp_all add: formatFloat_def plain_number format_f_chars show_int_chars)
  have stops: "ilp_stop CHR '' ''" "ilp_stop CHR '',''" "ilp_stop CHR ''=''" "ilp_stop newline"
    by (simp_all add: ilp_stop_def ilp_special_def)
  let ?f = "CHR '' '' # ''value'' @ CHR ''='' # formatFloat (dp_Value p) @ CHR '' '' # show_int (sint ts) @ newline # r"
  have f: "read_fields ?f = Some (''value'', formatFloat (dp_Value p), show_int (sint ts), r)"
    unfolding read_fields_def by (simp only: expect_hit option.case read_name_plain num plain_lits stops Let_def prod.case)
  have t: "read_tag (CHR '','' # k @ CHR ''='' # escape v @ d # x) = Some ((k, v), d # x)"
    if "plain_name k" "tag_safe v" "ilp_stop d" for k v d x
    by (rule read_tag_escaped [OF that])
  have text_eq: "ilp_text table p ts @ newline # r = table @ CHR '','' # ''device'' @ CHR ''='' # escape (dp_Device p)
      @ CHR '','' # ''sensor'' @ CHR ''='' # escape (dp_Sensor p) @ CHR '','' # ''metric'' @ CHR ''='' # escape (dp_Metric p) @ ?f"
    by (simp add: ilp_text_def)
  show ?thesis
    unfolding text_eq read_row_def
    using assms by (simp only: read_name_plain stops numeral_3_eq_3 read_tags.simps t plain_lits point_safe_def f Let_def prod.case
        option.case option.map row_of_def)
qed

text \<open>The timestamp a line carries.\<close>

definition stamp :: "data_point \<Rightarrow> 64 word \<Rightarrow> 64 word" where
  "stamp p now = (if sint (dp_Timestamp p) \<le> 0 then now else dp_Timestamp p)"

fun rows_from :: "string \<Rightarrow> (nat \<Rightarrow> 64 word) \<Rightarrow> nat \<Rightarrow> data_point list \<Rightarrow> ilp_row list" where
  "rows_from table clk i [] = []"
| "rows_from table clk i (p # ps) = row_of table p (stamp p (clk i)) # rows_from table clk (Suc i) ps"

lemma line_stamp: "line table now p = ilp_text table p (stamp p now)"
  by (simp add: line_def stamp_def Let_def)

lemma read_payload:
  "plain_name table \<Longrightarrow> list_all point_safe pts \<Longrightarrow>
   read_rows (length pts) (payload_from table clk i pts) = Some (rows_from table clk i pts)"
  by (induction pts arbitrary: i) (simp_all add: line_stamp read_row_ilp)

text \<open>A row with its numbers read.\<close>

definition decode_row :: "ilp_row \<Rightarrow> string \<times> (string \<times> string) list \<times> string \<times> (f64 \<times> num_error option) \<times> int option" where
  "decode_row row = (i_Table row, i_Tags row, i_Field row, parse_float (i_Value row), parse_int64 (i_Time row))"

definition reading_of :: "string \<Rightarrow> 64 word \<Rightarrow> data_point \<Rightarrow> string \<times> (string \<times> string) list \<times> string \<times> (f64 \<times> num_error option) \<times> int option" where
  "reading_of table now p = (table, [(''device'', dp_Device p), (''sensor'', dp_Sensor p), (''metric'', dp_Metric p)], ''value'',
     (dp_Value p, None), Some (sint (stamp p now)))"

fun readings_from :: "string \<Rightarrow> (nat \<Rightarrow> 64 word) \<Rightarrow> nat \<Rightarrow> data_point list \<Rightarrow>
    (string \<times> (string \<times> string) list \<times> string \<times> (f64 \<times> num_error option) \<times> int option) list" where
  "readings_from table clk i [] = []"
| "readings_from table clk i (p # ps) = reading_of table (clk i) p # readings_from table clk (Suc i) ps"

lemma decode_rows:
  "list_all (\<lambda>p. f64_finite (dp_Value p)) pts \<Longrightarrow> map decode_row (rows_from table clk i pts) = readings_from table clk i pts"
proof (induction pts arbitrary: i)
  case Nil
  then show ?case by simp
next
  case (Cons p pts)
  have "- (2 ^ 63) \<le> sint w \<and> sint w < 2 ^ 63" for w :: "64 word"
    using sint_greater_eq [of w] sint_less [of w] by simp
  then have "parse_int64 (show_int (sint (stamp p (clk i)))) = Some (sint (stamp p (clk i)))"
    by (simp add: parse_show_int)
  with Cons show ?case
    by (simp add: decode_row_def reading_of_def row_of_def formatFloat_def format_f_parses)
qed

text \<open>What a run of batches did, for each: the world, the points and the result.\<close>

definition batch_on_wire :: "string \<Rightarrow> (write_env \<times> data_point list) \<Rightarrow> string option \<Rightarrow> string \<Rightarrow> bool" where
  "batch_on_wire table b res w \<longleftrightarrow>
     (let text = payload_from table (e_clock (fst b)) 0 (snd b) in if res = None then w = text else (\<exists>n. w = take n text))"

text \<open>One connection at a time, numbered by the dials.\<close>

definition conn_wf :: "questdb \<Rightarrow> bool" where
  "conn_wf q \<longleftrightarrow> (case q_conn q of None \<Rightarrow> True | Some c \<Rightarrow> Suc c = q_next q)"

lemma WriteBatch_conn_wf: "conn_wf q \<Longrightarrow> conn_wf (fst (WriteBatch ev pts q))"
  by (auto simp: conn_wf_def WriteBatch_def Let_def dial_conn_def send_payload_def split: option.splits if_splits)

lemma after_conn_wf: "conn_wf q \<Longrightarrow> conn_wf (questdb.after bs q)"
  by (induction bs arbitrary: q) (auto simp: WriteBatch_conn_wf)

lemma NewQuestDB_start: "on_wire (NewQuestDB cfg) = []" "conn_wf (NewQuestDB cfg)"
  by (simp_all add: NewQuestDB_def on_wire_def conn_wf_def Let_def)

subsection \<open>Properties\<close>

text \<open>C7. Writing and reading back: when a batch of points with finite values and names without
  backslash or newline is accepted, the bytes it adds to the wire read back, by the rules of the
  line protocol, as exactly these points: the table, the three tags, the value as the same 64-bit
  float and the timestamp, with the clock in place of a missing one.\<close>

theorem ilp_batch_roundtrip:
  assumes "plain_name (q_Table (q_cfg q))" and "list_all point_safe pts" and "list_all (\<lambda>p. f64_finite (dp_Value p)) pts"
    and "WriteBatch ev pts q = (q', None)"
  shows "\<exists>w rows. on_wire q' = on_wire q @ w \<and> read_rows (length pts) w = Some rows
    \<and> map decode_row rows = readings_from (q_Table (q_cfg q)) (e_clock ev) 0 pts"
  using questdb.accepted [OF assms(4)] read_payload [OF assms(1,2)] decode_rows [OF assms(3)]
  unfolding questdb_rendering_def by blast

definition calm :: write_env where
  "calm = \<lparr>e_dial = None, e_setdl = None, e_write = None, e_ctx = None, e_now = 0, e_clock = (\<lambda>_. 1)\<rparr>"

definition spaced_point :: data_point where
  "spaced_point = New_point ''rack 1,a=b'' ''inlet'' MetricTemperature f64_50 7"

theorem ilp_batch_roundtrip_witness:
  "\<exists>w rows. on_wire (fst (WriteBatch calm [spaced_point] (NewQuestDB \<lparr>q_Address = [], q_Table = []\<rparr>))) = [] @ w
    \<and> read_rows 1 w = Some rows
    \<and> map decode_row rows = [(''readings'', [(''device'', ''rack 1,a=b''), (''sensor'', ''inlet''), (''metric'', ''temperature'')],
         ''value'', (f64_50, None), Some 7)]"
proof -
  let ?q = "NewQuestDB \<lparr>q_Address = [], q_Table = []\<rparr>"
  have q: "q_Table (q_cfg ?q) = ''readings''" "on_wire ?q = []"
    by (simp_all add: NewQuestDB_def on_wire_def)
  have plain: "plain_name ''readings''"
    by (simp add: plain_name_def ilp_stop_def ilp_special_def)
  have pts: "list_all point_safe [spaced_point]" "list_all (\<lambda>p. f64_finite (dp_Value p)) [spaced_point]"
    by (simp_all add: point_safe_def tag_safe_def spaced_point_def New_point_def f64_eval f64_50_def)
  have ok: "WriteBatch calm [spaced_point] ?q = (fst (WriteBatch calm [spaced_point] ?q), None)"
    by (simp add: WriteBatch_def calm_def dial_conn_def send_payload_def NewQuestDB_def Let_def)
  show ?thesis
    using ilp_batch_roundtrip [OF _ pts ok, unfolded q, OF plain]
    by (simp add: reading_of_def stamp_def spaced_point_def New_point_def)
qed

text \<open>Batches reach the wire in order and are not mixed: for every run of batches on a fresh
  writer, whatever dials, deadlines and writes fail, the wire holds the text of each accepted batch
  whole and a prefix of each refused one, in the order of the calls, and the writer uses one
  connection at a time, the one dialed last.\<close>

lemma questdb_batches_in_order:
  "\<exists>ws. on_wire (questdb.after bs (NewQuestDB cfg)) = concat ws
    \<and> length ws = length bs
    \<and> list_all (\<lambda>i. batch_on_wire (q_Table (q_cfg (NewQuestDB cfg))) (bs ! i) (questdb.results bs (NewQuestDB cfg) ! i) (ws ! i)) [0..<length bs]
    \<and> conn_wf (questdb.after bs (NewQuestDB cfg))"
proof -
  obtain ws where ws: "on_wire (questdb.after bs (NewQuestDB cfg)) = on_wire (NewQuestDB cfg) @ concat ws" "length ws = length bs"
    "\<forall>i < length bs. (\<exists>n. ws ! i = take n (questdb_rendering (fst (bs ! i)) (NewQuestDB cfg) (snd (bs ! i))))
       \<and> (questdb.results bs (NewQuestDB cfg) ! i = None \<longrightarrow> ws ! i = questdb_rendering (fst (bs ! i)) (NewQuestDB cfg) (snd (bs ! i)))"
    using questdb.wire_after by blast
  then show ?thesis
    by (intro exI [of _ ws])
      (auto simp: NewQuestDB_start after_conn_wf list_all_iff batch_on_wire_def Let_def questdb_rendering_def)
qed

subsection \<open>What the escaping leaves out\<close>

text \<open>A newline in a device name ends the line early, and what follows it is the table name of a
  second, well-formed line: the reading goes to another table.\<close>

lemma newline_redirects_point:
  assumes "dp_Device p = d1 @ newline # d2" and "plain_name d2" and "tag_safe (dp_Sensor p)" and "tag_safe (dp_Metric p)"
  shows "\<exists>rest row. ilp_text table p ts @ [newline] = table @ '',device='' @ escape d1 @ newline # rest
     \<and> read_row 2 rest = Some (row, []) \<and> i_Table row = d2 \<and> i_Value row = formatFloat (dp_Value p)"
proof -
  have num: "plain_name (formatFloat (dp_Value p))" "plain_name (show_int (sint ts))"
    by (simp_all add: formatFloat_def plain_number format_f_chars show_int_chars)
  have stops: "ilp_stop CHR '' ''" "ilp_stop CHR '',''" "ilp_stop CHR ''=''" "ilp_stop newline"
    by (simp_all add: ilp_stop_def ilp_special_def)
  let ?f = "CHR '' '' # ''value'' @ CHR ''='' # formatFloat (dp_Value p) @ CHR '' '' # show_int (sint ts) @ newline # []"
  let ?rest = "d2 @ CHR '','' # ''sensor'' @ CHR ''='' # escape (dp_Sensor p) @ CHR '','' # ''metric'' @ CHR ''='' # escape (dp_Metric p) @ ?f"
  have f: "read_fields ?f = Some (''value'', formatFloat (dp_Value p), show_int (sint ts), [])"
    unfolding read_fields_def by (simp only: expect_hit option.case read_name_plain num plain_lits stops Let_def prod.case)
  have "read_row 2 ?rest = Some (\<lparr>i_Table = d2, i_Tags = [(''sensor'', dp_Sensor p), (''metric'', dp_Metric p)],
      i_Field = ''value'', i_Value = formatFloat (dp_Value p), i_Time = show_int (sint ts)\<rparr>, [])"
    unfolding read_row_def using assms(2-4)
    by (simp only: read_name_plain stops numeral_2_eq_2 read_tags.simps read_tag_escaped plain_lits f Let_def prod.case option.case option.map)
  moreover have "escape (d1 @ newline # d2) = escape d1 @ newline # d2"
    using assms(2) by (induction d1) (auto simp: ilp_special_def)
  then have "ilp_text table p ts @ [newline] = table @ '',device='' @ escape d1 @ newline # ?rest"
    using assms(1) by (simp add: ilp_text_def)
  ultimately show ?thesis by fastforce
qed

text \<open>A backslash at the end of a device name takes the meaning off the comma after it, and the line is
  not well-formed any more.\<close>

lemma read_name_swallows:
  "plain_name d \<Longrightarrow> plain_name k \<Longrightarrow>
   read_name (d @ backslash # CHR '','' # k @ CHR ''='' # r) = (d @ CHR '','' # k, CHR ''='' # r)"
proof (induction d)
  case Nil
  then show ?case
    using read_name_plain [of k "CHR ''=''" r] by (simp add: ilp_special_def ilp_stop_def)
next
  case (Cons c d)
  then have "c \<noteq> backslash" "\<not> ilp_stop c" "plain_name d"
    by (simp_all add: plain_name_def)
  then show ?case
    using Cons by (cases "d @ backslash # CHR '','' # k @ CHR ''='' # r") auto
qed

lemma trailing_backslash_breaks_line:
  assumes "plain_name table" and "dp_Device p = d @ [backslash]" and "plain_name d"
  shows "read_row 3 (ilp_text table p ts @ newline # r) = None"
proof -
  have stops: "ilp_stop CHR '',''" "ilp_stop CHR ''=''"
    by (simp_all add: ilp_stop_def ilp_special_def)
  have esc: "escape (d @ [backslash]) = d @ [backslash]"
    using assms(3) by (induction d) (auto simp: plain_name_def ilp_stop_def ilp_special_def)
  obtain x where t: "ilp_text table p ts @ newline # r =
      table @ CHR '','' # ''device'' @ CHR ''='' # d @ backslash # CHR '','' # ''sensor'' @ CHR ''='' # x"
    by (simp add: ilp_text_def assms(2) esc)
  have miss: "expect CHR '','' (CHR ''='' # y) = None" for y
    by (simp add: expect_def)
  show ?thesis
    unfolding t read_row_def using assms(1,3)
    by (simp only: read_name_plain stops numeral_3_eq_3 read_tags.simps read_tag_def expect_hit plain_lits read_name_swallows miss
        Let_def prod.case option.case option.map)
qed

text \<open>A failed write forgets the connection without closing it, and \<open>Close\<close> cannot close it any more.\<close>

lemma write_error_leaks_connection:
  assumes "q_conn q = Some c" and "pts \<noteq> []" and "e_setdl ev = None" and "e_write ev = Some (n, err)"
  shows "\<exists>q'. WriteBatch ev pts q = (q', Some (''questdb: write: '' @ err)) \<and> Close None q' = (q', None)
     \<and> (Closed c \<in> set (q_net q') \<longrightarrow> Closed c \<in> set (q_net q))"
  using assms by (simp add: WriteBatch_def dial_conn_def send_payload_def Close_def Let_def)

text \<open>The two renderings of one point differ: the log writer keeps a missing timestamp.\<close>

lemma show_int_inj64: "show_int (sint (a :: 64 word)) = show_int (sint b) \<longleftrightarrow> a = b"
proof -
  have "parse_int64 (show_int (sint w)) = Some (sint w)" for w :: "64 word"
    using sint_greater_eq [of w] sint_less [of w] by (simp add: parse_show_int)
  then show ?thesis
    by (metis option.inject signed_word_eqI)
qed

lemma log_keeps_missing_time:
  assumes "dp_Timestamp p = 0" and "now \<noteq> 0"
  shows "log_payload table [p] \<noteq> payload_from table (\<lambda>_. now) 0 [p]"
  using assms show_int_inj64 [of 0 now] by (auto simp: log_payload_def line_stamp stamp_def ilp_text_def)

end
