(* ===== verification/Go_Text.thy ===== *)
theory Go_Text
  imports Go_Strconv
begin

text \<open>
  More of Go's string functions: \<open>strings.TrimSpace\<close>, \<open>strings.Split\<close> at one byte,
  \<open>strings.ToLower\<close> as far as a comparison with ASCII text can tell, the lines of a
  \<open>bufio.Scanner\<close>, and the runes of a string.
\<close>

text \<open>\<open>strings.TrimSpace\<close>: spaces of one, two or three bytes, at both ends.\<close>

function trim_left :: "string \<Rightarrow> string" where
  "trim_left s = (if s = [] \<or> space_len s = 0 then s else trim_left (drop (space_len s) s))"
  by pat_completeness auto
termination
  by (relation "measure length") auto

declare trim_left.simps [simp del]

definition trail_len :: "string \<Rightarrow> nat" where
  "trail_len s = (case map of_char (rev s) of
       c # t \<Rightarrow>
         if c = 32 \<or> (9 \<le> c \<and> c \<le> 13) then 1
         else (case t of b # t' \<Rightarrow>
             if space2 b c then 2
             else (case t' of a # _ \<Rightarrow> if space3 a b c then 3 else 0 | [] \<Rightarrow> 0)
           | [] \<Rightarrow> 0)
     | [] \<Rightarrow> (0::nat))"

function trim_right :: "string \<Rightarrow> string" where
  "trim_right s = (if s = [] \<or> trail_len s = 0 then s else trim_right (take (length s - trail_len s) s))"
  by pat_completeness auto
termination
  by (relation "measure length") auto

declare trim_right.simps [simp del]

definition trim_space :: "string \<Rightarrow> string" where
  "trim_space s = trim_right (trim_left s)"

lemma trim_space_id: "space_len s = 0 \<Longrightarrow> trail_len s = 0 \<Longrightarrow> trim_space s = s"
  by (simp add: trim_space_def trim_left.simps [of s] trim_right.simps [of s])

text \<open>\<open>strings.Split(s, c)\<close>: the pieces between the occurrences of a byte, at least one.\<close>

fun split_at :: "char \<Rightarrow> string \<Rightarrow> string list" where
  "split_at sep [] = [[]]"
| "split_at sep (c # cs) = (if c = sep then [] # split_at sep cs
     else (case split_at sep cs of [] \<Rightarrow> [[c]] | l # ls \<Rightarrow> (c # l) # ls))"

lemma split_at_nonempty [simp]: "split_at sep s \<noteq> []"
  by (induction s) (auto split: list.splits)

text \<open>
  Lower case, for comparison with ASCII text: the ASCII letters, and the two runes whose lower
  case is ASCII, U+0130 and the Kelvin sign U+212A. Every other rune stays outside ASCII.
\<close>

fun to_lower :: "string \<Rightarrow> string" where
  "to_lower [] = []"
| "to_lower (c # cs) =
     (if of_char c = (0xC4::nat) \<and> cs \<noteq> [] \<and> of_char (hd cs) = (0xB0::nat) then CHR ''i'' # to_lower (tl cs)
      else if of_char c = (0xE2::nat) \<and> 2 \<le> length cs \<and> of_char (hd cs) = (0x84::nat) \<and> of_char (cs ! 1) = (0xAA::nat)
        then CHR ''k'' # to_lower (drop 2 cs)
      else ascii_lower c # to_lower cs)"

text \<open>
  \<open>bufio.Scanner\<close> with its default split and buffer: a final empty line is not a line, a carriage
  return at the end of a line is dropped, and a line of 65536 bytes or more ends the scan.
\<close>

definition drop_cr :: "string \<Rightarrow> string" where
  "drop_cr l = (if l \<noteq> [] \<and> last l = CHR 0x0D then butlast l else l)"

definition scan_lines :: "string \<Rightarrow> string list" where
  "scan_lines s =
     (let ls = split_at (CHR 0x0A) s; ls = (if last ls = [] then butlast ls else ls)
      in map drop_cr (takeWhile (\<lambda>l. length l < 65536) ls))"

subsection \<open>Runes\<close>

text \<open>The rune at the start of a string: its length in bytes, 0 when the bytes are not UTF-8.\<close>

definition cont :: "string \<Rightarrow> nat \<Rightarrow> nat \<Rightarrow> nat \<Rightarrow> bool" where
  "cont s i lo hi \<longleftrightarrow> i < length s \<and> lo \<le> of_char (s ! i) \<and> of_char (s ! i) \<le> hi"

definition rune_len :: "string \<Rightarrow> nat" where
  "rune_len s = (let b = of_char (hd s) :: nat in
     if b < 0x80 then 1
     else if 0xC2 \<le> b \<and> b \<le> 0xDF then (if cont s 1 0x80 0xBF then 2 else 0)
     else if 0xE0 \<le> b \<and> b \<le> 0xEF then
       (if cont s 1 (if b = 0xE0 then 0xA0 else 0x80) (if b = 0xED then 0x9F else 0xBF) \<and> cont s 2 0x80 0xBF then 3 else 0)
     else if 0xF0 \<le> b \<and> b \<le> 0xF4 then
       (if cont s 1 (if b = 0xF0 then 0x90 else 0x80) (if b = 0xF4 then 0x8F else 0xBF) \<and> cont s 2 0x80 0xBF \<and> cont s 3 0x80 0xBF
        then 4 else 0)
     else 0)"

definition replacement_rune :: string where
  "replacement_rune = [CHR 0xEF, CHR 0xBF, CHR 0xBD]"

text \<open>\<open>string(r)\<close> of the first rune, and what follows it.\<close>

definition first_rune :: "string \<Rightarrow> string \<times> string" where
  "first_rune s = (if rune_len s = 0 then (replacement_rune, tl s) else (take (rune_len s) s, drop (rune_len s) s))"

lemma first_rune_shorter: "s \<noteq> [] \<Longrightarrow> length (snd (first_rune s)) < length s"
  by (cases s) (auto simp: first_rune_def)

text \<open>A string with every byte that is no part of a rune replaced: what \<open>range\<close> over it reads and what encoding/json writes of it.\<close>

function runes_text :: "string \<Rightarrow> string" where
  "runes_text s = (if s = [] then [] else fst (first_rune s) @ runes_text (snd (first_rune s)))"
  by pat_completeness auto
termination
  by (relation "measure length") (auto intro: first_rune_shorter)

declare runes_text.simps [simp del]

lemma runes_text_Nil [simp]: "runes_text [] = []"
  by (simp add: runes_text.simps)

lemma cont_high: "cont s i lo hi \<Longrightarrow> 0x80 \<le> lo \<Longrightarrow> i < length s \<and> s ! i \<noteq> CHR '',''"
  by (auto simp: cont_def)

lemma take_no_comma: "(\<forall>i<n. i < length s \<and> s ! i \<noteq> CHR '','') \<Longrightarrow> CHR '','' \<notin> set (take n s)"
  by (auto simp: in_set_conv_nth)

lemma rune_conts:
  "2 \<le> rune_len s \<Longrightarrow> \<exists>lo hi. cont s 1 lo hi \<and> 0x80 \<le> lo"
  "3 \<le> rune_len s \<Longrightarrow> \<exists>lo hi. cont s 2 lo hi \<and> 0x80 \<le> lo"
  "4 \<le> rune_len s \<Longrightarrow> \<exists>lo hi. cont s 3 lo hi \<and> 0x80 \<le> lo"
  "rune_len s \<le> 4"
proof -
  have e: "cont s i (if b then lo else 0x80) hi \<Longrightarrow> 0x80 \<le> lo \<Longrightarrow> \<exists>lo hi. cont s i lo hi \<and> 0x80 \<le> lo" for i b lo hi
    by (cases b) auto
  show "2 \<le> rune_len s \<Longrightarrow> \<exists>lo hi. cont s 1 lo hi \<and> 0x80 \<le> lo"
    unfolding rune_len_def Let_def using e by (fastforce split: if_split_asm)
  show "3 \<le> rune_len s \<Longrightarrow> \<exists>lo hi. cont s 2 lo hi \<and> 0x80 \<le> lo"
    unfolding rune_len_def Let_def by (fastforce split: if_split_asm)
  show "4 \<le> rune_len s \<Longrightarrow> \<exists>lo hi. cont s 3 lo hi \<and> 0x80 \<le> lo"
    unfolding rune_len_def Let_def by (fastforce split: if_split_asm)
  show "rune_len s \<le> 4"
    unfolding rune_len_def Let_def by simp
qed

lemma rune_no_comma:
  assumes "s \<noteq> []" "hd s \<noteq> CHR '',''"
  shows "CHR '','' \<notin> set (take (rune_len s) s)"
proof (rule take_no_comma, intro allI impI)
  fix i
  assume i: "i < rune_len s"
  then consider "i = 0" | "i = 1" | "i = 2" | "i = 3"
    using rune_conts(4) [of s] by linarith
  then show "i < length s \<and> s ! i \<noteq> CHR '',''"
    using i rune_conts(1,2,3) [of s] cont_high [of s i] assms by cases (auto simp: hd_conv_nth)
qed

lemma first_rune_comma: "s \<noteq> [] \<Longrightarrow> fst (first_rune s) \<noteq> '','' \<Longrightarrow> CHR '','' \<notin> set (fst (first_rune s))"
proof (cases "hd s = CHR '',''")
  case True
  assume "s \<noteq> []" "fst (first_rune s) \<noteq> '',''"
  then show ?thesis
    using True by (cases s) (simp_all add: first_rune_def rune_len_def)
qed (simp add: first_rune_def replacement_rune_def rune_no_comma)

lemma runes_text_ascii: "list_all (\<lambda>c. of_char c < (0x80::nat)) s \<Longrightarrow> runes_text s = s"
  by (induction s) (simp_all add: runes_text.simps [of "x # xs" for x xs] first_rune_def rune_len_def)

end
