(* ===== verification/QuestDB_Client.thy ===== *)
theory QuestDB_Client
  imports Go_Json Go_Text
begin

text \<open>
  go-telemetry/internal/questdb/{client,schema,retention}.go: the REST client of the time-series
  database, the schema it installs, and the retention and downsampling statements. The database
  is not under src/: what it answers, as a function of the requests it has seen, is the argument
  \<open>db\<close> of the environment, and the state threaded through the calls is the list of requests sent.
\<close>

subsection \<open>Texts\<close>

abbreviation newl :: string where "newl \<equiv> [CHR 0x0A]"
abbreviation quot :: string where "quot \<equiv> [CHR 0x27]"
abbreviation tab2 :: string where "tab2 \<equiv> [CHR 0x09, CHR 0x09]"

definition lines_of :: "string list \<Rightarrow> string" where
  "lines_of ls = (case ls of [] \<Rightarrow> [] | l # r \<Rightarrow> l @ concat (map (\<lambda>x. newl @ x) r))"

subsection \<open>client.go\<close>

record column =
  col_Name :: string
  col_Type :: string

record result =
  res_Query :: string
  res_Columns :: "column list"
  res_Dataset :: "any list list"
  res_Count :: int
  res_Error :: string

text \<open>Decoding a body into \<open>Result\<close>: each field and whether its values had the right types.\<close>

fun set_column :: "json \<Rightarrow> column \<times> bool" where
  "set_column (JObj kvs) =
     (\<lparr>col_Name = fst (fold_field set_string ''name'' kvs ([], True)), col_Type = fst (fold_field set_string ''type'' kvs ([], True))\<rparr>,
      snd (fold_field set_string ''name'' kvs ([], True)) \<and> snd (fold_field set_string ''type'' kvs ([], True)))"
| "set_column JNull = (\<lparr>col_Name = [], col_Type = []\<rparr>, True)"
| "set_column _ = (\<lparr>col_Name = [], col_Type = []\<rparr>, False)"

fun set_columns :: "json \<Rightarrow> column list \<Rightarrow> column list \<times> bool" where
  "set_columns (JArr js) old = (map (fst \<circ> set_column) js, list_all (snd \<circ> set_column) js)"
| "set_columns JNull old = ([], True)"
| "set_columns _ old = (old, False)"

fun set_row :: "json \<Rightarrow> any list \<times> bool" where
  "set_row (JArr js) = (map (\<lambda>j. fst (set_any j ANil)) js, list_all (\<lambda>j. snd (set_any j ANil)) js)"
| "set_row JNull = ([], True)"
| "set_row _ = ([], False)"

fun set_dataset :: "json \<Rightarrow> any list list \<Rightarrow> any list list \<times> bool" where
  "set_dataset (JArr js) old = (map (fst \<circ> set_row) js, list_all (snd \<circ> set_row) js)"
| "set_dataset JNull old = ([], True)"
| "set_dataset _ old = (old, False)"

fun set_int :: "json \<Rightarrow> int \<Rightarrow> int \<times> bool" where
  "set_int (JNum l) old = (case parse_int64 l of Some i \<Rightarrow> (i, True) | None \<Rightarrow> (old, False))"
| "set_int JNull old = (old, True)"
| "set_int _ old = (old, False)"

definition decode_result :: "json option \<Rightarrow> result option" where
  "decode_result body =
     (let (q, ok1) = get_field set_string [] ''query'' body; (cs, ok2) = get_field set_columns [] ''columns'' body;
          (ds, ok3) = get_field set_dataset [] ''dataset'' body; (n, ok4) = get_field set_int 0 ''count'' body;
          (e, ok5) = get_field set_string [] ''error'' body
      in if ok1 \<and> ok2 \<and> ok3 \<and> ok4 \<and> ok5
         then Some \<lparr>res_Query = q, res_Columns = cs, res_Dataset = ds, res_Count = n, res_Error = e\<rparr> else None)"

record client =
  BaseURL :: string

definition NewClient :: "string \<Rightarrow> client" where
  "NewClient baseURL = \<lparr>BaseURL = rev (dropWhile (\<lambda>c. c = CHR ''/'') (rev baseURL))\<rparr>"

text \<open>
  What becomes of a request: it cannot be built, the transport fails, the body cannot be read, or
  a reply with its status, its bytes and, when they are JSON, their value.
\<close>

datatype outcome = ReqErr string | DoErr string | ReadErr nat string | Reply nat string "json option"

text \<open>A request that went out: its URL and, for \<open>/exec\<close>, the statement in its form.\<close>

datatype sent_request = SentSQL string string | SentStatus string

record qdb_env =
  db :: "sent_request list \<Rightarrow> sent_request \<Rightarrow> outcome"
  decode_err :: "string \<Rightarrow> string"
  quote_text :: "string \<Rightarrow> string"

definition Exec :: "qdb_env \<Rightarrow> client \<Rightarrow> string \<Rightarrow> sent_request list \<Rightarrow> sent_request list \<times> (string + result)" where
  "Exec ev c sql h =
     (let rq = SentSQL (BaseURL c @ ''/exec'') sql
      in case db ev h rq of
           ReqErr e \<Rightarrow> (h, Inl e)
         | DoErr e \<Rightarrow> (h @ [rq], Inl (''questdb: exec: '' @ e))
         | ReadErr status e \<Rightarrow> (h @ [rq], Inl (''questdb: read: '' @ e))
         | Reply status body j \<Rightarrow> (h @ [rq],
             (case decode_result j of
                None \<Rightarrow> Inl (''questdb: decode (status '' @ show_nat status @ ''): '' @ decode_err ev body @ '': '' @ body)
              | Some r \<Rightarrow>
                  if res_Error r \<noteq> [] then Inl (''questdb: '' @ res_Error r)
                  else if 400 \<le> status then Inl (''questdb: http '' @ show_nat status @ '': '' @ body)
                  else Inr r)))"

definition statement_error :: "qdb_env \<Rightarrow> string \<Rightarrow> string \<Rightarrow> string" where
  "statement_error ev s err = ''questdb: statement '' @ quote_text ev s @ '': '' @ err"

fun ExecMany :: "qdb_env \<Rightarrow> client \<Rightarrow> string list \<Rightarrow> sent_request list \<Rightarrow> sent_request list \<times> string option" where
  "ExecMany ev c [] h = (h, None)"
| "ExecMany ev c (s # stmts) h =
     (let s = trim_space s
      in if s = [] then ExecMany ev c stmts h
         else case Exec ev c s h of
             (h', Inl err) \<Rightarrow> (h', Some (statement_error ev s err))
           | (h', Inr r) \<Rightarrow> ExecMany ev c stmts h')"

definition Ping :: "qdb_env \<Rightarrow> client \<Rightarrow> sent_request list \<Rightarrow> sent_request list \<times> string option" where
  "Ping ev c h =
     (let rq = SentStatus (BaseURL c @ ''/status'')
      in case db ev h rq of
           ReqErr e \<Rightarrow> (h, Some e)
         | DoErr e \<Rightarrow> (h @ [rq], Some (''questdb: ping: '' @ e))
         | ReadErr status e \<Rightarrow> (h @ [rq], if status \<noteq> 200 then Some (''questdb: ping status '' @ show_nat status) else None)
         | Reply status body j \<Rightarrow> (h @ [rq], if status \<noteq> 200 then Some (''questdb: ping status '' @ show_nat status) else None))"

subsection \<open>schema.go\<close>

definition Schema :: "string list" where
  "Schema =
    [lines_of [''CREATE TABLE IF NOT EXISTS readings ('',
        tab2 @ ''ts     TIMESTAMP,'',
        tab2 @ ''device SYMBOL CAPACITY 1024 CACHE,'',
        tab2 @ ''sensor SYMBOL CAPACITY 4096 CACHE,'',
        tab2 @ ''metric SYMBOL CAPACITY 64  CACHE,'',
        tab2 @ ''value  DOUBLE,'',
        tab2 @ ''unit   SYMBOL CAPACITY 32  CACHE'',
        [CHR 0x09] @ '') TIMESTAMP(ts) PARTITION BY DAY WAL'',
        [CHR 0x09] @ ''  DEDUP UPSERT KEYS(ts, device, sensor, metric)''],
     lines_of [''CREATE TABLE IF NOT EXISTS readings_1m ('',
        tab2 @ ''ts     TIMESTAMP,'',
        tab2 @ ''device SYMBOL CAPACITY 1024 CACHE,'',
        tab2 @ ''sensor SYMBOL CAPACITY 4096 CACHE,'',
        tab2 @ ''metric SYMBOL CAPACITY 64  CACHE,'',
        tab2 @ ''avg    DOUBLE,'',
        tab2 @ ''min    DOUBLE,'',
        tab2 @ ''max    DOUBLE,'',
        tab2 @ ''count  LONG'',
        [CHR 0x09] @ '') TIMESTAMP(ts) PARTITION BY MONTH WAL''],
     lines_of [''CREATE TABLE IF NOT EXISTS readings_1h ('',
        tab2 @ ''ts     TIMESTAMP,'',
        tab2 @ ''device SYMBOL CAPACITY 1024 CACHE,'',
        tab2 @ ''sensor SYMBOL CAPACITY 4096 CACHE,'',
        tab2 @ ''metric SYMBOL CAPACITY 64  CACHE,'',
        tab2 @ ''avg    DOUBLE,'',
        tab2 @ ''min    DOUBLE,'',
        tab2 @ ''max    DOUBLE,'',
        tab2 @ ''count  LONG'',
        [CHR 0x09] @ '') TIMESTAMP(ts) PARTITION BY YEAR WAL''],
     lines_of [''CREATE TABLE IF NOT EXISTS devices ('',
        tab2 @ ''device    SYMBOL CAPACITY 1024 CACHE,'',
        tab2 @ ''kind      SYMBOL CAPACITY 32  CACHE,'',
        tab2 @ ''first_seen TIMESTAMP,'',
        tab2 @ ''last_seen  TIMESTAMP'',
        [CHR 0x09] @ '') TIMESTAMP(first_seen) PARTITION BY YEAR WAL'']]"

definition Apply :: "qdb_env \<Rightarrow> client \<Rightarrow> sent_request list \<Rightarrow> sent_request list \<times> string option" where
  "Apply ev c h = ExecMany ev c Schema h"

definition escapeSQL :: "string \<Rightarrow> string" where
  "escapeSQL s = replace_char (CHR 0x27) (quot @ quot) s"

definition tsNanos :: "64 word \<Rightarrow> string" where
  "tsNanos ns = ''to_timestamp('' @ show_int (sint ns) @ '', '' @ quot @ ''ns'' @ quot @ '')''"

definition upsert_sql :: "string \<Rightarrow> string \<Rightarrow> 64 word \<Rightarrow> 64 word \<Rightarrow> string" where
  "upsert_sql device kind firstSeenNs lastSeenNs =
     ''INSERT INTO devices (device, kind, first_seen, last_seen) VALUES ('' @ quot
     @ escapeSQL device @ quot @ '', '' @ quot @ escapeSQL kind @ quot @ '', ''
     @ tsNanos firstSeenNs @ '', '' @ tsNanos lastSeenNs @ '')''"

definition UpsertDevice :: "qdb_env \<Rightarrow> client \<Rightarrow> string \<Rightarrow> string \<Rightarrow> 64 word \<Rightarrow> 64 word \<Rightarrow>
    sent_request list \<Rightarrow> sent_request list \<times> string option" where
  "UpsertDevice ev c device kind firstSeenNs lastSeenNs h =
     (case Exec ev c (upsert_sql device kind firstSeenNs lastSeenNs) h of
        (h', Inl err) \<Rightarrow> (h', Some err) | (h', Inr r) \<Rightarrow> (h', None))"

subsection \<open>retention.go\<close>

definition DownsampleStmt :: "string \<Rightarrow> string \<Rightarrow> string \<Rightarrow> string \<Rightarrow> string \<Rightarrow> string" where
  "DownsampleStmt rollup src dst from to = lines_of
     [''INSERT INTO '' @ dst,
      ''SELECT timestamp_floor('' @ quot @ rollup @ quot @ '', ts) ts, device, sensor, metric,'',
      ''       avg(value) avg, min(value) min, max(value) max, count(value) count'',
      ''FROM '' @ src,
      ''WHERE ts >= '' @ from @ '' AND ts < '' @ to,
      ''SAMPLE BY '' @ rollup @ '' FILL(NULL)'']"

definition RetentionDropStmt :: "string \<Rightarrow> string \<Rightarrow> string" where
  "RetentionDropStmt tbl olderThan = ''ALTER TABLE '' @ tbl @ '' DROP PARTITION WHERE ts < '' @ olderThan"

definition days_ago :: "string \<Rightarrow> string" where
  "days_ago n = ''dateadd('' @ quot @ ''d'' @ quot @ '', -'' @ n @ '', now())''"

definition MaintenancePlan :: "string \<Rightarrow> string \<Rightarrow> string list" where
  "MaintenancePlan rawRetention rollupRetention =
     [DownsampleStmt ''1m'' ''readings'' ''readings_1m'' (days_ago ''2'') (days_ago ''1''),
      DownsampleStmt ''1h'' ''readings_1m'' ''readings_1h'' (days_ago ''3'') (days_ago ''1''),
      RetentionDropStmt ''readings'' rawRetention,
      RetentionDropStmt ''readings_1m'' rollupRetention]"

definition RunMaintenance :: "qdb_env \<Rightarrow> client \<Rightarrow> string \<Rightarrow> string \<Rightarrow> sent_request list \<Rightarrow> sent_request list \<times> string option" where
  "RunMaintenance ev c rawRetention rollupRetention h = ExecMany ev c (MaintenancePlan rawRetention rollupRetention) h"

text \<open>\<open>strings.Map\<close> drops every rune that is no ASCII letter, digit or underscore, so every byte of a longer one.\<close>

definition ident_char :: "char \<Rightarrow> bool" where
  "ident_char c \<longleftrightarrow> (let n = of_char c :: nat in (97 \<le> n \<and> n \<le> 122) \<or> (65 \<le> n \<and> n \<le> 90) \<or> (48 \<le> n \<and> n \<le> 57) \<or> n = 95)"

definition sanitizeIdent :: "string \<Rightarrow> string" where
  "sanitizeIdent s = filter ident_char s"

subsection \<open>Runs of statements\<close>

definition exec_request :: "client \<Rightarrow> string \<Rightarrow> sent_request" where
  "exec_request c sql = SentSQL (BaseURL c @ ''/exec'') sql"

text \<open>A call sends its statement, except when the request cannot even be built.\<close>

lemma Exec_sends: "fst (Exec ev c sql h) = h @ [exec_request c sql] \<or> (fst (Exec ev c sql h) = h \<and> isl (snd (Exec ev c sql h)))"
  by (simp add: Exec_def Let_def exec_request_def split: outcome.split)

lemma Exec_ok_sends: "snd (Exec ev c sql h) = Inr r \<Longrightarrow> fst (Exec ev c sql h) = h @ [exec_request c sql]"
  using Exec_sends [of ev c sql h] by auto

definition statements :: "string list \<Rightarrow> string list" where
  "statements stmts = filter (\<lambda>s. s \<noteq> []) (map trim_space stmts)"

text \<open>How a run ends: after all its statements, or at the first one that fails.\<close>

definition run_ended :: "qdb_env \<Rightarrow> client \<Rightarrow> string list \<Rightarrow> sent_request list \<Rightarrow> sent_request list \<times> string option \<Rightarrow> bool" where
  "run_ended ev c ss h out = (case snd out of
       None \<Rightarrow> fst out = h @ map (exec_request c) ss
     | Some err \<Rightarrow> \<exists>done s rest e. ss = done @ s # rest
         \<and> snd (Exec ev c s (h @ map (exec_request c) done)) = Inl e
         \<and> fst out = fst (Exec ev c s (h @ map (exec_request c) done))
         \<and> err = statement_error ev s e)"

lemma run_ended_first:
  assumes "Exec ev c s h = (h', Inl e)"
  shows "run_ended ev c (s # rest) h (h', Some (statement_error ev s e))"
  unfolding run_ended_def using assms
  by (simp, intro exI [of _ "[]"] exI [of _ s] exI [of _ rest] exI [of _ e]) simp

lemma run_ended_next:
  assumes "run_ended ev c ss (h @ [exec_request c s]) out"
  shows "run_ended ev c (s # ss) h out"
proof (cases "snd out")
  case None
  then show ?thesis using assms by (simp add: run_ended_def)
next
  case (Some err)
  then obtain d s' rest e where "ss = d @ s' # rest"
    "snd (Exec ev c s' ((h @ [exec_request c s]) @ map (exec_request c) d)) = Inl e"
    "fst out = fst (Exec ev c s' ((h @ [exec_request c s]) @ map (exec_request c) d))" "err = statement_error ev s' e"
    using assms unfolding run_ended_def by auto
  then show ?thesis
    using Some unfolding run_ended_def
    by (simp, intro exI [of _ "s # d"] exI [of _ s'] exI [of _ rest] exI [of _ e]) simp
qed

lemma ExecMany_run: "run_ended ev c (statements stmts) h (ExecMany ev c stmts h)"
proof (induction stmts arbitrary: h)
  case Nil
  then show ?case by (simp add: run_ended_def statements_def)
next
  case (Cons s stmts)
  show ?case
  proof (cases "trim_space s = []")
    case True
    then show ?thesis using Cons by (simp add: statements_def)
  next
    case False
    then have ss: "statements (s # stmts) = trim_space s # statements stmts"
      by (simp add: statements_def)
    show ?thesis
    proof (cases "Exec ev c (trim_space s) h")
      case (Pair h' r)
      show ?thesis
      proof (cases r)
        case (Inl e)
        then show ?thesis
          using Pair False run_ended_first [of ev c "trim_space s" h h' e] by (simp add: ss)
      next
        case (Inr x)
        then have h': "h' = h @ [exec_request c (trim_space s)]"
          using Exec_ok_sends [of ev c "trim_space s" h x] Pair by simp
        have run: "ExecMany ev c (s # stmts) h = ExecMany ev c stmts h'"
          using Pair Inr False by simp
        show ?thesis
          unfolding run ss using Cons.IH [of h'] unfolding h' by (rule run_ended_next)
      qed
    qed
  qed
qed

subsection \<open>Literals in statements\<close>

text \<open>
  How SQL reads a statement: text outside quotes, and literals in single quotes inside which two
  quotes stand for one. None for a literal that does not end.
\<close>

datatype piece = Code string | Lit string

fun lit_end :: "string \<Rightarrow> (string \<times> string) option" where
  "lit_end [] = None"
| "lit_end [c] = (if c = CHR 0x27 then Some ([], []) else None)"
| "lit_end (c # d # cs) =
     (if c = CHR 0x27 then (if d = CHR 0x27 then map_option (\<lambda>(s, r). (c # s, r)) (lit_end cs) else Some ([], d # cs))
      else map_option (\<lambda>(s, r). (c # s, r)) (lit_end (d # cs)))"

lemma lit_end_shorter: "lit_end s = Some (l, r) \<Longrightarrow> length r < length s"
  by (induction s arbitrary: l r rule: lit_end.induct) (auto split: if_splits intro: less_SucI)

function sql_pieces :: "string \<Rightarrow> piece list option" where
  "sql_pieces s =
     (let code = takeWhile (\<lambda>c. c \<noteq> CHR 0x27) s
      in case dropWhile (\<lambda>c. c \<noteq> CHR 0x27) s of
           [] \<Rightarrow> Some [Code code]
         | q # r \<Rightarrow> (case lit_end r of None \<Rightarrow> None
             | Some (l, r') \<Rightarrow> map_option (\<lambda>ps. Code code # Lit l # ps) (sql_pieces r')))"
  by pat_completeness auto
termination
proof (relation "measure length")
  fix s code q r p l r'
  assume "dropWhile (\<lambda>c. c \<noteq> CHR 0x27) s = q # r" "lit_end r = Some p" "(l, r') = p"
  then show "(r', s) \<in> measure length"
    using lit_end_shorter [of r l r'] length_dropWhile_le [of "\<lambda>c. c \<noteq> CHR 0x27" s] by simp
qed simp

declare sql_pieces.simps [simp del]

definition no_quote_start :: "string \<Rightarrow> bool" where
  "no_quote_start r \<longleftrightarrow> (case r of [] \<Rightarrow> True | c # _ \<Rightarrow> c \<noteq> CHR 0x27)"

lemma lit_end_escaped: "no_quote_start r \<Longrightarrow> lit_end (escapeSQL s @ CHR 0x27 # r) = Some (s, r)"
proof (induction s)
  case Nil
  then show ?case by (cases r) (auto simp: escapeSQL_def no_quote_start_def)
next
  case (Cons c s)
  then show ?case
    by (cases "escapeSQL s @ CHR 0x27 # r") (auto simp: escapeSQL_def)
qed

lemma sql_pieces_literal:
  assumes "CHR 0x27 \<notin> set code" and "no_quote_start r"
  shows "sql_pieces (code @ CHR 0x27 # escapeSQL s @ CHR 0x27 # r) = map_option (\<lambda>ps. Code code # Lit s # ps) (sql_pieces r)"
proof -
  have "takeWhile (\<lambda>c. c \<noteq> CHR 0x27) (code @ CHR 0x27 # x) = code" "dropWhile (\<lambda>c. c \<noteq> CHR 0x27) (code @ CHR 0x27 # x) = CHR 0x27 # x" for x
    using assms(1) by (auto simp: takeWhile_append dropWhile_append)
  then show ?thesis
    by (subst sql_pieces.simps) (simp add: lit_end_escaped [OF assms(2)] Let_def)
qed

lemma sql_pieces_code: "CHR 0x27 \<notin> set code \<Longrightarrow> sql_pieces code = Some [Code code]"
proof -
  assume "CHR 0x27 \<notin> set code"
  then have e: "takeWhile (\<lambda>c. c \<noteq> CHR 0x27) code = code" "dropWhile (\<lambda>c. c \<noteq> CHR 0x27) code = []"
    by (auto simp: takeWhile_eq_all_conv dropWhile_eq_Nil_conv)
  show ?thesis
    by (subst sql_pieces.simps) (simp only: e Let_def list.case)
qed

subsection \<open>Maintenance\<close>

definition rollup_1m :: string where
  "rollup_1m = DownsampleStmt ''1m'' ''readings'' ''readings_1m'' (days_ago ''2'') (days_ago ''1'')"

definition rollup_1h :: string where
  "rollup_1h = DownsampleStmt ''1h'' ''readings_1m'' ''readings_1h'' (days_ago ''3'') (days_ago ''1'')"

lemmas rollup_texts = rollup_1m_def rollup_1h_def DownsampleStmt_def lines_of_def days_ago_def

lemma rollup_ends: "space_len rollup_1m = 0" "trail_len rollup_1m = 0" "space_len rollup_1h = 0" "trail_len rollup_1h = 0"
  by (simp_all add: rollup_texts space_len_def trail_len_def space2_def space3_def)

lemma rollups_trimmed: "trim_space rollup_1m = rollup_1m" "trim_space rollup_1h = rollup_1h" "rollup_1m \<noteq> []" "rollup_1h \<noteq> []"
  by (simp_all add: trim_space_id rollup_ends) (simp_all add: rollup_texts)

lemma RunMaintenance_eq:
  "RunMaintenance ev c raw roll h =
     (case Exec ev c rollup_1m h of
        (h1, Inl e) \<Rightarrow> (h1, Some (statement_error ev rollup_1m e))
      | (h1, Inr r) \<Rightarrow> (case Exec ev c rollup_1h h1 of
            (h2, Inl e) \<Rightarrow> (h2, Some (statement_error ev rollup_1h e))
          | (h2, Inr r) \<Rightarrow> ExecMany ev c [RetentionDropStmt ''readings'' raw, RetentionDropStmt ''readings_1m'' roll] h2))"
proof -
  have "MaintenancePlan raw roll = rollup_1m # rollup_1h # [RetentionDropStmt ''readings'' raw, RetentionDropStmt ''readings_1m'' roll]"
    by (simp add: MaintenancePlan_def rollup_1m_def rollup_1h_def)
  then show ?thesis
    unfolding RunMaintenance_def by (simp only: ExecMany.simps Let_def rollups_trimmed if_False)
qed

text \<open>The columns a CREATE TABLE of the schema declares: one per line that starts with two tabs.\<close>

definition ddl_columns :: "string \<Rightarrow> string list" where
  "ddl_columns ddl = map (\<lambda>l. takeWhile (\<lambda>c. c \<noteq> CHR '' '') (drop 2 l)) (filter (\<lambda>l. take 2 l = tab2) (split_at (CHR 0x0A) ddl))"

lemma schema_columns:
  "ddl_columns (Schema ! 0) = [''ts'', ''device'', ''sensor'', ''metric'', ''value'', ''unit'']"
  "ddl_columns (Schema ! 1) = [''ts'', ''device'', ''sensor'', ''metric'', ''avg'', ''min'', ''max'', ''count'']"
  by (simp_all add: ddl_columns_def Schema_def lines_of_def)

text \<open>The hourly rollup averages a column the minute table does not have. A database that refuses a
  statement with an unknown column makes every maintenance run fail there, and no partition is
  ever dropped.\<close>

lemma retention_never_runs:
  assumes "\<And>h. isl (snd (Exec ev c rollup_1h h))"
  shows "snd (RunMaintenance ev c raw roll h) \<noteq> None
    \<and> fst (RunMaintenance ev c raw roll h) \<in> {h, h @ [exec_request c rollup_1m], h @ [exec_request c rollup_1m, exec_request c rollup_1h]}
    \<and> ''value'' \<notin> set (ddl_columns (Schema ! 1))"
proof (cases "Exec ev c rollup_1m h")
  case (Pair h1 r)
  have h1: "h1 = h @ [exec_request c rollup_1m] \<or> (h1 = h \<and> isl r)"
    using Exec_sends [of ev c rollup_1m h] Pair by simp
  show ?thesis
  proof (cases r)
    case (Inl e)
    then show ?thesis using Pair h1 by (auto simp: RunMaintenance_eq schema_columns [unfolded One_nat_def])
  next
    case (Inr x)
    obtain h2 e where e: "Exec ev c rollup_1h h1 = (h2, Inl e)"
      using assms [of h1] by (cases "Exec ev c rollup_1h h1") (auto simp: isl_def)
    have "h2 = h1 @ [exec_request c rollup_1h] \<or> h2 = h1"
      using Exec_sends [of ev c rollup_1h h1] e by auto
    then show ?thesis
      using Pair Inr e h1 by (auto simp: RunMaintenance_eq schema_columns [unfolded One_nat_def])
  qed
qed

text \<open>Only raw readings are de-duplicated; the rollup tables that overlapping runs write to are not.\<close>

fun contains :: "string \<Rightarrow> string \<Rightarrow> bool" where
  "contains p [] = (p = [])"
| "contains p (c # s) = (has_prefix (c # s) p \<or> contains p s)"

lemma rollups_not_deduplicated:
  "map (contains ''DEDUP'') Schema = [True, False, False, False]"
  by (simp add: Schema_def lines_of_def has_prefix_def)

subsection \<open>Properties\<close>

text \<open>A run of statements is sent in order and stops at the first failure: \<open>ExecMany\<close> sends exactly
  its non-blank statements, trimmed, and reports success, or it stops at the first one the database
  refuses, having sent those before it, with an error that names it.\<close>

lemma statements_in_order: "run_ended ev c (statements stmts) h (ExecMany ev c stmts h)"
  by (rule ExecMany_run)

text \<open>C25. Partitions are dropped only after both rollups: whatever the database answers, a maintenance
  run sends at most the two rollups, or both rollups were accepted before anything else was sent.\<close>

theorem drops_only_after_rollups:
  "fst (RunMaintenance ev c raw roll h) \<in> {h, h @ [exec_request c rollup_1m], h @ [exec_request c rollup_1m, exec_request c rollup_1h]}
   \<or> ((\<exists>r. Exec ev c rollup_1m h = (h @ [exec_request c rollup_1m], Inr r))
      \<and> (\<exists>r. Exec ev c rollup_1h (h @ [exec_request c rollup_1m]) = (h @ [exec_request c rollup_1m, exec_request c rollup_1h], Inr r)))"
proof (cases "Exec ev c rollup_1m h")
  case (Pair h1 r1)
  have s1: "h1 = h @ [exec_request c rollup_1m] \<or> (h1 = h \<and> isl r1)"
    using Exec_sends [of ev c rollup_1m h] Pair by simp
  show ?thesis
  proof (cases r1)
    case (Inl e)
    then show ?thesis using Pair s1 by (auto simp: RunMaintenance_eq)
  next
    case (Inr r)
    then have h1: "h1 = h @ [exec_request c rollup_1m]" using s1 by simp
    show ?thesis
    proof (cases "Exec ev c rollup_1h h1")
      case (Pair h2 r2)
      then have "h2 = h1 @ [exec_request c rollup_1h] \<or> (h2 = h1 \<and> isl r2)"
        using Exec_sends [of ev c rollup_1h h1] by simp
      then show ?thesis
        using \<open>Exec ev c rollup_1m h = (h1, r1)\<close> Inr Pair h1 by (cases r2) (auto simp: RunMaintenance_eq)
    qed
  qed
qed

end
