(* ===== verification/Go_Time.thy ===== *)
theory Go_Time
  imports Go_Strconv
begin

text \<open>
  \<open>time.Parse\<close> for the layouts the program uses, as far as the instant it returns: RFC3339 (and
  RFC3339Nano, which accepts the same texts), and the layout with six fractional digits and a
  literal Z. The scanner is the library's: two-digit fields, an hour that may have one digit, a
  fraction of any length after a point or a comma of which nine digits count, a zone of up to 24
  hours and 60 minutes. The instant is \<open>UnixNano\<close>, the 64-bit count of nanoseconds, which wraps.
\<close>

definition digit_at :: "string \<Rightarrow> nat \<Rightarrow> bool" where
  "digit_at s i \<longleftrightarrow> i < length s \<and> is_digit (s ! i)"

definition skip_char :: "char \<Rightarrow> string \<Rightarrow> string option" where
  "skip_char c s = (case s of [] \<Rightarrow> None | d # r \<Rightarrow> if d = c then Some r else None)"

text \<open>\<open>getnum\<close>: one or two digits, two when \<open>fixed\<close>.\<close>

definition getnum :: "bool \<Rightarrow> string \<Rightarrow> (nat \<times> string) option" where
  "getnum fixed s =
     (if \<not> digit_at s 0 then None
      else if \<not> digit_at s 1 then (if fixed then None else Some (dec_val (take 1 s), drop 1 s))
      else Some (dec_val (take 2 s), drop 2 s))"

definition in_range :: "nat \<Rightarrow> nat \<Rightarrow> (nat \<times> string) option \<Rightarrow> (nat \<times> string) option" where
  "in_range lo hi x = (case x of None \<Rightarrow> None | Some (n, r) \<Rightarrow> if lo \<le> n \<and> n \<le> hi then Some (n, r) else None)"

definition getyear :: "string \<Rightarrow> (nat \<times> string) option" where
  "getyear s = (if length s < 4 \<or> \<not> list_all is_digit (take 4 s) then None else Some (dec_val (take 4 s), drop 4 s))"

definition is_leap :: "nat \<Rightarrow> bool" where
  "is_leap y \<longleftrightarrow> y mod 4 = 0 \<and> (y mod 100 \<noteq> 0 \<or> y mod 400 = 0)"

definition days_in :: "nat \<Rightarrow> nat \<Rightarrow> nat" where
  "days_in m y = (if m = 2 then (if is_leap y then 29 else 28) else if m \<in> {4, 6, 9, 11} then 30 else 31)"

text \<open>Days from the first of January of year 0, and of 1970.\<close>

definition days_to_year :: "nat \<Rightarrow> nat" where
  "days_to_year y = y * 365 + (y + 3) div 4 - (y + 99) div 100 + (y + 399) div 400"

fun days_to_month :: "nat \<Rightarrow> nat \<Rightarrow> nat" where
  "days_to_month 0 y = 0"
| "days_to_month (Suc m) y = (if m = 0 then 0 else days_to_month m y + days_in m y)"

definition unix_days :: "nat \<Rightarrow> nat \<Rightarrow> nat \<Rightarrow> int" where
  "unix_days y m d = int (days_to_year y + days_to_month m y + d) - 1 - 719528"

record civil =
  cv_year :: nat
  cv_month :: nat
  cv_day :: nat
  cv_hour :: nat
  cv_min :: nat
  cv_sec :: nat

text \<open>The instant of a date and time with a fraction in nanoseconds and a zone offset in seconds.\<close>

definition unix_nano :: "civil \<Rightarrow> nat \<Rightarrow> int \<Rightarrow> 64 word" where
  "unix_nano c ns offset = word_of_int
     ((unix_days (cv_year c) (cv_month c) (cv_day c) * 86400 + int (cv_hour c) * 3600 + int (cv_min c) * 60 + int (cv_sec c) - offset)
      * 1000000000 + int ns)"

text \<open>Year to seconds.\<close>

definition scan_civil :: "string \<Rightarrow> (civil \<times> string) option" where
  "scan_civil s =
     Option.bind (getyear s) (\<lambda>(y, s). Option.bind (skip_char CHR ''-'' s) (\<lambda>s.
     Option.bind (in_range 1 12 (getnum True s)) (\<lambda>(mo, s). Option.bind (skip_char CHR ''-'' s) (\<lambda>s.
     Option.bind (getnum True s) (\<lambda>(d, s). Option.bind (skip_char CHR ''T'' s) (\<lambda>s.
     Option.bind (in_range 0 23 (getnum False s)) (\<lambda>(h, s). Option.bind (skip_char CHR '':'' s) (\<lambda>s.
     Option.bind (in_range 0 59 (getnum True s)) (\<lambda>(mi, s). Option.bind (skip_char CHR '':'' s) (\<lambda>s.
     Option.bind (in_range 0 59 (getnum True s)) (\<lambda>(se, s).
       Some (\<lparr>cv_year = y, cv_month = mo, cv_day = d, cv_hour = h, cv_min = mi, cv_sec = se\<rparr>, s))))))))))))"

text \<open>\<open>parseNanoseconds\<close>: the digits after the point, of which nine count.\<close>

definition frac_ns :: "string \<Rightarrow> nat" where
  "frac_ns ds = (let t = take 9 ds in dec_val t * 10 ^ (9 - length t))"

definition scan_frac :: "string \<Rightarrow> nat \<times> string" where
  "scan_frac s =
     (if s \<noteq> [] \<and> (hd s = CHR ''.'' \<or> hd s = CHR '','') \<and> digit_at s 1
      then (frac_ns (takeWhile is_digit (tl s)), dropWhile is_digit (tl s)) else (0, s))"

text \<open>The zone \<open>Z07:00\<close>, to the end of the text: the offset in seconds.\<close>

definition scan_zone :: "string \<Rightarrow> int option" where
  "scan_zone s =
     (if s \<noteq> [] \<and> hd s = CHR ''Z'' then (if tl s = [] then Some 0 else None)
      else if length s \<noteq> 6 \<or> s ! 3 \<noteq> CHR '':'' then None
      else Option.bind (in_range 0 24 (getnum True (take 2 (drop 1 s)))) (\<lambda>(hr, _).
        Option.bind (in_range 0 60 (getnum True (take 2 (drop 4 s)))) (\<lambda>(mm, _).
          if hd s = CHR ''+'' then Some (int ((hr * 60 + mm) * 60))
          else if hd s = CHR ''-'' then Some (- int ((hr * 60 + mm) * 60)) else None)))"

definition day_ok :: "civil \<Rightarrow> bool" where
  "day_ok c \<longleftrightarrow> 1 \<le> cv_day c \<and> cv_day c \<le> days_in (cv_month c) (cv_year c)"

definition parse_rfc3339 :: "string \<Rightarrow> 64 word option" where
  "parse_rfc3339 s =
     Option.bind (scan_civil s) (\<lambda>(c, s). let (ns, s) = scan_frac s
       in Option.bind (scan_zone s) (\<lambda>offset. if day_ok c then Some (unix_nano c ns offset) else None))"

text \<open>The layout \<open>2006-01-02T15:04:05.000000Z\<close>: exactly six digits and a literal Z.\<close>

definition parse_micros :: "string \<Rightarrow> 64 word option" where
  "parse_micros s =
     Option.bind (scan_civil s) (\<lambda>(c, s).
       if length s \<noteq> 8 \<or> \<not> (hd s = CHR ''.'' \<or> hd s = CHR '','') \<or> \<not> list_all is_digit (take 6 (tl s)) \<or> s ! 7 \<noteq> CHR ''Z'' then None
       else if day_ok c then Some (unix_nano c (frac_ns (take 6 (tl s))) 0) else None)"

lemmas parse_time_eval = parse_rfc3339_def parse_micros_def scan_civil_def getyear_def skip_char_def getnum_def in_range_def
  digit_at_def is_digit_def dec_val_def digit_val_def scan_frac_def frac_ns_def scan_zone_def day_ok_def days_in_def is_leap_def
  unix_nano_def unix_days_def days_to_year_def

text \<open>The last layout adds nothing to RFC3339.\<close>

lemma parse_micros_rfc3339: "parse_micros s = Some t \<Longrightarrow> parse_rfc3339 s = Some t"
proof -
  assume "parse_micros s = Some t"
  then obtain c r where c: "scan_civil s = Some (c, r)" and len: "length r = 8"
    and pt: "hd r = CHR ''.'' \<or> hd r = CHR '',''" and ds: "list_all is_digit (take 6 (tl r))" and z: "r ! 7 = CHR ''Z''"
    and day: "day_ok c" and t: "t = unix_nano c (frac_ns (take 6 (tl r))) 0"
    by (auto simp: parse_micros_def split: if_splits Option.bind_splits)
  obtain x d1 d2 d3 d4 d5 d6 where r: "r = [x, d1, d2, d3, d4, d5, d6, CHR ''Z'']"
    using len z by (auto simp: numeral_eq_Suc length_Suc_conv)
  have nz: "\<not> is_digit CHR ''Z''"
    by (simp add: is_digit_def)
  have "scan_frac r = (frac_ns [d1, d2, d3, d4, d5, d6], ''Z'')"
    using ds pt nz by (auto simp: r scan_frac_def digit_at_def)
  then show ?thesis
    using c day t by (simp add: parse_rfc3339_def r scan_zone_def)
qed

text \<open>A text of digits is no RFC3339 time.\<close>

lemma digits_not_rfc3339:
  assumes "list_all is_digit s"
  shows "parse_rfc3339 s = None"
proof -
  have "skip_char CHR ''-'' (drop 4 s) = None"
  proof (cases "drop 4 s")
    case (Cons c r)
    then have "is_digit c"
      using assms in_set_dropD [of c 4 s] by (simp add: list_all_iff)
    then show ?thesis
      using Cons by (auto simp: skip_char_def is_digit_def)
  qed (simp add: skip_char_def)
  then show ?thesis
    by (auto simp: parse_rfc3339_def scan_civil_def getyear_def split: Option.bind_splits)
qed

end
