(* ===== verification/QuestDB_Server.thy ===== *)
theory QuestDB_Server
  imports QuestDB_Client Go_Time Go_Format Go_Http
begin

text \<open>
  go-telemetry/internal/questdb/server.go: the query API the dashboard and the AI brain read from.
  The state of the service is the list of requests it has sent to the database; the answers of the
  database, the clock and what \<open>FormValue\<close> returns for a form are in the environment of a request.
\<close>

subsection \<open>Cells\<close>

text \<open>\<open>fmt\<close>'s name of a dynamic type.\<close>

fun type_name :: "any \<Rightarrow> string" where
  "type_name ANil = ''<nil>''"
| "type_name (ABool b) = ''bool''"
| "type_name (AFloat64 f) = ''float64''"
| "type_name (AFloat32 f) = ''float32''"
| "type_name (AInt i) = ''int''"
| "type_name (AInt64 i) = ''int64''"
| "type_name (ANumber s) = ''json.Number''"
| "type_name (AString s) = ''string''"
| "type_name (AJson j) = (case j of JArr js \<Rightarrow> ''[]interface {}'' | _ \<Rightarrow> ''map[string]interface {}'')"

text \<open>\<open>int64(t)\<close>: truncation in range; what the processor gives out of range is \<open>oor\<close>.\<close>

definition f64_trunc :: "f64 \<Rightarrow> int" where
  "f64_trunc x = (let t = int (f64_units (f64_mag x) div 2 ^ 1074) in if f64_neg x then - t else t)"

definition f64_to_int64 :: "(f64 \<Rightarrow> 64 word) \<Rightarrow> f64 \<Rightarrow> 64 word" where
  "f64_to_int64 oor x = (if f64_finite x \<and> - (2 ^ 63) \<le> f64_trunc x \<and> f64_trunc x < 2 ^ 63 then word_of_int (f64_trunc x) else oor x)"

definition num_error_text :: "(string \<Rightarrow> string) \<Rightarrow> string \<Rightarrow> string \<Rightarrow> num_error \<Rightarrow> string" where
  "num_error_text quote fn s e = ''strconv.'' @ fn @ '': parsing '' @ quote s @ '': ''
     @ (case e of ErrSyntax \<Rightarrow> ''invalid syntax'' | ErrRange \<Rightarrow> ''value out of range'')"

definition parse_float_result :: "(string \<Rightarrow> string) \<Rightarrow> string \<Rightarrow> string + f64" where
  "parse_float_result quote s = (case parse_float s of (v, None) \<Rightarrow> Inr v | (_, Some e) \<Rightarrow> Inl (num_error_text quote ''ParseFloat'' s e))"

definition int_error :: "string \<Rightarrow> num_error" where
  "int_error s = (let ds = (if s \<noteq> [] \<and> (hd s = CHR ''-'' \<or> hd s = CHR ''+'') then tl s else s)
     in if ds = [] \<or> \<not> list_all is_digit ds then ErrSyntax else ErrRange)"

definition toNanos :: "(string \<Rightarrow> string) \<Rightarrow> (f64 \<Rightarrow> 64 word) \<Rightarrow> any \<Rightarrow> string + 64 word" where
  "toNanos quote oor v = (case v of
       AString t \<Rightarrow> (case parse_rfc3339 t of Some n \<Rightarrow> Inr n
         | None \<Rightarrow> (case parse_micros t of Some n \<Rightarrow> Inr n
             | None \<Rightarrow> Inl (''cannot parse timestamp '' @ quote t)))
     | AFloat64 t \<Rightarrow> Inr (f64_to_int64 oor t)
     | AInt64 t \<Rightarrow> Inr t
     | ANumber t \<Rightarrow> (case parse_int64 t of Some n \<Rightarrow> Inr (word_of_int n)
         | None \<Rightarrow> Inl (num_error_text quote ''ParseInt'' t (int_error t)))
     | _ \<Rightarrow> Inl (''unknown timestamp type '' @ type_name v))"

definition toFloat :: "(string \<Rightarrow> string) \<Rightarrow> any \<Rightarrow> string + f64" where
  "toFloat quote v = (case v of
       AFloat64 t \<Rightarrow> Inr t
     | AInt64 t \<Rightarrow> Inr (f64_of_int (sint t))
     | AString t \<Rightarrow> parse_float_result quote t
     | ANumber t \<Rightarrow> parse_float_result quote t
     | _ \<Rightarrow> Inl (''unknown numeric type '' @ type_name v))"

record series_point =
  sp_TS :: "64 word"
  sp_Value :: f64

record latest =
  lt_Device :: string
  lt_Sensor :: string
  lt_Metric :: string
  lt_TS :: "64 word"
  lt_Value :: f64
  lt_Unit :: string

fun series_rows :: "(string \<Rightarrow> string) \<Rightarrow> (f64 \<Rightarrow> 64 word) \<Rightarrow> any list list \<Rightarrow> series_point list \<Rightarrow> string + series_point list" where
  "series_rows quote oor [] out = Inr out"
| "series_rows quote oor (row # rows) out =
     (if length row < 2 then series_rows quote oor rows out
      else case toNanos quote oor (row ! 0) of
          Inl e \<Rightarrow> Inl e
        | Inr ts \<Rightarrow> (case toFloat quote (row ! 1) of
              Inl e \<Rightarrow> Inl e
            | Inr v \<Rightarrow> series_rows quote oor rows (out @ [\<lparr>sp_TS = ts, sp_Value = v\<rparr>])))"

definition seriesFrom :: "(string \<Rightarrow> string) \<Rightarrow> (f64 \<Rightarrow> 64 word) \<Rightarrow> result \<Rightarrow> string + series_point list" where
  "seriesFrom quote oor res =
     (if length (res_Columns res) < 2 then Inl (''expected >=2 columns, got '' @ show_nat (length (res_Columns res)))
      else series_rows quote oor (res_Dataset res) [])"

definition latestFrom :: "(string \<Rightarrow> string) \<Rightarrow> (f64 \<Rightarrow> 64 word) \<Rightarrow> result \<Rightarrow> string + latest" where
  "latestFrom quote oor res = (case res_Dataset res of
       [] \<Rightarrow> Inl ''no data''
     | row # _ \<Rightarrow>
         if length row < 3 then Inl (''unexpected row width '' @ show_nat (length row))
         else case toNanos quote oor (row ! 0) of
             Inl e \<Rightarrow> Inl e
           | Inr ts \<Rightarrow> (case toFloat quote (row ! 1) of
                 Inl e \<Rightarrow> Inl e
               | Inr v \<Rightarrow> Inr \<lparr>lt_Device = [], lt_Sensor = [], lt_Metric = [], lt_TS = ts, lt_Value = v,
                   lt_Unit = (case row ! 2 of AString u \<Rightarrow> u | _ \<Rightarrow> [])\<rparr>))"

subsection \<open>Time arguments\<close>

text \<open>The two layouts tried first accept the same texts.\<close>

definition parseTimeArg :: "(string \<Rightarrow> string) \<Rightarrow> string \<Rightarrow> string + 64 word" where
  "parseTimeArg quote s = (case parse_rfc3339 s of
       Some t \<Rightarrow> Inr t
     | None \<Rightarrow> (case parse_int64 s of
           None \<Rightarrow> Inl (''invalid time '' @ quote s)
         | Some n \<Rightarrow> Inr (if n < 10 ^ 12 then word_of_int (n * 10 ^ 9)
             else if n < 10 ^ 15 then word_of_int (n * 10 ^ 6)
             else if n < 10 ^ 18 then word_of_int (n * 10 ^ 3)
             else word_of_int n)))"

definition parseWindow :: "(string \<Rightarrow> string) \<Rightarrow> 64 word \<Rightarrow> string \<Rightarrow> string \<Rightarrow> string + (64 word \<times> 64 word)" where
  "parseWindow quote now from to =
     (case (if from \<noteq> [] then parseTimeArg quote from else Inr (now - 86400000000000)) of
        Inl e \<Rightarrow> Inl e
      | Inr f \<Rightarrow> (case (if to \<noteq> [] then parseTimeArg quote to else Inr now) of
            Inl e \<Rightarrow> Inl e
          | Inr t \<Rightarrow> Inr (f, t)))"

subsection \<open>Handlers\<close>

datatype query_payload =
    QPStatus string
  | QPDown string
  | QPError string
  | QPResult result
  | QPLatest latest
  | QPSeries string string string "series_point list"

type_synonym query_handler = "(sent_request list, query_payload) handler"

record query_env =
  qe_db :: qdb_env
  qe_client :: client
  qe_form :: string
  qe_now :: "64 word"
  qe_oor :: "f64 \<Rightarrow> 64 word"

definition qe_quote :: "query_env \<Rightarrow> string \<Rightarrow> string" where
  "qe_quote ev = quote_text (qe_db ev)"

definition query_handleHealth :: "query_env \<Rightarrow> query_handler" where
  "query_handleHealth ev rq h =
     (case Ping (qe_db ev) (qe_client ev) h of
        (h', Some e) \<Rightarrow> (h', write_json 503 (QPDown e))
      | (h', None) \<Rightarrow> (h', write_json 200 (QPStatus ''ok'')))"

definition query_sql :: "query_env \<Rightarrow> request \<Rightarrow> string" where
  "query_sql ev rq =
     (if string_ok ''sql'' (rq_body rq) \<and> get_string ''sql'' (rq_body rq) \<noteq> [] then get_string ''sql'' (rq_body rq) else qe_form ev)"

definition handleQuery :: "query_env \<Rightarrow> query_handler" where
  "handleQuery ev rq h =
     (if rq_method rq \<noteq> ''POST'' then (h, http_error ''method not allowed'' 405)
      else let sql = query_sql ev rq
        in if sql = [] then (h, http_error ''missing sql'' 400)
           else case Exec (qe_db ev) (qe_client ev) sql h of
               (h', Inl e) \<Rightarrow> (h', write_json 400 (QPError e))
             | (h', Inr res) \<Rightarrow> (h', write_json 200 (QPResult res)))"

definition latest_sql :: "string \<Rightarrow> string \<Rightarrow> string \<Rightarrow> string" where
  "latest_sql device sensor metric = lines_of
     [''SELECT ts, value, unit FROM readings'',
      tab2 @ '' WHERE device = '' @ quot @ escapeSQL device @ quot @ '' AND sensor = '' @ quot @ escapeSQL sensor @ quot
        @ '' AND metric = '' @ quot @ escapeSQL metric @ quot,
      tab2 @ '' LATEST ON ts PARTITION BY device, sensor, metric'']"

definition handleLatest :: "query_env \<Rightarrow> query_handler" where
  "handleLatest ev rq h =
     (let device = rq_query rq ''device''; sensor = rq_query rq ''sensor''; metric = rq_query rq ''metric''
      in if device = [] \<or> metric = [] then (h, http_error ''device and metric are required'' 400)
         else case Exec (qe_db ev) (qe_client ev) (latest_sql device sensor metric) h of
             (h', Inl e) \<Rightarrow> (h', write_json 400 (QPError e))
           | (h', Inr res) \<Rightarrow> (case latestFrom (qe_quote ev) (qe_oor ev) res of
                 Inl e \<Rightarrow> (h', write_json 500 (QPError e))
               | Inr lv \<Rightarrow> (h', write_json 200 (QPLatest lv))))"

text \<open>The table and the column of a rollup.\<close>

definition series_source :: "string \<Rightarrow> string \<times> string" where
  "series_source roll = (if roll = ''1m'' \<or> roll = ''1h'' then (''readings_'' @ roll, ''avg'') else (''readings'', ''value''))"

definition timeseries_sql :: "string \<Rightarrow> string \<Rightarrow> string \<Rightarrow> string \<Rightarrow> string \<Rightarrow> 64 word \<Rightarrow> 64 word \<Rightarrow> string" where
  "timeseries_sql tbl col device sensor metric from to = lines_of
     [''SELECT ts, '' @ col @ '' FROM '' @ tbl,
      tab2 @ '' WHERE device = '' @ quot @ escapeSQL device @ quot @ '' AND sensor = '' @ quot @ escapeSQL sensor @ quot
        @ '' AND metric = '' @ quot @ escapeSQL metric @ quot,
      tab2 @ ''   AND ts >= to_timestamp('' @ show_int (sint from) @ '', '' @ quot @ ''ns'' @ quot @ '') AND ts < to_timestamp(''
        @ show_int (sint to) @ '', '' @ quot @ ''ns'' @ quot @ '')'',
      tab2 @ '' ORDER BY ts'']"

definition handleTimeseries :: "query_env \<Rightarrow> query_handler" where
  "handleTimeseries ev rq h =
     (let device = rq_query rq ''device''; sensor = rq_query rq ''sensor''; metric = rq_query rq ''metric''
      in if device = [] \<or> metric = [] then (h, http_error ''device and metric are required'' 400)
         else case parseWindow (qe_quote ev) (qe_now ev) (rq_query rq ''from'') (rq_query rq ''to'') of
             Inl e \<Rightarrow> (h, http_error e 400)
           | Inr (from, to) \<Rightarrow>
               let (tbl, col) = series_source (rq_query rq ''rollup'')
               in (case Exec (qe_db ev) (qe_client ev) (timeseries_sql tbl col device sensor metric from to) h of
                     (h', Inl e) \<Rightarrow> (h', write_json 400 (QPError e))
                   | (h', Inr res) \<Rightarrow> (case seriesFrom (qe_quote ev) (qe_oor ev) res of
                         Inl e \<Rightarrow> (h', write_json 500 (QPError e))
                       | Inr pts \<Rightarrow> (h', write_json 200 (QPSeries device sensor metric pts)))))"

definition devices_sql :: string where
  "devices_sql = ''SELECT device, kind, last_seen FROM devices LATEST ON last_seen PARTITION BY device''"

definition query_handleDevices :: "query_env \<Rightarrow> query_handler" where
  "query_handleDevices ev rq h =
     (case Exec (qe_db ev) (qe_client ev) devices_sql h of
        (h', Inl e) \<Rightarrow> (h', write_json 400 (QPError e))
      | (h', Inr res) \<Rightarrow> (h', write_json 200 (QPResult res)))"

definition query_mux :: "query_env \<Rightarrow> query_handler" where
  "query_mux ev = serve_mux
     [(''/health'', query_handleHealth ev),
      (''/api/query'', handleQuery ev),
      (''/api/latest'', handleLatest ev),
      (''/api/timeseries'', handleTimeseries ev),
      (''/api/devices'', query_handleDevices ev)]"

definition query_auth :: "string \<Rightarrow> query_handler \<Rightarrow> query_handler" where
  "query_auth token nxt = auth_check token nxt"

definition query_NewServer :: "string \<Rightarrow> query_env \<Rightarrow> query_handler" where
  "query_NewServer token ev = query_auth token (query_mux ev)"

interpretation query_http: token_checked "query_NewServer token ev" "query_mux ev" token "[]" "[]" for token ev
  by unfold_locales (simp add: query_NewServer_def query_auth_def cors_wrap_def fun_eq_iff)

subsection \<open>Statements the endpoints send\<close>

lemma show_int_no_quote: "CHR 0x27 \<notin> set (show_int i)"
proof -
  have "\<not> is_digit CHR 0x27" by (simp add: is_digit_def)
  then have "CHR 0x27 \<notin> set (show_nat n)" for n
    using show_nat_digits by blast
  then show ?thesis
    by (simp add: show_int_def)
qed

text \<open>The pieces of a condition on the three keys, before a tail.\<close>

definition where_keys :: "string \<Rightarrow> string \<Rightarrow> string \<Rightarrow> string \<Rightarrow> piece list" where
  "where_keys pre device sensor metric =
     [Code (pre @ '' WHERE device = ''), Lit device, Code '' AND sensor = '', Lit sensor, Code '' AND metric = '', Lit metric]"

lemma where_pieces:
  assumes "CHR 0x27 \<notin> set pre" and "no_quote_start tail"
  shows "sql_pieces (pre @ '' WHERE device = '' @ quot @ escapeSQL device @ quot @ '' AND sensor = '' @ quot @ escapeSQL sensor @ quot
      @ '' AND metric = '' @ quot @ escapeSQL metric @ quot @ tail) =
    map_option (\<lambda>ps. where_keys pre device sensor metric @ ps) (sql_pieces tail)"
  using assms sql_pieces_literal [of "pre @ '' WHERE device = ''"]
    sql_pieces_literal [of "'' AND sensor = ''"] sql_pieces_literal [of "'' AND metric = ''"]
  by (simp add: no_quote_start_def option.map_comp comp_def where_keys_def)

lemma escape_ns: "escapeSQL ''ns'' = ''ns''"
  by (simp add: escapeSQL_def)

lemma latest_pieces:
  "sql_pieces (latest_sql device sensor metric) =
     Some (where_keys (''SELECT ts, value, unit FROM readings'' @ newl @ tab2) device sensor metric
       @ [Code (newl @ tab2 @ '' LATEST ON ts PARTITION BY device, sensor, metric'')])"
  using where_pieces [of "''SELECT ts, value, unit FROM readings'' @ newl @ tab2" "newl @ tab2 @ '' LATEST ON ts PARTITION BY device, sensor, metric''" device sensor metric]
  by (simp add: latest_sql_def lines_of_def no_quote_start_def sql_pieces_code)

definition ns_lits :: "string \<Rightarrow> string \<Rightarrow> string \<Rightarrow> string \<Rightarrow> string \<Rightarrow> piece list" where
  "ns_lits a x b y c = [Code (a @ x @ '', ''), Lit ''ns'', Code (b @ y @ '', ''), Lit ''ns'', Code c]"

lemma ns_pieces:
  assumes "CHR 0x27 \<notin> set a" and "CHR 0x27 \<notin> set b" and "CHR 0x27 \<notin> set c" and "no_quote_start b" and "no_quote_start c"
    and "b \<noteq> []"
  shows "sql_pieces (a @ show_int i @ '', '' @ quot @ ''ns'' @ quot @ b @ show_int j @ '', '' @ quot @ ''ns'' @ quot @ c) =
    Some (ns_lits a (show_int i) b (show_int j) c)"
proof -
  have start: "no_quote_start (b @ show_int j @ '', '' @ quot @ ''ns'' @ quot @ c)"
    using assms(4,6) by (cases b) (simp_all add: no_quote_start_def)
  show ?thesis
    using assms sql_pieces_literal [of "a @ show_int i @ '', ''" "b @ show_int j @ '', '' @ quot @ ''ns'' @ quot @ c" "''ns''", OF _ start]
      sql_pieces_literal [of "b @ show_int j @ '', ''" c "''ns''"]
    by (simp add: show_int_no_quote escape_ns sql_pieces_code ns_lits_def)
qed

lemma timeseries_pieces:
  assumes "CHR 0x27 \<notin> set tbl" and "CHR 0x27 \<notin> set col"
  shows "sql_pieces (timeseries_sql tbl col device sensor metric from to) =
     Some (where_keys (''SELECT ts, '' @ col @ '' FROM '' @ tbl @ newl @ tab2) device sensor metric
       @ ns_lits (newl @ tab2 @ ''   AND ts >= to_timestamp('') (show_int (sint from)) '') AND ts < to_timestamp('' (show_int (sint to))
           ('')'' @ newl @ tab2 @ '' ORDER BY ts''))"
  using assms where_pieces [of "''SELECT ts, '' @ col @ '' FROM '' @ tbl @ newl @ tab2"
      "newl @ tab2 @ ''   AND ts >= to_timestamp('' @ show_int (sint from) @ '', '' @ quot @ ''ns'' @ quot @ '') AND ts < to_timestamp('' @ show_int (sint to) @ '', '' @ quot @ ''ns'' @ quot @ '')'' @ newl @ tab2 @ '' ORDER BY ts''"
      device sensor metric]
    ns_pieces [of "newl @ tab2 @ ''   AND ts >= to_timestamp(''" "'') AND ts < to_timestamp(''" "'')'' @ newl @ tab2 @ '' ORDER BY ts''"
      "sint from" "sint to"]
  by (simp add: timeseries_sql_def lines_of_def no_quote_start_def)

definition upsert_lits :: "string \<Rightarrow> string \<Rightarrow> 64 word \<Rightarrow> 64 word \<Rightarrow> piece list" where
  "upsert_lits device kind a b =
     [Code ''INSERT INTO devices (device, kind, first_seen, last_seen) VALUES ('', Lit device, Code '', '', Lit kind]
     @ ns_lits '', to_timestamp('' (show_int (sint a)) ''), to_timestamp('' (show_int (sint b)) ''))''"

lemma upsert_pieces: "sql_pieces (upsert_sql device kind a b) = Some (upsert_lits device kind a b)"
proof -
  let ?t = "'', '' @ tsNanos a @ '', '' @ tsNanos b @ '')''"
  have t: "sql_pieces ?t = Some (ns_lits '', to_timestamp('' (show_int (sint a)) ''), to_timestamp('' (show_int (sint b)) ''))'')"
    using ns_pieces [of "'', to_timestamp(''" "''), to_timestamp(''" "''))''" "sint a" "sint b"] by (simp add: tsNanos_def no_quote_start_def)
  show ?thesis
    using sql_pieces_literal [of "''INSERT INTO devices (device, kind, first_seen, last_seen) VALUES (''"
        "'', '' @ quot @ escapeSQL kind @ quot @ ?t" device] sql_pieces_literal [of "'', ''" ?t kind] t
    by (simp add: upsert_sql_def upsert_lits_def no_quote_start_def)
qed

lemma series_source_cases: "series_source roll \<in> {(''readings'', ''value''), (''readings_1m'', ''avg''), (''readings_1h'', ''avg'')}"
  by (auto simp: series_source_def)

subsection \<open>Rows\<close>

definition convert_row :: "(string \<Rightarrow> string) \<Rightarrow> (f64 \<Rightarrow> 64 word) \<Rightarrow> any list \<Rightarrow> string + series_point" where
  "convert_row quote oor row = (case toNanos quote oor (row ! 0) of Inl e \<Rightarrow> Inl e
     | Inr ts \<Rightarrow> (case toFloat quote (row ! 1) of Inl e \<Rightarrow> Inl e | Inr v \<Rightarrow> Inr \<lparr>sp_TS = ts, sp_Value = v\<rparr>))"

text \<open>The first error, or all the values.\<close>

fun collect :: "(string + 'a) list \<Rightarrow> string + 'a list" where
  "collect [] = Inr []"
| "collect (Inl e # xs) = Inl e"
| "collect (Inr x # xs) = map_sum (\<lambda>e. e) (\<lambda>ys. x # ys) (collect xs)"

lemma series_rows_collect:
  "series_rows quote oor rows out =
     map_sum (\<lambda>e. e) (\<lambda>ys. out @ ys) (collect (map (convert_row quote oor) (filter (\<lambda>r. 2 \<le> length r) rows)))"
proof (induction rows arbitrary: out)
  case Nil
  then show ?case by simp
next
  case (Cons row rows)
  show ?case
  proof (cases "convert_row quote oor row")
    case (Inl e)
    then show ?thesis using Cons by (auto simp: convert_row_def split: sum.splits)
  next
    case (Inr p)
    then obtain ts v where p: "toNanos quote oor (row ! 0) = Inr ts" "toFloat quote (row ! 1) = Inr v" "p = \<lparr>sp_TS = ts, sp_Value = v\<rparr>"
      by (auto simp: convert_row_def split: sum.splits)
    then show ?thesis
      using Inr by (cases "collect (map (convert_row quote oor) (filter (\<lambda>r. 2 \<le> length r) rows))") (simp_all add: Cons)
  qed
qed

lemma toNanos_rfc3339:
  "toNanos quote oor (AString t) = (case parse_rfc3339 t of Some n \<Rightarrow> Inr n | None \<Rightarrow> Inl (''cannot parse timestamp '' @ quote t))"
  using parse_micros_rfc3339 [of t] by (auto simp: toNanos_def split: option.split)

subsection \<open>Requests to the database\<close>

text \<open>What a request may send: one request of the form its endpoint builds.\<close>

definition may_send :: "query_env \<Rightarrow> request \<Rightarrow> sent_request \<Rightarrow> bool" where
  "may_send ev rq x \<longleftrightarrow>
     (let c = qe_client ev; d = rq_query rq ''device''; s = rq_query rq ''sensor''; m = rq_query rq ''metric''
      in if rq_path rq = ''/health'' then x = SentStatus (BaseURL c @ ''/status'')
         else if rq_path rq = ''/api/query'' then rq_method rq = ''POST'' \<and> query_sql ev rq \<noteq> [] \<and> x = exec_request c (query_sql ev rq)
         else if rq_path rq = ''/api/latest'' then d \<noteq> [] \<and> m \<noteq> [] \<and> x = exec_request c (latest_sql d s m)
         else if rq_path rq = ''/api/timeseries'' then d \<noteq> [] \<and> m \<noteq> [] \<and>
           (\<exists>from to. x = exec_request c (timeseries_sql (fst (series_source (rq_query rq ''rollup''))) (snd (series_source (rq_query rq ''rollup''))) d s m from to))
         else rq_path rq = ''/api/devices'' \<and> x = exec_request c devices_sql)"

definition at_most_one :: "query_env \<Rightarrow> request \<Rightarrow> sent_request list \<Rightarrow> sent_request list \<Rightarrow> bool" where
  "at_most_one ev rq h h' \<longleftrightarrow> h' = h \<or> (\<exists>x. h' = h @ [x] \<and> may_send ev rq x)"

lemma at_most_one_same [simp]: "at_most_one ev rq h h"
  by (simp add: at_most_one_def)

lemma Exec_at_most_one:
  "may_send ev rq (exec_request (qe_client ev) sql) \<Longrightarrow> at_most_one ev rq h (fst (Exec (qe_db ev) (qe_client ev) sql h))"
  using Exec_sends [of "qe_db ev" "qe_client ev" sql h] by (auto simp: at_most_one_def)

lemma health_sends: "rq_path rq = ''/health'' \<Longrightarrow> at_most_one ev rq h (fst (query_handleHealth ev rq h))"
  by (auto simp: query_handleHealth_def Ping_def Let_def at_most_one_def may_send_def split: outcome.split option.split)

lemma query_sends: "rq_path rq = ''/api/query'' \<Longrightarrow> at_most_one ev rq h (fst (handleQuery ev rq h))"
  using Exec_at_most_one [of ev rq "query_sql ev rq" h]
  by (auto simp: handleQuery_def Let_def may_send_def split: sum.split prod.split)

lemma latest_sends: "rq_path rq = ''/api/latest'' \<Longrightarrow> at_most_one ev rq h (fst (handleLatest ev rq h))"
  using Exec_at_most_one [of ev rq "latest_sql (rq_query rq ''device'') (rq_query rq ''sensor'') (rq_query rq ''metric'')" h]
  by (auto simp: handleLatest_def Let_def may_send_def split: sum.split prod.split)

lemma devices_sends: "rq_path rq = ''/api/devices'' \<Longrightarrow> at_most_one ev rq h (fst (query_handleDevices ev rq h))"
  using Exec_at_most_one [of ev rq devices_sql h]
  by (auto simp: query_handleDevices_def may_send_def split: sum.split prod.split)

lemma timeseries_sends:
  assumes "rq_path rq = ''/api/timeseries''"
  shows "at_most_one ev rq h (fst (handleTimeseries ev rq h))"
proof -
  let ?d = "rq_query rq ''device''" and ?s = "rq_query rq ''sensor''" and ?m = "rq_query rq ''metric''"
  obtain tbl col where src: "series_source (rq_query rq ''rollup'') = (tbl, col)"
    by (cases "series_source (rq_query rq ''rollup'')")
  have "?d \<noteq> [] \<Longrightarrow> ?m \<noteq> [] \<Longrightarrow> at_most_one ev rq h (fst (Exec (qe_db ev) (qe_client ev) (timeseries_sql tbl col ?d ?s ?m a b) h))" for a b
    using assms src by (intro Exec_at_most_one) (auto simp: may_send_def Let_def)
  then show ?thesis
    using src by (auto simp: handleTimeseries_def Let_def split: sum.split prod.split) (metis fst_conv)+
qed

lemma query_mux_sends: "at_most_one ev rq h (fst (query_mux ev rq h))"
  by (simp add: query_mux_def health_sends query_sends latest_sends devices_sends timeseries_sends)

subsection \<open>Properties\<close>

text \<open>C8. Request values cannot change a statement: whatever text the device, sensor, metric, kind and
  rollup parameters are, the statements of the latest, timeseries and device endpoints read, by the
  quoting rules of SQL, as fixed code with these texts, unchanged, as literals; in the code of a
  series only the table and column vary, among three fixed choices, and the two numbers.\<close>

theorem request_values_stay_literals:
  "sql_pieces (latest_sql device sensor metric) =
     Some (where_keys (''SELECT ts, value, unit FROM readings'' @ newl @ tab2) device sensor metric
       @ [Code (newl @ tab2 @ '' LATEST ON ts PARTITION BY device, sensor, metric'')])
   \<and> sql_pieces (timeseries_sql (fst (series_source roll)) (snd (series_source roll)) device sensor metric from to) =
     Some (where_keys (''SELECT ts, '' @ snd (series_source roll) @ '' FROM '' @ fst (series_source roll) @ newl @ tab2) device sensor metric
       @ ns_lits (newl @ tab2 @ ''   AND ts >= to_timestamp('') (show_int (sint from)) '') AND ts < to_timestamp('' (show_int (sint to))
           ('')'' @ newl @ tab2 @ '' ORDER BY ts''))
   \<and> series_source roll \<in> {(''readings'', ''value''), (''readings_1m'', ''avg''), (''readings_1h'', ''avg'')}
   \<and> sql_pieces (upsert_sql device kind a b) = Some (upsert_lits device kind a b)"
  using timeseries_pieces [of "fst (series_source roll)" "snd (series_source roll)"] series_source_cases [of roll]
  by (auto simp: latest_pieces upsert_pieces)

text \<open>The query API sends at most one request to the database per request it serves, the one its
  endpoint builds; with a token configured, a request without it, except for the health check,
  sends nothing and is answered 401.\<close>

lemma query_api_guarded:
  "if authorized token rq \<or> rq_path rq = ''/health'' then at_most_one ev rq h (fst (query_NewServer token ev rq h))
   else fst (query_NewServer token ev rq h) = h \<and> rs_status (snd (query_NewServer token ev rq h)) = 401"
proof (cases "authorized token rq \<or> rq_path rq = ''/health''")
  case True
  then have "query_NewServer token ev rq h = query_mux ev rq h"
    by (auto simp: query_NewServer_def query_auth_def auth_check_def authorized_def)
  then show ?thesis using True query_mux_sends by simp
next
  case False
  then show ?thesis
    using query_http.unauthorized_elsewhere_no_effect [of token rq ev h] query_http.unauthorized_401 [of token rq ev h] by simp
qed

text \<open>C37. Epochs in every unit mean the same instant: for a time in nanoseconds from September 2001 (the
  start of 19-digit nanosecond epochs) to the end of the 64-bit range, its decimal epochs in
  nanoseconds, microseconds, milliseconds and seconds are recognized and give that time, cut to
  the unit.\<close>

theorem epoch_units_agree:
  assumes "10 ^ 18 \<le> t" and "t < 2 ^ 63"
  shows "parseTimeArg quote (show_int t) = Inr (word_of_int t)
    \<and> parseTimeArg quote (show_int (t div 10 ^ 3)) = Inr (word_of_int (t div 10 ^ 3 * 10 ^ 3))
    \<and> parseTimeArg quote (show_int (t div 10 ^ 6)) = Inr (word_of_int (t div 10 ^ 6 * 10 ^ 6))
    \<and> parseTimeArg quote (show_int (t div 10 ^ 9)) = Inr (word_of_int (t div 10 ^ 9 * 10 ^ 9))"
proof -
  have num: "parseTimeArg quote (show_int n) = Inr (if n < 10 ^ 12 then word_of_int (n * 10 ^ 9)
      else if n < 10 ^ 15 then word_of_int (n * 10 ^ 6) else if n < 10 ^ 18 then word_of_int (n * 10 ^ 3) else word_of_int n)"
    if "0 \<le> n" "n < 2 ^ 63" for n
  proof -
    have "list_all is_digit (show_int n)"
      using that show_nat_digits by (auto simp: show_int_def list_all_iff)
    then show ?thesis
      using that parse_show_int [of n] by (simp add: parseTimeArg_def digits_not_rfc3339)
  qed
  have "10 ^ 15 \<le> t div 10 ^ 3 \<and> t div 10 ^ 3 < 10 ^ 18" "10 ^ 12 \<le> t div 10 ^ 6 \<and> t div 10 ^ 6 < 10 ^ 15" "0 \<le> t div 10 ^ 9 \<and> t div 10 ^ 9 < 10 ^ 12"
    using assms by (simp_all, linarith+)
  then show ?thesis
    using assms by (simp add: num)
qed

theorem epoch_units_agree_witness:
  "parseTimeArg (\<lambda>s. s) (show_int (1704067200123456789 div 10 ^ 9)) = Inr (word_of_int (1704067200123456789 div 10 ^ 9 * 10 ^ 9))"
  using epoch_units_agree [of 1704067200123456789 "\<lambda>s. s"] by simp


subsection \<open>Where the API falls short\<close>

text \<open>The latest value never says what it is the latest value of.\<close>

lemma latest_has_no_keys:
  "latestFrom quote oor res = Inr lv \<Longrightarrow> lt_Device lv = [] \<and> lt_Sensor lv = [] \<and> lt_Metric lv = []"
  by (auto simp: latestFrom_def split: list.splits sum.splits if_splits)

text \<open>A second epoch after April 2262, or a millisecond epoch before September 2001, is taken for another time.\<close>

lemma late_seconds_wrap: "parseTimeArg quote (show_int 9223372037) = Inr w \<Longrightarrow> sint w < 0"
  using parse_show_int [of 9223372037] digits_not_rfc3339 [of "show_int 9223372037"] show_nat_digits [of _ 9223372037]
  by (auto simp: parseTimeArg_def show_int_def list_all_iff)

lemma early_millis_are_seconds: "0 \<le> n \<Longrightarrow> n < 10 ^ 12 \<Longrightarrow> parseTimeArg quote (show_int n) = Inr (word_of_int (n * 10 ^ 9))"
  using parse_show_int [of n] digits_not_rfc3339 [of "show_int n"] show_nat_digits [of _ "nat n"]
  by (auto simp: parseTimeArg_def show_int_def list_all_iff)

text \<open>A request without a sensor asks for the sensor with the empty name.\<close>

lemma missing_sensor_is_empty_name:
  "sql_pieces (latest_sql device [] metric) =
     Some ([Code (''SELECT ts, value, unit FROM readings'' @ newl @ tab2 @ '' WHERE device = ''), Lit device, Code '' AND sensor = '', Lit [],
       Code '' AND metric = '', Lit metric, Code (newl @ tab2 @ '' LATEST ON ts PARTITION BY device, sensor, metric'')])"
  by (simp add: latest_pieces where_keys_def)

end
