(* ===== verification/Topology.thy ===== *)
theory Topology
  imports QuestDB_Client Go_Http "HOL-Library.Finite_Map" "HOL-Library.Multiset" "HOL-Library.Product_Lexorder"
begin

text \<open>
  go-telemetry/internal/topology, model.go, graph.go and author.go: the directed graph of the
  plant. Each operation holds the graph's lock from its first to its last access and is one
  step, except \<open>Spec\<close>, which reads nodes and edges under two separate locks. Go's maps are
  finite maps. What Go leaves open is an argument: the enumeration order of a map, the order
  sort.Slice gives to elements that compare equal, and fmt's \<open>%q\<close> in the error texts.
\<close>

type_synonym node_kind = string
type_synonym edge_kind = string

abbreviation KindRoom :: node_kind where "KindRoom \<equiv> ''room''"
abbreviation KindRack :: node_kind where "KindRack \<equiv> ''rack''"
abbreviation KindPDU :: node_kind where "KindPDU \<equiv> ''pdu''"
abbreviation KindUPS :: node_kind where "KindUPS \<equiv> ''ups''"
abbreviation KindCoolingLoop :: node_kind where "KindCoolingLoop \<equiv> ''cooling_loop''"
abbreviation KindSensor :: node_kind where "KindSensor \<equiv> ''sensor''"
abbreviation KindServer :: node_kind where "KindServer \<equiv> ''server''"
abbreviation KindCable :: node_kind where "KindCable \<equiv> ''cable''"

abbreviation EdgePowers :: edge_kind where "EdgePowers \<equiv> ''powers''"
abbreviation EdgeCools :: edge_kind where "EdgeCools \<equiv> ''cools''"
abbreviation EdgeFeeds :: edge_kind where "EdgeFeeds \<equiv> ''feeds''"

text \<open>A label map; None is the nil map.\<close>

type_synonym labels = "(string, string) fmap option"

record node =
  nd_ID :: string
  nd_Kind :: node_kind
  nd_Labels :: labels

record edge =
  ed_From :: string
  ed_To :: string
  ed_Kind :: edge_kind
  ed_Labels :: labels

record spec =
  sp_Nodes :: "node list"
  sp_Edges :: "edge list"

record graph =
  g_nodes :: "(string, node) fmap"
  g_out :: "(string, edge list) fmap"
  g_in :: "(string, edge list) fmap"

definition NewGraph :: graph where
  "NewGraph = \<lparr>g_nodes = fmempty, g_out = fmempty, g_in = fmempty\<rparr>"

definition cloneLabels :: "labels \<Rightarrow> labels" where
  "cloneLabels m = (case m of None \<Rightarrow> None | Some l \<Rightarrow> Some l)"

text \<open>A map of slices read at a key: the nil slice when it is absent.\<close>

definition at_key :: "(string, edge list) fmap \<Rightarrow> string \<Rightarrow> edge list" where
  "at_key m k = (case fmlookup m k of None \<Rightarrow> [] | Some es \<Rightarrow> es)"

definition append_at :: "string \<Rightarrow> edge \<Rightarrow> (string, edge list) fmap \<Rightarrow> (string, edge list) fmap" where
  "append_at k e m = fmupd k (at_key m k @ [e]) m"

definition known :: "graph \<Rightarrow> string \<Rightarrow> bool" where
  "known g i = (fmlookup (g_nodes g) i \<noteq> None)"

definition add_node :: "node \<Rightarrow> graph \<Rightarrow> graph" where
  "add_node n g = g\<lparr>g_nodes := fmupd (nd_ID n) (n\<lparr>nd_Labels := cloneLabels (nd_Labels n)\<rparr>) (g_nodes g)\<rparr>"

definition add_edge :: "edge \<Rightarrow> graph \<Rightarrow> graph" where
  "add_edge e g = (let cp = e\<lparr>ed_Labels := cloneLabels (ed_Labels e)\<rparr>
     in g\<lparr>g_out := append_at (ed_From e) cp (g_out g), g_in := append_at (ed_To e) cp (g_in g)\<rparr>)"

definition UpsertNode :: "(string \<Rightarrow> string) \<Rightarrow> node \<Rightarrow> graph \<Rightarrow> graph \<times> string option" where
  "UpsertNode quote n g =
     (if nd_ID n = [] then (g, Some ''topology: node id required'')
      else if nd_Kind n = [] then (g, Some (''topology: node '' @ quote (nd_ID n) @ '' kind required''))
      else (add_node n g, None))"

definition UpsertEdge :: "(string \<Rightarrow> string) \<Rightarrow> edge \<Rightarrow> graph \<Rightarrow> graph \<times> string option" where
  "UpsertEdge quote e g =
     (if ed_From e = [] \<or> ed_To e = [] then (g, Some ''topology: edge endpoints required'')
      else if ed_Kind e = [] then (g, Some ''topology: edge kind required'')
      else if \<not> known g (ed_From e) then (g, Some (''topology: unknown from node '' @ quote (ed_From e)))
      else if \<not> known g (ed_To e) then (g, Some (''topology: unknown to node '' @ quote (ed_To e)))
      else (add_edge e g, None))"

text \<open>The edge loop of \<open>Load\<close>: it stops at the first edge with an unknown endpoint.\<close>

fun load_edges :: "(string \<Rightarrow> string) \<Rightarrow> edge list \<Rightarrow> graph \<Rightarrow> graph \<times> string option" where
  "load_edges quote [] g = (g, None)"
| "load_edges quote (e # es) g =
     (if \<not> known g (ed_From e) then (g, Some (''topology: edge references unknown from node '' @ quote (ed_From e)))
      else if \<not> known g (ed_To e) then (g, Some (''topology: edge references unknown to node '' @ quote (ed_To e)))
      else load_edges quote es (add_edge e g))"

definition Load :: "(string \<Rightarrow> string) \<Rightarrow> spec \<Rightarrow> graph \<Rightarrow> graph \<times> string option" where
  "Load quote sp g =
     (let g0 = g\<lparr>g_nodes := fmempty, g_out := fmempty, g_in := fmempty\<rparr>
      in load_edges quote (sp_Edges sp) (fold add_node (sp_Nodes sp) g0))"

definition Node :: "string \<Rightarrow> graph \<Rightarrow> node option" where
  "Node i g = fmlookup (g_nodes g) i"

text \<open>Every node is stored under its own id, so the order by id is total on them.\<close>

definition Nodes :: "graph \<Rightarrow> node list" where
  "Nodes g = map (\<lambda>i. the (fmlookup (g_nodes g) i)) (sorted_list_of_set (fset (fmdom (g_nodes g))))"

definition edge_key :: "edge \<Rightarrow> string \<times> string \<times> string" where
  "edge_key e = (ed_From e, ed_To e, ed_Kind e)"

text \<open>What sort.Slice promises for the comparison of \<open>edgesSorted\<close>.\<close>

definition slice_sort :: "(edge list \<Rightarrow> edge list) \<Rightarrow> bool" where
  "slice_sort srt \<longleftrightarrow> (\<forall>es. mset (srt es) = mset es \<and> sorted (map edge_key (srt es)))"

definition edgesSorted :: "(edge list \<Rightarrow> edge list) \<Rightarrow> string list \<Rightarrow> graph \<Rightarrow> edge list" where
  "edgesSorted srt order g = srt (concat (map (at_key (g_out g)) order))"

text \<open>The two reads of \<open>Spec\<close>, each of the graph as it is at that moment.\<close>

definition Spec_of :: "(edge list \<Rightarrow> edge list) \<Rightarrow> string list \<Rightarrow> graph \<Rightarrow> graph \<Rightarrow> spec" where
  "Spec_of srt order g1 g2 = \<lparr>sp_Nodes = Nodes g1, sp_Edges = edgesSorted srt order g2\<rparr>"

definition Successors :: "string \<Rightarrow> graph \<Rightarrow> edge list" where
  "Successors i g = at_key (g_out g) i"

definition Predecessors :: "string \<Rightarrow> graph \<Rightarrow> edge list" where
  "Predecessors i g = at_key (g_in g) i"

definition predByKind :: "string \<Rightarrow> edge_kind \<Rightarrow> graph \<Rightarrow> edge list" where
  "predByKind i k g = filter (\<lambda>e. ed_Kind e = k) (at_key (g_in g) i)"

definition Cools :: "string \<Rightarrow> graph \<Rightarrow> edge list" where "Cools i g = predByKind i EdgeCools g"

definition Feeds :: "string \<Rightarrow> graph \<Rightarrow> edge list" where "Feeds i g = predByKind i EdgeFeeds g"

subsection \<open>Breadth-first search\<close>

type_synonym bfs_state = "string set \<times> node list \<times> string list"

definition nbr_edges :: "bool \<Rightarrow> string \<Rightarrow> graph \<Rightarrow> edge list" where
  "nbr_edges up cur g = (if up then at_key (g_in g) cur else at_key (g_out g) cur)"

definition next_of :: "bool \<Rightarrow> edge \<Rightarrow> string" where
  "next_of up e = (if up then ed_From e else ed_To e)"

text \<open>The body of the inner loop, for one edge.\<close>

definition visit :: "graph \<Rightarrow> edge_kind \<Rightarrow> bool \<Rightarrow> edge \<Rightarrow> bfs_state \<Rightarrow> bfs_state" where
  "visit g k up e st = (case st of (seen, order, queue) \<Rightarrow>
     if ed_Kind e \<noteq> k then st
     else if next_of up e \<in> seen then st
     else case fmlookup (g_nodes g) (next_of up e) of
         None \<Rightarrow> (insert (next_of up e) seen, order, queue)
       | Some n \<Rightarrow> (insert (next_of up e) seen, order @ [n], queue @ [next_of up e]))"

definition unseen :: "graph \<Rightarrow> string set \<Rightarrow> nat" where
  "unseen g seen = card (fset (fmdom (g_nodes g)) - seen)"

lemma unseen_insert: "i |\<in>| fmdom (g_nodes g) \<Longrightarrow> i \<notin> seen \<Longrightarrow> Suc (unseen g (insert i seen)) = unseen g seen"
  unfolding unseen_def Diff_insert [of _ i seen] by (rule card_Suc_Diff1) auto

lemma unseen_insert_le: "unseen g (insert i seen) \<le> unseen g seen"
  unfolding unseen_def by (intro card_mono) auto

lemma visit_measure:
  "visit g k up e (seen, order, queue) = (seen', order', queue') \<Longrightarrow>
   unseen g seen' + length queue' \<le> unseen g seen + length queue"
  using unseen_insert [of "next_of up e" g seen] unseen_insert_le [of g "next_of up e" seen]
  by (auto simp: visit_def dest: fmdomI split: if_splits option.splits)

lemma visits_measure:
  "fold (visit g k up) es (seen, order, queue) = (seen', order', queue') \<Longrightarrow>
   unseen g seen' + length queue' \<le> unseen g seen + length queue"
proof (induction es arbitrary: seen order queue)
  case (Cons e es)
  obtain s1 o1 q1 where v: "visit g k up e (seen, order, queue) = (s1, o1, q1)"
    by (cases "visit g k up e (seen, order, queue)") auto
  then have "unseen g seen' + length queue' \<le> unseen g s1 + length q1"
    using Cons by simp
  then show ?case
    using visit_measure [OF v] by simp
qed simp

function bfs_loop :: "graph \<Rightarrow> edge_kind \<Rightarrow> bool \<Rightarrow> string set \<Rightarrow> node list \<Rightarrow> string list \<Rightarrow> node list" where
  "bfs_loop g k up seen order [] = order"
| "bfs_loop g k up seen order (cur # queue) =
     (case fold (visit g k up) (nbr_edges up cur g) (seen, order, queue) of
        (seen', order', queue') \<Rightarrow> bfs_loop g k up seen' order' queue')"
  by pat_completeness auto
termination
  by (relation "measure (\<lambda>(g, k, up, seen, order, queue). unseen g seen + length queue)")
    (auto simp: less_Suc_eq_le dest: visits_measure split: prod.split)

definition bfs :: "string \<Rightarrow> edge_kind \<Rightarrow> bool \<Rightarrow> graph \<Rightarrow> node list" where
  "bfs i k up g = bfs_loop g k up {i} [] [i]"

definition walkUp :: "string \<Rightarrow> edge_kind \<Rightarrow> graph \<Rightarrow> node list" where "walkUp i k g = bfs i k True g"
definition walkDown :: "string \<Rightarrow> edge_kind \<Rightarrow> graph \<Rightarrow> node list" where "walkDown i k g = bfs i k False g"
definition PowersChain :: "string \<Rightarrow> graph \<Rightarrow> node list" where "PowersChain i g = walkUp i EdgePowers g"
definition CoolingChain :: "string \<Rightarrow> graph \<Rightarrow> node list" where "CoolingChain i g = walkDown i EdgeCools g"

subsection \<open>author.go\<close>

definition mapKind :: "string \<Rightarrow> node_kind" where
  "mapKind k = (if k \<in> {KindRack, KindPDU, KindUPS, KindCoolingLoop, KindServer, KindRoom, KindCable} then k else KindSensor)"

text \<open>A file's outcome: unreadable, no JSON, or a spec.\<close>

datatype spec_file = ReadError string | ParseError string | SpecFile spec

definition LoadSpec :: "(string \<Rightarrow> string) \<Rightarrow> string \<Rightarrow> spec_file \<Rightarrow> string + graph" where
  "LoadSpec quote path f = (case f of
       ReadError e \<Rightarrow> Inl (''topology: read '' @ path @ '': '' @ e)
     | ParseError e \<Rightarrow> Inl (''topology: parse '' @ path @ '': '' @ e)
     | SpecFile sp \<Rightarrow> (case Load quote sp NewGraph of (g, Some e) \<Rightarrow> Inl e | (g, None) \<Rightarrow> Inr g))"

text \<open>The answer of the device registry: an error, or the column names and the rows; a cell
  that is no string reads as the empty string.\<close>

definition cell_string :: "any \<Rightarrow> string" where
  "cell_string v = (case v of AString s \<Rightarrow> s | _ \<Rightarrow> [])"

fun discover_rows :: "(string \<Rightarrow> string) \<Rightarrow> any list list \<Rightarrow> graph \<Rightarrow> graph \<times> string option" where
  "discover_rows quote [] g = (g, None)"
| "discover_rows quote (row # rows) g =
     (if length row < 2 then discover_rows quote rows g
      else
        let device = cell_string (row ! 0); kind = cell_string (row ! 1)
        in if device = [] then discover_rows quote rows g
           else if Node device g \<noteq> None then discover_rows quote rows g
           else case UpsertNode quote \<lparr>nd_ID = device, nd_Kind = mapKind kind, nd_Labels = None\<rparr> g of
               (g', Some e) \<Rightarrow> (g', Some e)
             | (g', None) \<Rightarrow> discover_rows quote rows g')"

text \<open>\<open>%v\<close> of the columns, and the body of \<open>DiscoverFromTelemetry\<close> after the query.\<close>

definition columns_text :: "column list \<Rightarrow> string" where
  "columns_text cs = ''['' @ concat (map (\<lambda>i. (if i = 0 then [] else '' '') @ ''{'' @ col_Name (cs ! i) @ '' '' @ col_Type (cs ! i) @ ''}'') [0..<length cs]) @ '']''"

definition discover_from :: "(string \<Rightarrow> string) \<Rightarrow> string + result \<Rightarrow> graph \<Rightarrow> graph \<times> string option" where
  "discover_from quote r g = (case r of
       Inl e \<Rightarrow> (g, Some (''topology: discover: '' @ e))
     | Inr res \<Rightarrow>
         if length (res_Columns res) < 2 then (g, Some (''topology: unexpected devices columns: '' @ columns_text (res_Columns res)))
         else discover_rows quote (res_Dataset res) g)"

definition discover_sql :: string where
  "discover_sql = ''SELECT device, kind FROM devices LATEST ON last_seen PARTITION BY device''"

text \<open>The query goes to the database first; the graph is locked only by the calls inside.\<close>

definition DiscoverFromTelemetry ::
  "qdb_env \<Rightarrow> client \<Rightarrow> sent_request list \<Rightarrow> graph \<Rightarrow> sent_request list \<times> graph \<times> string option" where
  "DiscoverFromTelemetry ev c h g = (let (h', r) = Exec ev c discover_sql h in (h', discover_from (quote_text ev) r g))"

subsection \<open>The search finds what is reachable\<close>

text \<open>One hop along an edge of the kind to an existing node, and one or more hops.\<close>

definition hop :: "graph \<Rightarrow> edge_kind \<Rightarrow> bool \<Rightarrow> string \<Rightarrow> string \<Rightarrow> bool" where
  "hop g k up x y \<longleftrightarrow> (\<exists>e \<in> set (nbr_edges up x g). ed_Kind e = k \<and> next_of up e = y \<and> known g y)"

abbreviation reaches :: "graph \<Rightarrow> edge_kind \<Rightarrow> bool \<Rightarrow> string \<Rightarrow> string \<Rightarrow> bool" where
  "reaches g k up \<equiv> (hop g k up)\<^sup>+\<^sup>+"

definition nodes_of :: "graph \<Rightarrow> string list \<Rightarrow> node list" where
  "nodes_of g is = map (\<lambda>i. the (fmlookup (g_nodes g) i)) is"

text \<open>
  The invariant of the search from \<open>i\<close>: \<open>fs\<close> are the ids found so far, \<open>D\<close> the nodes whose
  edges have been followed.
\<close>

definition bfs_inv :: "graph \<Rightarrow> edge_kind \<Rightarrow> bool \<Rightarrow> string \<Rightarrow> string set \<Rightarrow> string list \<Rightarrow> bfs_state \<Rightarrow> bool" where
  "bfs_inv g k up i D fs st \<longleftrightarrow> (case st of (seen, order, queue) \<Rightarrow>
     order = nodes_of g fs \<and> distinct fs \<and> i \<notin> set fs \<and> insert i (set fs) \<subseteq> seen
     \<and> (\<forall>x\<in>seen. x = i \<or> x \<in> set fs \<or> \<not> known g x)
     \<and> (\<forall>x\<in>set fs. known g x \<and> reaches g k up i x)
     \<and> insert i (set fs) = D \<union> set queue
     \<and> (\<forall>x\<in>D. \<forall>y. hop g k up x y \<longrightarrow> y \<in> seen))"

definition mid_inv :: "graph \<Rightarrow> edge_kind \<Rightarrow> bool \<Rightarrow> string \<Rightarrow> string set \<Rightarrow> string \<Rightarrow> string list \<Rightarrow> bfs_state \<Rightarrow> bool" where
  "mid_inv g k up i D cur fs st \<longleftrightarrow> (case st of (seen, order, queue) \<Rightarrow>
     order = nodes_of g fs \<and> distinct fs \<and> i \<notin> set fs \<and> insert i (set fs) \<subseteq> seen
     \<and> (\<forall>x\<in>seen. x = i \<or> x \<in> set fs \<or> \<not> known g x)
     \<and> (\<forall>x\<in>set fs. known g x \<and> reaches g k up i x)
     \<and> insert i (set fs) = insert cur (D \<union> set queue)
     \<and> (\<forall>x\<in>D. \<forall>y. hop g k up x y \<longrightarrow> y \<in> seen))"

lemma visit_mono: "fst st \<subseteq> fst (visit g k up e st)"
  by (auto simp: visit_def split: prod.split option.split)

lemma visits_mono: "fst st \<subseteq> fst (fold (visit g k up) es st)"
proof (induction es arbitrary: st)
  case (Cons e es)
  then show ?case
    using visit_mono [of st g k up e] by (simp add: subset_trans)
qed simp

lemma visit_seen: "ed_Kind e = k \<Longrightarrow> next_of up e \<in> fst (visit g k up e st)"
  by (auto simp: visit_def split: prod.split option.split)

lemma visits_seen: "e \<in> set es \<Longrightarrow> ed_Kind e = k \<Longrightarrow> next_of up e \<in> fst (fold (visit g k up) es st)"
proof (induction es arbitrary: st)
  case (Cons e' es)
  show ?case
  proof (cases "e = e'")
    case True
    then show ?thesis
      using visit_seen [OF Cons.prems(2), of up g st] visits_mono [of "visit g k up e st" g k up es] by auto
  next
    case False
    then show ?thesis
      using Cons.IH [of "visit g k up e' st"] Cons.prems by simp
  qed
qed simp

lemma visit_mid_inv:
  assumes inv: "mid_inv g k up i D cur fs st" and e: "e \<in> set (nbr_edges up cur g)"
  shows "\<exists>fs'. mid_inv g k up i D cur fs' (visit g k up e st)"
proof -
  obtain seen order queue where st: "st = (seen, order, queue)" by (cases st)
  let ?n = "next_of up e"
  show ?thesis
  proof (cases "ed_Kind e = k \<and> ?n \<notin> seen")
    case False
    then have "visit g k up e st = st"
      by (auto simp: visit_def st)
    with inv show ?thesis by auto
  next
    case True
    show ?thesis
    proof (cases "fmlookup (g_nodes g) ?n")
      case None
      then have "mid_inv g k up i D cur fs (visit g k up e st)"
        using inv True by (auto simp: mid_inv_def visit_def st known_def)
      then show ?thesis ..
    next
      case (Some n)
      have cur: "cur = i \<or> reaches g k up i cur"
        using inv by (auto simp: mid_inv_def st)
      have "hop g k up cur ?n"
        using e True Some by (auto simp: hop_def known_def)
      with cur have "reaches g k up i ?n"
        by (auto intro: tranclp.intros)
      then have "mid_inv g k up i D cur (fs @ [?n]) (visit g k up e st)"
        using inv True Some by (auto simp: mid_inv_def visit_def st known_def nodes_of_def)
      then show ?thesis ..
    qed
  qed
qed

lemma visits_mid_inv:
  "mid_inv g k up i D cur fs st \<Longrightarrow> set es \<subseteq> set (nbr_edges up cur g) \<Longrightarrow>
   \<exists>fs'. mid_inv g k up i D cur fs' (fold (visit g k up) es st)"
proof (induction es arbitrary: st fs)
  case (Cons e es)
  then obtain fs1 where "mid_inv g k up i D cur fs1 (visit g k up e st)"
    using visit_mid_inv [of g k up i D cur fs st e] by auto
  then show ?case
    using Cons by auto
qed auto

lemma visits_bfs_inv:
  assumes "bfs_inv g k up i D fs (seen, order, cur # queue)"
  shows "\<exists>fs'. bfs_inv g k up i (insert cur D) fs' (fold (visit g k up) (nbr_edges up cur g) (seen, order, queue))"
proof -
  let ?st = "fold (visit g k up) (nbr_edges up cur g) (seen, order, queue)"
  have "mid_inv g k up i D cur fs (seen, order, queue)"
    using assms by (auto simp: bfs_inv_def mid_inv_def)
  then obtain fs' where m: "mid_inv g k up i D cur fs' ?st"
    using visits_mid_inv [of g k up i D cur fs "(seen, order, queue)" "nbr_edges up cur g"] by auto
  have "y \<in> fst ?st" if "hop g k up cur y" for y
    using that visits_seen [of _ "nbr_edges up cur g" k up g "(seen, order, queue)"] by (auto simp: hop_def)
  with m have "bfs_inv g k up i (insert cur D) fs' ?st"
    by (auto simp: bfs_inv_def mid_inv_def split: prod.splits)
  then show ?thesis ..
qed

lemma bfs_loop_inv:
  "bfs_inv g k up i D fs (seen, order, queue) \<Longrightarrow>
   \<exists>D' fs' seen'. bfs_inv g k up i D' fs' (seen', bfs_loop g k up seen order queue, [])"
proof (induction g k up seen order queue arbitrary: D fs rule: bfs_loop.induct)
  case (2 g k up seen order cur queue)
  obtain seen' order' queue' where st: "fold (visit g k up) (nbr_edges up cur g) (seen, order, queue) = (seen', order', queue')"
    by (cases "fold (visit g k up) (nbr_edges up cur g) (seen, order, queue)") auto
  obtain fs' where "bfs_inv g k up i (insert cur D) fs' (seen', order', queue')"
    using visits_bfs_inv [OF 2(2)] st by auto
  then show ?case
    using 2(1) [OF st [symmetric] refl] st by simp
qed auto

lemma bfs_result:
  "\<exists>fs. bfs i k up g = nodes_of g fs \<and> distinct fs \<and> set fs = {x. reaches g k up i x \<and> x \<noteq> i}"
proof -
  have "bfs_inv g k up i {} [] ({i}, [], [i])"
    by (simp add: bfs_inv_def nodes_of_def)
  then obtain D fs seen where inv: "bfs_inv g k up i D fs (seen, bfs i k up g, [])"
    unfolding bfs_def using bfs_loop_inv by blast
  have closed: "y \<in> insert i (set fs)" if "x \<in> insert i (set fs)" "hop g k up x y" for x y
  proof -
    have "y \<in> seen"
      using inv that by (auto simp: bfs_inv_def)
    moreover have "known g y"
      using that(2) by (auto simp: hop_def)
    ultimately show ?thesis
      using inv by (auto simp: bfs_inv_def)
  qed
  have "x \<in> insert i (set fs)" if "reaches g k up i x" for x
    using that by (induction rule: tranclp_induct) (meson closed insertI1)+
  then show ?thesis
    using inv by (intro exI [of _ fs]) (auto simp: bfs_inv_def)
qed

subsection \<open>The graph's invariant\<close>

text \<open>Nodes are stored under their ids, edges under existing endpoints, and the two adjacency
  maps hold the same edges, each the same number of times.\<close>

definition graph_wf :: "graph \<Rightarrow> bool" where
  "graph_wf g \<longleftrightarrow> (\<forall>i n. fmlookup (g_nodes g) i = Some n \<longrightarrow> nd_ID n = i)
     \<and> (\<forall>k. \<forall>e \<in> set (at_key (g_out g) k). ed_From e = k \<and> known g k \<and> known g (ed_To e))
     \<and> (\<forall>k. \<forall>e \<in> set (at_key (g_in g) k). ed_To e = k \<and> known g k \<and> known g (ed_From e))
     \<and> (\<forall>e. count (mset (at_key (g_out g) (ed_From e))) e = count (mset (at_key (g_in g) (ed_To e))) e)"

lemma cloneLabels_id [simp]: "cloneLabels m = m"
  by (cases m) (simp_all add: cloneLabels_def)

lemma at_key_append_at [simp]: "at_key (append_at k e m) j = (if j = k then at_key m j @ [e] else at_key m j)"
  by (simp add: at_key_def append_at_def)

lemma at_key_empty [simp]: "at_key fmempty k = []"
  by (simp add: at_key_def)

lemma add_node_sel [simp]:
  "fmlookup (g_nodes (add_node n g)) i = (if i = nd_ID n then Some n else fmlookup (g_nodes g) i)"
  "g_out (add_node n g) = g_out g" "g_in (add_node n g) = g_in g"
  by (simp_all add: add_node_def)

lemma add_edge_sel [simp]:
  "g_nodes (add_edge e g) = g_nodes g" "known (add_edge e g) i = known g i"
  "at_key (g_out (add_edge e g)) k = (if k = ed_From e then at_key (g_out g) k @ [e] else at_key (g_out g) k)"
  "at_key (g_in (add_edge e g)) k = (if k = ed_To e then at_key (g_in g) k @ [e] else at_key (g_in g) k)"
  by (simp_all add: add_edge_def Let_def known_def)

lemma known_add_node [simp]: "known (add_node n g) i \<longleftrightarrow> i = nd_ID n \<or> known g i"
  by (simp add: known_def)

lemma NewGraph_wf: "graph_wf NewGraph"
  by (simp add: graph_wf_def NewGraph_def)

lemma add_node_wf: "graph_wf g \<Longrightarrow> graph_wf (add_node n g)"
  by (auto simp: graph_wf_def)

lemma add_edge_wf: "graph_wf g \<Longrightarrow> known g (ed_From e) \<Longrightarrow> known g (ed_To e) \<Longrightarrow> graph_wf (add_edge e g)"
  by (auto simp: graph_wf_def) metis+

lemma UpsertNode_wf: "graph_wf g \<Longrightarrow> graph_wf (fst (UpsertNode quote n g))"
  by (simp add: UpsertNode_def add_node_wf)

lemma UpsertEdge_wf: "graph_wf g \<Longrightarrow> graph_wf (fst (UpsertEdge quote e g))"
  by (simp add: UpsertEdge_def add_edge_wf)

lemma load_edges_wf: "graph_wf g \<Longrightarrow> graph_wf (fst (load_edges quote es g))"
  by (induction quote es g rule: load_edges.induct) (simp_all add: add_edge_wf)

lemma fold_add_node_wf: "graph_wf g \<Longrightarrow> graph_wf (fold add_node ns g)"
  by (induction ns arbitrary: g) (simp_all add: add_node_wf)

lemma Load_wf: "graph_wf (fst (Load quote sp g))"
  unfolding Load_def Let_def by (intro load_edges_wf fold_add_node_wf) (simp add: graph_wf_def)

lemma discover_rows_wf: "graph_wf g \<Longrightarrow> graph_wf (fst (discover_rows quote rows g))"
  by (induction quote rows g rule: discover_rows.induct)
    (auto simp: Let_def UpsertNode_def add_node_wf split: prod.splits option.splits)

lemma Discover_wf: "graph_wf g \<Longrightarrow> graph_wf (fst (snd (DiscoverFromTelemetry ev c h g)))"
  by (auto simp: DiscoverFromTelemetry_def discover_from_def discover_rows_wf split: sum.split prod.split)

subsection \<open>Operations as steps\<close>

datatype topo_op =
    TNode node
  | TEdge edge
  | TLoad spec
  | TDiscover qdb_env client "sent_request list"

fun topo_step :: "(string \<Rightarrow> string) \<Rightarrow> topo_op \<Rightarrow> graph \<Rightarrow> graph" where
  "topo_step quote (TNode n) g = fst (UpsertNode quote n g)"
| "topo_step quote (TEdge e) g = fst (UpsertEdge quote e g)"
| "topo_step quote (TLoad sp) g = fst (Load quote sp g)"
| "topo_step quote (TDiscover ev c h) g = fst (snd (DiscoverFromTelemetry ev c h g))"

definition topo_run :: "(string \<Rightarrow> string) \<Rightarrow> topo_op list \<Rightarrow> graph \<Rightarrow> graph" where
  "topo_run quote ops g = fold (topo_step quote) ops g"

lemma topo_step_wf: "graph_wf g \<Longrightarrow> graph_wf (topo_step quote op g)"
  by (cases op) (simp_all add: UpsertNode_wf UpsertEdge_wf Load_wf Discover_wf)

lemma topo_run_wf: "graph_wf g \<Longrightarrow> graph_wf (topo_run quote ops g)"
  unfolding topo_run_def by (induction ops arbitrary: g) (simp_all add: topo_step_wf)

subsection \<open>Loading what Spec wrote\<close>

lemma fold_add_node_out [simp]: "g_out (fold add_node ns g) = g_out g" "g_in (fold add_node ns g) = g_in g"
  by (induction ns arbitrary: g) simp_all

lemma fold_add_nodes_lookup:
  assumes "\<forall>i n. fmlookup (g_nodes g) i = Some n \<longrightarrow> nd_ID n = i" "\<forall>i\<in>set js. known g i"
  shows "fmlookup (g_nodes (fold add_node (nodes_of g js) g0)) x =
    (if x \<in> set js then fmlookup (g_nodes g) x else fmlookup (g_nodes g0) x)"
  using assms(2)
proof (induction js rule: rev_induct)
  case (snoc i js)
  then obtain n where "fmlookup (g_nodes g) i = Some n" "nd_ID n = i"
    using assms(1) by (auto simp: known_def)
  with snoc show ?case
    by (auto simp: nodes_of_def)
qed (simp add: nodes_of_def)

lemma load_edges_ok:
  "\<forall>e\<in>set es. known g (ed_From e) \<and> known g (ed_To e) \<Longrightarrow> load_edges quote es g = (fold add_edge es g, None)"
  by (induction es arbitrary: g) simp_all

lemma fold_add_edge_sel:
  "g_nodes (fold add_edge es g) = g_nodes g"
  "at_key (g_out (fold add_edge es g)) k = at_key (g_out g) k @ filter (\<lambda>e. ed_From e = k) es"
  "at_key (g_in (fold add_edge es g)) k = at_key (g_in g) k @ filter (\<lambda>e. ed_To e = k) es"
  by (induction es arbitrary: g) auto

definition all_edges :: "string list \<Rightarrow> graph \<Rightarrow> edge list" where
  "all_edges order g = concat (map (at_key (g_out g)) order)"

definition enumerates :: "string list \<Rightarrow> graph \<Rightarrow> bool" where
  "enumerates order g \<longleftrightarrow> distinct order \<and> set order = fset (fmdom (g_out g))"

lemma all_edges_count:
  assumes "graph_wf g" "enumerates order g"
  shows "count (mset (all_edges order g)) e = count (mset (at_key (g_out g) (ed_From e))) e"
proof -
  have out: "ed_From e' = j" if "e' \<in> set (at_key (g_out g) j)" for e' j
    using assms(1) that by (simp add: graph_wf_def)
  have "count (mset (concat (map (at_key (g_out g)) js))) e =
      (if ed_From e \<in> set js then count (mset (at_key (g_out g) (ed_From e))) e else 0)" if "distinct js" for js
    using that
  proof (induction js)
    case (Cons j js)
    have "count (mset (at_key (g_out g) j)) e = 0" if "ed_From e \<noteq> j"
      using out [of e j] that by (auto simp: count_eq_zero_iff)
    with Cons show ?case by auto
  qed simp
  moreover have "at_key (g_out g) (ed_From e) = []" if "ed_From e \<notin> set order"
    using assms(2) that by (auto simp: enumerates_def at_key_def fmdom_notD split: option.split)
  ultimately show ?thesis
    using assms(2) by (auto simp: all_edges_def enumerates_def)
qed

lemma all_edges_known:
  assumes "graph_wf g" "e \<in> set (all_edges order g)"
  shows "known g (ed_From e) \<and> known g (ed_To e)"
  using assms by (fastforce simp: graph_wf_def all_edges_def)

lemma Spec_Load:
  assumes wf: "graph_wf g" and en: "enumerates order g" and srt: "slice_sort srt"
  shows "\<exists>g'. Load quote (Spec_of srt order g g) h = (g', None) \<and> g_nodes g' = g_nodes g
    \<and> (\<forall>k. mset (Successors k g') = mset (Successors k g) \<and> mset (Predecessors k g') = mset (Predecessors k g))"
proof -
  let ?es = "edgesSorted srt order g"
  let ?g0 = "fold add_node (Nodes g) (h\<lparr>g_nodes := fmempty, g_out := fmempty, g_in := fmempty\<rparr>)"
  have ms: "mset ?es = mset (all_edges order g)"
    using srt by (simp add: edgesSorted_def slice_sort_def all_edges_def)
  then have set_es: "set ?es = set (all_edges order g)"
    by (metis set_mset_mset)
  have nodes: "fmlookup (g_nodes ?g0) x = fmlookup (g_nodes g) x" for x
  proof -
    have "Nodes g = nodes_of g (sorted_list_of_set (fset (fmdom (g_nodes g))))"
      by (simp add: Nodes_def nodes_of_def)
    moreover have "\<forall>i\<in>set (sorted_list_of_set (fset (fmdom (g_nodes g)))). known g i"
      by (auto simp: known_def fmdom_notD)
    ultimately show ?thesis
      using wf by (simp add: graph_wf_def fold_add_nodes_lookup fmdom_notD)
  qed
  have "\<forall>e\<in>set ?es. known ?g0 (ed_From e) \<and> known ?g0 (ed_To e)"
    using all_edges_known [OF wf, of _ order] nodes by (simp add: set_es known_def)
  then have load: "Load quote (Spec_of srt order g g) h = (fold add_edge ?es ?g0, None)"
    by (simp add: Load_def Spec_of_def load_edges_ok)
  have "mset (filter (\<lambda>e. ed_From e = k) ?es) = mset (at_key (g_out g) k)" for k
  proof (rule multiset_eqI)
    fix e
    show "count (mset (filter (\<lambda>e. ed_From e = k) ?es)) e = count (mset (at_key (g_out g) k)) e"
    proof (cases "ed_From e = k")
      case True
      then show ?thesis
        using all_edges_count [OF wf en, of e] by (simp add: ms)
    next
      case False
      then have "e \<notin> set (at_key (g_out g) k)"
        using wf by (auto simp: graph_wf_def)
      with False show ?thesis
        by (simp add: count_eq_zero_iff [symmetric])
    qed
  qed
  moreover have "mset (filter (\<lambda>e. ed_To e = k) ?es) = mset (at_key (g_in g) k)" for k
  proof (rule multiset_eqI)
    fix e
    show "count (mset (filter (\<lambda>e. ed_To e = k) ?es)) e = count (mset (at_key (g_in g) k)) e"
    proof (cases "ed_To e = k")
      case True
      moreover have "count (mset (at_key (g_out g) (ed_From e))) e = count (mset (at_key (g_in g) (ed_To e))) e"
        using wf by (simp add: graph_wf_def)
      ultimately show ?thesis
        using all_edges_count [OF wf en, of e] by (simp add: ms)
    next
      case False
      then have "e \<notin> set (at_key (g_in g) k)"
        using wf by (auto simp: graph_wf_def)
      with False show ?thesis
        by (simp add: count_eq_zero_iff [symmetric])
    qed
  qed
  ultimately show ?thesis
    using nodes by (intro exI [of _ "fold add_edge ?es ?g0"])
      (simp add: load fold_add_edge_sel Successors_def Predecessors_def fmap_ext)
qed

lemma mapKind_nonempty [simp]: "mapKind k \<noteq> []"
  by (auto simp: mapKind_def)

text \<open>A row of the registry is known when its device, if it has one, is a node.\<close>

definition row_known :: "graph \<Rightarrow> any list \<Rightarrow> bool" where
  "row_known g row = (if length row < 2 then True else if cell_string (row ! 0) = [] then True
     else known g (cell_string (row ! 0)))"

definition discovered :: "graph \<Rightarrow> any list list \<Rightarrow> graph \<times> string option \<Rightarrow> bool" where
  "discovered g rows r \<longleftrightarrow> snd r = None \<and> fmsubset (g_nodes g) (g_nodes (fst r))
     \<and> g_out (fst r) = g_out g \<and> g_in (fst r) = g_in g \<and> list_all (row_known (fst r)) rows"

lemma discovered_known: "discovered g rows r \<Longrightarrow> known g i \<Longrightarrow> known (fst r) i"
  by (auto simp: discovered_def known_def fmsubset_alt_def fmpred_iff)

lemma discover_rows_result: "discovered g rows (discover_rows quote rows g)"
proof (induction quote rows g rule: discover_rows.induct)
  case (2 quote row rows g)
  let ?d = "cell_string (row ! 0)"
  consider "length row < 2 \<or> ?d = []" | "2 \<le> length row" "?d \<noteq> []" "Node ?d g \<noteq> None"
    | "2 \<le> length row" "?d \<noteq> []" "Node ?d g = None" by linarith
  then show ?case
  proof cases
    case 1
    have "discover_rows quote (row # rows) g = discover_rows quote rows g"
      using 1 by (auto simp: Let_def)
    moreover have "discovered g rows (discover_rows quote rows g)"
      using 1 "2.IH"(1) "2.IH"(2) [OF _ refl refl] by auto
    ultimately show ?thesis
      using 1 by (auto simp: discovered_def row_known_def)
  next
    case 2
    have "discover_rows quote (row # rows) g = discover_rows quote rows g"
      using 2 by (simp add: Let_def)
    moreover have *: "discovered g rows (discover_rows quote rows g)"
      using 2 "2.IH"(3) by (auto simp: Let_def)
    moreover have "known (fst (discover_rows quote rows g)) ?d"
      using discovered_known [OF *] 2(3) by (simp add: known_def Node_def)
    ultimately show ?thesis
      by (simp add: discovered_def row_known_def)
  next
    case 3
    let ?g1 = "add_node \<lparr>nd_ID = ?d, nd_Kind = mapKind (cell_string (row ! 1)), nd_Labels = None\<rparr> g"
    have up: "UpsertNode quote \<lparr>nd_ID = ?d, nd_Kind = mapKind (cell_string (row ! 1)), nd_Labels = None\<rparr> g = (?g1, None)"
      using 3 by (simp add: UpsertNode_def)
    then have eq: "discover_rows quote (row # rows) g = discover_rows quote rows ?g1"
      using 3 by (simp add: Let_def)
    have IH: "discovered ?g1 rows (discover_rows quote rows ?g1)"
      using "2.IH"(4) 3 up by (auto simp: Let_def)
    have "known (fst (discover_rows quote rows ?g1)) ?d"
      by (rule discovered_known [OF IH]) simp
    moreover have "fmsubset (g_nodes g) (g_nodes ?g1)"
      using 3(3) by (auto simp: fmsubset_alt_def fmpred_iff Node_def)
    then have "fmsubset (g_nodes g) (g_nodes (fst (discover_rows quote rows ?g1)))"
      using IH by (auto simp: discovered_def fmsubset_alt_def fmpred_iff)
    ultimately show ?thesis
      unfolding eq using IH by (simp add: discovered_def row_known_def)
  qed
qed (simp add: discovered_def fmsubset_alt_def fmpred_iff)

subsection \<open>Properties\<close>

text \<open>C11. The upstream and downstream walks are reachability: \<open>PowersChain\<close> of a node returns, once
  each, exactly the existing nodes from which it can be reached along \<open>powers\<close> edges through
  existing nodes, and \<open>CoolingChain\<close> those it reaches along \<open>cools\<close> edges; the search ends on
  every graph, cycles and dangling edges included, and never lists the start.\<close>

theorem chains_are_reachability:
  "(\<exists>js. PowersChain i g = nodes_of g js \<and> distinct js \<and> set js = {x. reaches g EdgePowers True i x \<and> x \<noteq> i})
   \<and> (\<exists>js. CoolingChain i g = nodes_of g js \<and> distinct js \<and> set js = {x. reaches g EdgeCools False i x \<and> x \<noteq> i})"
  by (simp add: PowersChain_def CoolingChain_def walkUp_def walkDown_def bfs_result)

text \<open>C22. Every graph reachable by upserts, loads and discoveries, in any order and with any input,
  stores nodes under their ids and edges only between existing nodes, and its two adjacency maps
  hold the same edges: the predecessors of a node are the edges the other nodes list towards it.\<close>

theorem topology_invariant: "graph_wf (topo_run quote ops NewGraph)"
  by (rule topo_run_wf [OF NewGraph_wf])

lemma slice_sort_key: "slice_sort (sort_key edge_key)"
  by (simp add: slice_sort_def)

definition plant :: graph where
  "plant = topo_run (\<lambda>x. x) [TNode \<lparr>nd_ID = ''ups'', nd_Kind = KindUPS, nd_Labels = None\<rparr>,
     TNode \<lparr>nd_ID = ''pdu'', nd_Kind = KindPDU, nd_Labels = None\<rparr>,
     TEdge \<lparr>ed_From = ''ups'', ed_To = ''pdu'', ed_Kind = EdgePowers, ed_Labels = None\<rparr>] NewGraph"

lemma plant_eq:
  "g_out plant = fmupd ''ups'' [\<lparr>ed_From = ''ups'', ed_To = ''pdu'', ed_Kind = EdgePowers, ed_Labels = None\<rparr>] fmempty"
  by (simp add: plant_def topo_run_def UpsertNode_def UpsertEdge_def NewGraph_def known_def add_node_def add_edge_def
      append_at_def Let_def)

text \<open>C31. Discovery only adds: whatever the device registry answers, every node the graph had is
  unchanged and no edge is added or lost; when the query succeeds with two columns or more, the
  call succeeds and every device it names is a node afterwards, and otherwise it reports an error.\<close>

theorem discovery_only_adds:
  "case DiscoverFromTelemetry ev c h g of (h', g', err) \<Rightarrow>
     fmsubset (g_nodes g) (g_nodes g') \<and> g_out g' = g_out g \<and> g_in g' = g_in g
     \<and> (case snd (Exec ev c discover_sql h) of Inl e \<Rightarrow> err = Some (''topology: discover: '' @ e) \<and> g' = g
        | Inr res \<Rightarrow> if length (res_Columns res) < 2 then err \<noteq> None \<and> g' = g
            else err = None \<and> list_all (row_known g') (res_Dataset res))"
  using discover_rows_result [of g "res_Dataset (projr (snd (Exec ev c discover_sql h)))" "quote_text ev"]
  by (auto simp: DiscoverFromTelemetry_def discover_from_def discovered_def fmsubset_alt_def fmpred_iff split: sum.split prod.split)

subsection \<open>Where the graph falls short of its comments\<close>

text \<open>\<open>PowersChain\<close> is documented to be in topological order. Here \<open>a\<close> powers \<open>b\<close> and \<open>d\<close> powers \<open>c\<close>, and
  the chain of \<open>r\<close> lists \<open>a\<close> before \<open>b\<close> but \<open>c\<close> before \<open>d\<close>: neither direction is kept.\<close>

definition power_edge :: "string \<Rightarrow> string \<Rightarrow> edge" where
  "power_edge a b = \<lparr>ed_From = a, ed_To = b, ed_Kind = EdgePowers, ed_Labels = None\<rparr>"

definition pdu :: "string \<Rightarrow> node" where
  "pdu i = \<lparr>nd_ID = i, nd_Kind = KindPDU, nd_Labels = None\<rparr>"

lemma powers_chain_not_topological:
  "map nd_ID (PowersChain ''r'' (topo_run (\<lambda>x. x)
      (map (\<lambda>i. TNode (pdu i)) [''a'', ''b'', ''c'', ''d'', ''r''] @
       map TEdge [power_edge ''a'' ''b'', power_edge ''d'' ''c'', power_edge ''a'' ''r'', power_edge ''b'' ''r'',
         power_edge ''c'' ''r'', power_edge ''d'' ''r'']) NewGraph)) = [''a'', ''b'', ''c'', ''d'']"
  by (simp add: topo_run_def UpsertNode_def UpsertEdge_def NewGraph_def known_def add_node_def add_edge_def append_at_def at_key_def
      Let_def pdu_def power_edge_def PowersChain_def walkUp_def bfs_def nbr_edges_def visit_def next_of_def)

text \<open>An edge upserted twice is there twice.\<close>

lemma upsert_edge_duplicates:
  "UpsertEdge quote e g = (g', None) \<Longrightarrow> UpsertEdge quote e g' = (g'', None) \<Longrightarrow>
   Successors (ed_From e) g'' = Successors (ed_From e) g @ [e, e]"
  by (auto simp: UpsertEdge_def Successors_def split: if_splits)

text \<open>\<open>Spec\<close> reads nodes and edges under two locks: with an upsert in between, its result names a node
  it does not list and cannot be loaded back.\<close>

lemma spec_not_atomic:
  assumes "slice_sort srt"
  shows "snd (Load quote (Spec_of srt [''a''] NewGraph
      (topo_run quote [TNode (pdu ''a''), TEdge (power_edge ''a'' ''a'')] NewGraph)) h) \<noteq> None"
proof -
  have "mset (srt [power_edge ''a'' ''a'']) = {#power_edge ''a'' ''a''#}"
    using assms by (simp add: slice_sort_def)
  then have "srt [power_edge ''a'' ''a''] = [power_edge ''a'' ''a'']"
    by (metis mset_single_iff)
  then show ?thesis
    by (simp add: topo_run_def UpsertNode_def UpsertEdge_def NewGraph_def known_def add_node_def add_edge_def append_at_def at_key_def
        Let_def pdu_def power_edge_def Spec_of_def edgesSorted_def Nodes_def Load_def)
qed

text \<open>A load that fails has already dropped the old graph.\<close>

lemma failed_load_drops_graph:
  "known g ''a'' \<Longrightarrow> Load quote \<lparr>sp_Nodes = [], sp_Edges = [power_edge ''x'' ''y'']\<rparr> g = (g', Some e) \<Longrightarrow> \<not> known g' ''a''"
  by (auto simp: Load_def Let_def known_def split: if_splits)

end
