(* ===== verification/Topology_Server.thy ===== *)
theory Topology_Server
  imports Topology
begin

text \<open>
  go-telemetry/internal/topology/server.go: the HTTP API of the graph. Paths are those the mux
  has cleaned. The body of an upsert is decoded into the two pointers as encoding/json does
  (null leaves a nil pointer, an object allocates the struct and fills its fields).
\<close>

subsection \<open>Decoding nodes and edges\<close>

text \<open>One assignment to a label map: a null value reads as the empty string.\<close>

fun set_label_members :: "(string \<times> json) list \<Rightarrow> (string, string) fmap \<times> bool \<Rightarrow> (string, string) fmap \<times> bool" where
  "set_label_members [] acc = acc"
| "set_label_members ((k, j) # kvs) acc =
     (let (v, ok) = set_string j [] in set_label_members kvs (fmupd k v (fst acc), snd acc \<and> ok))"

fun set_labels :: "json \<Rightarrow> labels \<Rightarrow> labels \<times> bool" where
  "set_labels JNull old = (None, True)"
| "set_labels (JObj kvs) old =
     (let (m, ok) = set_label_members kvs ((case old of None \<Rightarrow> fmempty | Some m \<Rightarrow> m), True) in (Some m, ok))"
| "set_labels _ old = (old, False)"

definition zero_node :: node where "zero_node = \<lparr>nd_ID = [], nd_Kind = [], nd_Labels = None\<rparr>"
definition zero_edge :: edge where "zero_edge = \<lparr>ed_From = [], ed_To = [], ed_Kind = [], ed_Labels = None\<rparr>"

fun set_node :: "json \<Rightarrow> node option \<Rightarrow> node option \<times> bool" where
  "set_node JNull old = (None, True)"
| "set_node (JObj kvs) old =
     (let b = (case old of None \<Rightarrow> zero_node | Some n \<Rightarrow> n);
          (i, ok1) = fold_field set_string ''id'' kvs (nd_ID b, True);
          (k, ok2) = fold_field set_string ''kind'' kvs (nd_Kind b, True);
          (l, ok3) = fold_field set_labels ''labels'' kvs (nd_Labels b, True)
      in (Some \<lparr>nd_ID = i, nd_Kind = k, nd_Labels = l\<rparr>, ok1 \<and> ok2 \<and> ok3))"
| "set_node _ old = (old, False)"

fun set_edge :: "json \<Rightarrow> edge option \<Rightarrow> edge option \<times> bool" where
  "set_edge JNull old = (None, True)"
| "set_edge (JObj kvs) old =
     (let b = (case old of None \<Rightarrow> zero_edge | Some e \<Rightarrow> e);
          (f, ok1) = fold_field set_string ''from'' kvs (ed_From b, True);
          (t, ok2) = fold_field set_string ''to'' kvs (ed_To b, True);
          (k, ok3) = fold_field set_string ''kind'' kvs (ed_Kind b, True);
          (l, ok4) = fold_field set_labels ''labels'' kvs (ed_Labels b, True)
      in (Some \<lparr>ed_From = f, ed_To = t, ed_Kind = k, ed_Labels = l\<rparr>, ok1 \<and> ok2 \<and> ok3 \<and> ok4))"
| "set_edge _ old = (old, False)"

subsection \<open>Handlers\<close>

datatype topo_payload =
    TPStatus string
  | TPNode node
  | TPEdges string "edge list"
  | TPNodes string "node list"
  | TPSpec spec

type_synonym topo_handler = "(graph, topo_payload) handler"

record topo_env =
  te_quote :: "string \<Rightarrow> string"
  te_order :: "graph \<Rightarrow> string list"
  te_sort :: "edge list \<Rightarrow> edge list"

definition topo_handleHealth :: topo_handler where
  "topo_handleHealth rq g = (g, write_json 200 (TPStatus ''ok''))"

definition handleNode :: topo_handler where
  "handleNode rq g =
     (case Node (trim_prefix (rq_path rq) ''/topology/node/'') g of
        None \<Rightarrow> (g, http_error ''node not found'' 404)
      | Some n \<Rightarrow> (g, write_json 200 (TPNode n)))"

definition handleCools :: topo_handler where
  "handleCools rq g = (let i = rq_query rq ''id'' in (g, write_json 200 (TPEdges i (Cools i g))))"

definition handleFeeds :: topo_handler where
  "handleFeeds rq g = (let i = rq_query rq ''id'' in (g, write_json 200 (TPEdges i (Feeds i g))))"

definition handlePowers :: topo_handler where
  "handlePowers rq g = (let i = rq_query rq ''id'' in (g, write_json 200 (TPNodes i (PowersChain i g))))"

definition handleCooling :: topo_handler where
  "handleCooling rq g = (let i = rq_query rq ''id'' in (g, write_json 200 (TPNodes i (CoolingChain i g))))"

definition handleGraph :: "topo_env \<Rightarrow> topo_handler" where
  "handleGraph ev rq g = (g, write_json 200 (TPSpec (Spec_of (te_sort ev) (te_order ev g) g g)))"

definition handleUpsert :: "topo_env \<Rightarrow> topo_handler" where
  "handleUpsert ev rq g =
     (if rq_method rq \<noteq> ''POST'' then (g, http_error ''method not allowed'' 405)
      else
        let (n, ok1) = get_field set_node None ''node'' (rq_body rq); (e, ok2) = get_field set_edge None ''edge'' (rq_body rq)
        in if \<not> (ok1 \<and> ok2) then (g, http_error ''bad json'' 400)
           else case n of
               Some nd \<Rightarrow> (case UpsertNode (te_quote ev) nd g of
                   (g', Some err) \<Rightarrow> (g', http_error err 400)
                 | (g', None) \<Rightarrow> (g', write_json 200 (TPStatus ''node upserted'')))
             | None \<Rightarrow> (case e of
                   Some ed \<Rightarrow> (case UpsertEdge (te_quote ev) ed g of
                       (g', Some err) \<Rightarrow> (g', http_error err 400)
                     | (g', None) \<Rightarrow> (g', write_json 200 (TPStatus ''edge upserted'')))
                 | None \<Rightarrow> (g, http_error ''expected node or edge'' 400)))"

text \<open>The one subtree pattern, \<open>/topology/node/\<close>; its path without the slash is redirected.\<close>

definition topo_mux :: "topo_env \<Rightarrow> topo_handler" where
  "topo_mux ev rq g =
     (if has_prefix (rq_path rq) ''/topology/node/'' then handleNode rq g
      else if rq_path rq = ''/topology/node'' then
        (g, \<lparr>rs_status = 301, rs_headers = [(''Location'', ''/topology/node/'')], rs_body = NoBody\<rparr>)
      else serve_mux
        [(''/health'', topo_handleHealth),
         (''/topology/cools'', handleCools),
         (''/topology/feeds'', handleFeeds),
         (''/topology/powers'', handlePowers),
         (''/topology/cooling'', handleCooling),
         (''/topology/graph'', handleGraph ev),
         (''/topology/upsert'', handleUpsert ev)] rq g)"

definition topo_auth :: "string \<Rightarrow> topo_handler \<Rightarrow> topo_handler" where
  "topo_auth token nxt = auth_check token nxt"

definition topo_NewServer :: "string \<Rightarrow> topo_env \<Rightarrow> topo_handler" where
  "topo_NewServer token ev = topo_auth token (topo_mux ev)"

interpretation topo_http: guarded_service "topo_NewServer token ev" "topo_mux ev" token "[]" "[]" for token ev
  by unfold_locales
    (auto simp: topo_NewServer_def topo_auth_def cors_wrap_def fun_eq_iff topo_mux_def topo_handleHealth_def has_prefix_def)

subsection \<open>A request is at most one upsert\<close>

definition one_upsert :: "(string \<Rightarrow> string) \<Rightarrow> graph \<Rightarrow> graph \<Rightarrow> bool" where
  "one_upsert quote g g' \<longleftrightarrow> g' = g \<or> (\<exists>op. g' = topo_step quote op g)"

lemma one_upsertI:
  "UpsertNode quote n g = (g', r) \<Longrightarrow> one_upsert quote g g'"
  "UpsertEdge quote e g = (g', r) \<Longrightarrow> one_upsert quote g g'"
  using exI [of "\<lambda>op. g' = topo_step quote op g" "TNode n"] exI [of "\<lambda>op. g' = topo_step quote op g" "TEdge e"]
  by (auto simp: one_upsert_def)

lemma handleUpsert_step: "one_upsert (te_quote ev) g (fst (handleUpsert ev rq g))"
proof -
  have [simp]: "one_upsert (te_quote ev) g g"
    by (simp add: one_upsert_def)
  show ?thesis
    by (auto simp: handleUpsert_def Let_def one_upsertI split: prod.split option.split)
qed

lemma handleUpsert_errors: "rs_status (snd (handleUpsert ev rq g)) \<noteq> 200 \<Longrightarrow> fst (handleUpsert ev rq g) = g"
  by (auto simp: handleUpsert_def UpsertNode_def UpsertEdge_def Let_def split: prod.splits option.splits if_splits)

lemma topo_reads [simp]:
  "fst (topo_handleHealth rq g) = g" "fst (handleNode rq g) = g" "fst (handleCools rq g) = g" "fst (handleFeeds rq g) = g"
  "fst (handlePowers rq g) = g" "fst (handleCooling rq g) = g" "fst (handleGraph ev rq g) = g"
  by (simp_all add: topo_handleHealth_def handleNode_def handleCools_def handleFeeds_def handlePowers_def handleCooling_def
      handleGraph_def Let_def split: option.split)

lemma topo_mux_frame: "rq_path rq \<noteq> ''/topology/upsert'' \<Longrightarrow> fst (topo_mux ev rq g) = g"
  by (simp add: topo_mux_def)

lemma topo_mux_upsert: "rq_path rq = ''/topology/upsert'' \<Longrightarrow> topo_mux ev rq g = handleUpsert ev rq g"
  by (simp add: topo_mux_def has_prefix_def)

fun topo_serve :: "string \<Rightarrow> (topo_env \<times> request) list \<Rightarrow> graph \<Rightarrow> graph" where
  "topo_serve token [] g = g"
| "topo_serve token ((ev, rq) # rqs) g = topo_serve token rqs (fst (topo_NewServer token ev rq g))"

lemma topo_NewServer_cases: "fst (topo_NewServer token ev rq g) = g \<or> fst (topo_NewServer token ev rq g) = fst (topo_mux ev rq g)"
  by (simp add: topo_NewServer_def topo_auth_def auth_check_def)

lemma topo_NewServer_wf: "graph_wf g \<Longrightarrow> graph_wf (fst (topo_NewServer token ev rq g))"
  using topo_NewServer_cases [of token ev rq g] topo_mux_frame [of rq ev g] topo_mux_upsert [of rq ev g]
    handleUpsert_step [of ev g rq] topo_step_wf unfolding one_upsert_def by metis

lemma topo_serve_wf: "graph_wf g \<Longrightarrow> graph_wf (topo_serve token rqs g)"
  by (induction token rqs g rule: topo_serve.induct) (simp_all add: topo_NewServer_wf)

subsection \<open>Properties\<close>


end
