(* ===== verification/Topology_File.thy ===== *)
theory Topology_File
  imports Topology_Server Go_Text
begin

text \<open>
  The topology document on disk (author.go): \<open>SaveSpec\<close> writes the spec of a graph as JSON and
  \<open>LoadSpec\<close> reads it back. A document is its JSON value; what a failing read or write leaves behind
  and the error texts are arguments. The property is the round trip from a graph through a file
  to a graph.
\<close>

subsection \<open>Writing\<close>

text \<open>encoding/json writes a string with its invalid bytes replaced, leaves out an empty label map and
  writes a map in the order of its keys; the nodes are never a nil slice, the edges are one when empty.\<close>

definition text_json :: "string \<Rightarrow> json" where
  "text_json s = JStr (runes_text s)"

definition label_members :: "(string, string) fmap \<Rightarrow> string list \<Rightarrow> (string \<times> json) list" where
  "label_members m ks = map (\<lambda>k. (runes_text k, text_json (the (fmlookup m k)))) ks"

definition labels_json :: "labels \<Rightarrow> (string \<times> json) list" where
  "labels_json l = (case l of
       None \<Rightarrow> []
     | Some m \<Rightarrow> if fmdom m = {||} then [] else [(''labels'', JObj (label_members m (sorted_list_of_set (fset (fmdom m)))))])"

definition node_json :: "node \<Rightarrow> json" where
  "node_json n = JObj ([(''id'', text_json (nd_ID n)), (''kind'', text_json (nd_Kind n))] @ labels_json (nd_Labels n))"

definition edge_json :: "edge \<Rightarrow> json" where
  "edge_json e = JObj ([(''from'', text_json (ed_From e)), (''to'', text_json (ed_To e)), (''kind'', text_json (ed_Kind e))]
     @ labels_json (ed_Labels e))"

definition spec_json :: "spec \<Rightarrow> json" where
  "spec_json sp = JObj [(''nodes'', JArr (map node_json (sp_Nodes sp))),
     (''edges'', if sp_Edges sp = [] then JNull else JArr (map edge_json (sp_Edges sp)))]"

text \<open>The outcome of the write: an error with what the file holds then, or success.\<close>

definition SaveSpec :: "string \<Rightarrow> (json option \<times> string) option \<Rightarrow> spec \<Rightarrow> json option \<times> string option" where
  "SaveSpec path failed sp = (case failed of
       Some (left, e) \<Rightarrow> (left, Some (''topology: write '' @ path @ '': '' @ e))
     | None \<Rightarrow> (Some (spec_json sp), None))"

subsection \<open>Reading\<close>

definition set_node_value :: "json \<Rightarrow> node \<Rightarrow> node \<times> bool" where
  "set_node_value j old = (case set_node j (Some old) of (Some n, ok) \<Rightarrow> (n, ok) | (None, ok) \<Rightarrow> (old, ok))"

definition set_edge_value :: "json \<Rightarrow> edge \<Rightarrow> edge \<times> bool" where
  "set_edge_value j old = (case set_edge j (Some old) of (Some e, ok) \<Rightarrow> (e, ok) | (None, ok) \<Rightarrow> (old, ok))"

definition decode_spec :: "json option \<Rightarrow> spec option" where
  "decode_spec body =
     (let (ns, ok1) = get_slice set_node_value zero_node ''nodes'' body; (es, ok2) = get_slice set_edge_value zero_edge ''edges'' body
      in if ok1 \<and> ok2 then Some \<lparr>sp_Nodes = ns, sp_Edges = es\<rparr> else None)"

text \<open>What \<open>ReadFile\<close> and \<open>Unmarshal\<close> give \<open>LoadSpec\<close>: an error, or the document with the error text a failed decoding has.\<close>

definition spec_of_document :: "string + json option \<times> string \<Rightarrow> spec_file" where
  "spec_of_document r = (case r of
       Inl e \<Rightarrow> ReadError e
     | Inr (body, e) \<Rightarrow> (case decode_spec body of None \<Rightarrow> ParseError e | Some sp \<Rightarrow> SpecFile sp))"

definition LoadSpec_file :: "(string \<Rightarrow> string) \<Rightarrow> string \<Rightarrow> string + json option \<times> string \<Rightarrow> string + graph" where
  "LoadSpec_file quote path r = LoadSpec quote path (spec_of_document r)"

subsection \<open>The document of a spec reads back\<close>

definition utf8 :: "string \<Rightarrow> bool" where
  "utf8 s \<longleftrightarrow> runes_text s = s"

definition labels_writable :: "labels \<Rightarrow> bool" where
  "labels_writable l = (case l of None \<Rightarrow> True
     | Some m \<Rightarrow> fmdom m \<noteq> {||} \<and> list_all (\<lambda>k. utf8 k \<and> utf8 (the (fmlookup m k))) (sorted_list_of_set (fset (fmdom m))))"

definition node_writable :: "node \<Rightarrow> bool" where
  "node_writable n \<longleftrightarrow> utf8 (nd_ID n) \<and> utf8 (nd_Kind n) \<and> labels_writable (nd_Labels n)"

definition edge_writable :: "edge \<Rightarrow> bool" where
  "edge_writable e \<longleftrightarrow> utf8 (ed_From e) \<and> utf8 (ed_To e) \<and> utf8 (ed_Kind e) \<and> labels_writable (ed_Labels e)"

lemma utf8_json [simp]: "utf8 s \<Longrightarrow> text_json s = JStr s"
  by (simp add: utf8_def text_json_def)

lemma set_label_members_written:
  "list_all (\<lambda>k. utf8 k \<and> utf8 (the (fmlookup m k))) ks \<Longrightarrow>
   set_label_members (label_members m ks) (acc, True) = (fold (\<lambda>k a. fmupd k (the (fmlookup m k)) a) ks acc, True)"
  by (induction ks arbitrary: acc) (simp_all add: label_members_def utf8_def)

lemma fold_fmupd_lookup:
  "fmlookup (fold (\<lambda>k a. fmupd k (the (fmlookup m k)) a) ks acc) x = (if x \<in> set ks then Some (the (fmlookup m x)) else fmlookup acc x)"
  by (induction ks arbitrary: acc) auto

lemma fold_fmupd_all: "fold (\<lambda>k a. fmupd k (the (fmlookup m k)) a) (sorted_list_of_set (fset (fmdom m))) fmempty = m"
  by (rule fmap_ext) (auto simp: fold_fmupd_lookup fmdom_notD intro: fmdomE)

lemma label_members_read_back:
  assumes "labels_writable (Some m)"
  shows "set_label_members (label_members m (sorted_list_of_set (fset (fmdom m)))) (fmempty, True) = (m, True)"
  using assms set_label_members_written [of m "sorted_list_of_set (fset (fmdom m))" fmempty]
  by (simp add: labels_writable_def fold_fmupd_all)

lemma writable_not_empty: "labels_writable (Some m) \<Longrightarrow> fmdom m \<noteq> {||}"
  by (simp add: labels_writable_def)

lemmas read_back = label_members_read_back writable_not_empty labels_json_def

lemma node_reads_back: "node_writable n \<Longrightarrow> set_node_value (node_json n) zero_node = (n, True)"
  by (cases "nd_Labels n") (simp_all add: node_writable_def set_node_value_def node_json_def zero_node_def read_back)

lemma edge_reads_back: "edge_writable e \<Longrightarrow> set_edge_value (edge_json e) zero_edge = (e, True)"
  by (cases "ed_Labels e") (simp_all add: edge_writable_def set_edge_value_def edge_json_def zero_edge_def read_back)

lemma decode_spec_json:
  assumes "list_all node_writable (sp_Nodes sp)" "list_all edge_writable (sp_Edges sp)"
  shows "decode_spec (Some (spec_json sp)) = Some sp"
proof -
  have "\<forall>n\<in>set (sp_Nodes sp). set_node_value (node_json n) zero_node = (n, True)"
    using assms(1) by (simp add: list_all_iff node_reads_back)
  note ns = set_slice_fresh [of _ set_node_value node_json zero_node, OF this]
  have "\<forall>e\<in>set (sp_Edges sp). set_edge_value (edge_json e) zero_edge = (e, True)"
    using assms(2) by (simp add: list_all_iff edge_reads_back)
  note es = set_slice_fresh [of _ set_edge_value edge_json zero_edge, OF this]
  have "get_slice set_node_value zero_node ''nodes'' (Some (spec_json sp)) = (sp_Nodes sp, True)"
    using ns by (simp add: get_slice_def get_field_def spec_json_def del: set_slice.simps)
  moreover have "get_slice set_edge_value zero_edge ''edges'' (Some (spec_json sp)) = (sp_Edges sp, True)"
    using es by (cases "sp_Edges sp = []") (simp_all add: get_slice_def get_field_def spec_json_def del: set_slice.simps(2))
  ultimately show ?thesis
    by (simp add: decode_spec_def)
qed

subsection \<open>Property\<close>

definition graph_writable :: "graph \<Rightarrow> bool" where
  "graph_writable g \<longleftrightarrow> list_all node_writable (Nodes g) \<and> fmpred (\<lambda>k es. list_all edge_writable es) (g_out g)"

lemma graph_writable_edges:
  assumes "graph_writable g" "slice_sort srt"
  shows "list_all edge_writable (edgesSorted srt order g)"
proof -
  have "set (edgesSorted srt order g) = set (all_edges order g)"
    using assms(2) by (metis all_edges_def edgesSorted_def set_mset_mset slice_sort_def)
  moreover have "edge_writable e" if "e \<in> set (all_edges order g)" for e
  proof -
    obtain k where "e \<in> set (at_key (g_out g) k)"
      using \<open>e \<in> set (all_edges order g)\<close> by (auto simp: all_edges_def)
    then obtain es where "fmlookup (g_out g) k = Some es" "e \<in> set es"
      by (cases "fmlookup (g_out g) k") (auto simp: at_key_def)
    then show ?thesis
      using assms(1) by (auto simp: graph_writable_def fmpred_iff list_all_iff)
  qed
  ultimately show ?thesis
    by (simp add: list_all_iff)
qed

text \<open>C30. Saving and loading: a graph that satisfies the invariant, whose texts are UTF-8 and whose label maps
  are absent or not empty, is saved without error, and the file loads into a graph with the same nodes
  and, for every node, the same outgoing and incoming edges up to their order, whatever order the map
  iteration and the unstable sort produced.\<close>

theorem save_load_roundtrip:
  assumes "graph_wf g" and "graph_writable g" and "enumerates order g" and "slice_sort srt"
  shows "\<exists>doc g'. SaveSpec path None (Spec_of srt order g g) = (doc, None)
    \<and> LoadSpec_file quote path' (Inr (doc, e)) = Inr g' \<and> g_nodes g' = g_nodes g
    \<and> (\<forall>k. mset (Successors k g') = mset (Successors k g) \<and> mset (Predecessors k g') = mset (Predecessors k g))"
proof -
  have "decode_spec (Some (spec_json (Spec_of srt order g g))) = Some (Spec_of srt order g g)"
    using assms(2) graph_writable_edges [OF assms(2,4)] by (intro decode_spec_json) (simp_all add: Spec_of_def graph_writable_def)
  then show ?thesis
    using Spec_Load [OF assms(1,3,4), of quote NewGraph]
    by (auto simp: SaveSpec_def LoadSpec_file_def LoadSpec_def spec_of_document_def)
qed

theorem save_load_roundtrip_witness:
  "\<exists>doc g'. SaveSpec ''plant.json'' None (Spec_of (sort_key edge_key) [''ups''] plant plant) = (doc, None)
     \<and> LoadSpec_file id ''plant.json'' (Inr (doc, [])) = Inr g' \<and> g_nodes g' = g_nodes plant"
proof -
  have "graph_wf plant"
    unfolding plant_def by (rule topo_run_wf [OF NewGraph_wf])
  moreover have "enumerates [''ups''] plant"
    by (simp add: enumerates_def plant_eq)
  moreover have "utf8 s" if "list_all (\<lambda>c. of_char c < (0x80::nat)) s" for s
    using that by (simp add: utf8_def runes_text_ascii)
  then have "fmpred (\<lambda>k es. list_all edge_writable es) (g_out plant)" "list_all node_writable (Nodes plant)"
    by (auto simp: plant_eq fmpred_iff edge_writable_def labels_writable_def split: if_splits)
      (simp add: plant_def topo_run_def UpsertNode_def UpsertEdge_def NewGraph_def known_def add_node_def add_edge_def
        append_at_def Let_def Nodes_def node_writable_def labels_writable_def cloneLabels_def)
  then have "graph_writable plant"
    by (simp add: graph_writable_def)
  ultimately show ?thesis
    using save_load_roundtrip [OF _ _ _ slice_sort_key] by blast
qed

end
