(* ===== verification/Modbus.thy ===== *)
theory Modbus
  imports Point
begin

text \<open>
  go-telemetry/internal/collector/modbus.go: the Modbus TCP collector. The state is the connection,
  the transaction counter, the bytes that arrived on the connection and were not read yet, and what
  was written. The network of one call (a dial, a deadline or a write that fails, the bytes that
  arrive before the deadline) is an argument; so is what \<open>Sprintf\<close> makes of a sensor format.
\<close>

subsection \<open>Frames\<close>

definition functionReadHoldingRegisters :: byte where
  "functionReadHoldingRegisters = 3"

definition makeModbusRequest :: "16 word \<Rightarrow> byte \<Rightarrow> 16 word \<Rightarrow> 16 word \<Rightarrow> byte list" where
  "makeModbusRequest txn unitID addr count =
     be_bytes 2 (unat txn) @ [0, 0] @ be_bytes 2 6 @ [unitID, functionReadHoldingRegisters]
     @ be_bytes 2 (unat addr) @ be_bytes 2 (unat count)"

record register_poll =
  rp_Address :: "16 word"
  rp_Count :: "16 word"
  rp_Metric :: metric
  rp_Device :: string
  rp_Sensor :: string
  rp_Scale :: f64

record modbus_cfg =
  mc_Address :: string
  mc_UnitID :: byte
  mc_Polls :: "register_poll list"

datatype wire_event = WDialed nat string | WDeadline nat go_time | WSent nat "byte list"

record modbus =
  mb_cfg :: modbus_cfg
  mb_conn :: "nat option"
  mb_txn :: "16 word"
  mb_next :: nat
  mb_unread :: "byte list"
  mb_net :: "wire_event list"

definition NewModbus :: "modbus_cfg \<Rightarrow> modbus" where
  "NewModbus cfg = \<lparr>mb_cfg = cfg, mb_conn = None, mb_txn = 0, mb_next = 0, mb_unread = [], mb_net = []\<rparr>"

text \<open>The network during one request; \<open>n_read\<close> is the error of a read the arrived bytes do not satisfy.\<close>

record net_call =
  n_dial :: "string option"
  n_setdl :: "string option"
  n_write :: "(nat \<times> string) option"
  n_arrives :: "byte list"
  n_read :: string
  n_ctx :: "go_time option"
  n_now :: go_time

definition modbus_deadline :: "net_call \<Rightarrow> go_time" where
  "modbus_deadline w = (case n_ctx w of Some d \<Rightarrow> d | None \<Rightarrow> n_now w + 10 * 10 ^ 9)"

text \<open>\<open>readFull\<close>: the bytes asked for and the rest, or None.\<close>

definition readFull :: "nat \<Rightarrow> byte list \<Rightarrow> (byte list \<times> byte list) option" where
  "readFull n rx = (if n \<le> length rx then Some (take n rx, drop n rx) else None)"

text \<open>The loop that cuts the body into 16-bit registers; an odd last byte is left over.\<close>

fun decode_registers :: "byte list \<Rightarrow> 16 word list" where
  "decode_registers (a # b # r) = word_of_nat (be_nat [a, b]) # decode_registers r"
| "decode_registers _ = []"

definition dial_modbus :: "net_call \<Rightarrow> modbus \<Rightarrow> modbus + string" where
  "dial_modbus w m = (case mb_conn m of Some c \<Rightarrow> Inl m
     | None \<Rightarrow> (case n_dial w of
           Some err \<Rightarrow> Inr (''modbus: dial '' @ mc_Address (mb_cfg m) @ '': '' @ err)
         | None \<Rightarrow> Inl (m\<lparr>mb_conn := Some (mb_next m), mb_next := Suc (mb_next m), mb_unread := [],
                         mb_net := mb_net m @ [WDialed (mb_next m) (mc_Address (mb_cfg m))]\<rparr>)))"

text \<open>\<open>fmt\<close>'s \<open>%02x\<close> of a byte.\<close>

definition hex_digit :: "nat \<Rightarrow> char" where
  "hex_digit d = char_of (if d < 10 then 48 + d else 87 + d)"

definition hex2 :: "byte \<Rightarrow> string" where
  "hex2 b = [hex_digit (unat b div 16), hex_digit (unat b mod 16)]"

text \<open>The reply: a header of ten bytes, of which the last is the length of the body.\<close>

definition read_reply :: "net_call \<Rightarrow> modbus \<Rightarrow> modbus \<times> (string + 16 word list)" where
  "read_reply w m = (case readFull 10 (mb_unread m @ n_arrives w) of
       None \<Rightarrow> (m\<lparr>mb_conn := None\<rparr>, Inl (''modbus: read header: '' @ n_read w))
     | Some (header, rx) \<Rightarrow>
         let byteCount = unat (header ! 9)
         in (case readFull byteCount rx of
               None \<Rightarrow> (m\<lparr>mb_conn := None\<rparr>, Inl (''modbus: read body: '' @ n_read w))
             | Some (body, rx) \<Rightarrow>
                 if header ! 8 \<noteq> functionReadHoldingRegisters
                 then (m\<lparr>mb_unread := rx\<rparr>, Inl (''modbus: unexpected function 0x'' @ hex2 (header ! 8)))
                 else (m\<lparr>mb_unread := rx\<rparr>, Inr (decode_registers body))))"

definition readRegisters :: "net_call \<Rightarrow> 16 word \<Rightarrow> 16 word \<Rightarrow> modbus \<Rightarrow> modbus \<times> (string + 16 word list)" where
  "readRegisters w addr count m = (case dial_modbus w m of
       Inr err \<Rightarrow> (m, Inl err)
     | Inl m \<Rightarrow>
         let m = m\<lparr>mb_txn := mb_txn m + 1\<rparr>; c = the (mb_conn m);
             req = makeModbusRequest (mb_txn m) (mc_UnitID (mb_cfg m)) addr count
         in (case n_setdl w of
               Some err \<Rightarrow> (m, Inl err)
             | None \<Rightarrow>
                 let m = m\<lparr>mb_net := mb_net m @ [WDeadline c (modbus_deadline w)]\<rparr>
                 in (case n_write w of
                       Some (n, err) \<Rightarrow> (m\<lparr>mb_conn := None, mb_net := mb_net m @ [WSent c (take n req)]\<rparr>, Inl (''modbus: write: '' @ err))
                     | None \<Rightarrow> read_reply w (m\<lparr>mb_net := mb_net m @ [WSent c req]\<rparr>))))"

text \<open>One point per register; a scale that compares equal to zero counts as one.\<close>

definition register_points :: "(string \<Rightarrow> nat \<Rightarrow> string) \<Rightarrow> 64 word \<Rightarrow> register_poll \<Rightarrow> 16 word list \<Rightarrow> data_point list" where
  "register_points sprintf ts p regs =
     (let scale = (if f64_eq (rp_Scale p) 0 then f64_one else rp_Scale p)
      in map (\<lambda>i. New_point (rp_Device p) (if 1 < rp_Count p then sprintf (rp_Sensor p) i else rp_Sensor p) (rp_Metric p)
           (f64_mul (f64_of_int (int (unat (regs ! i)))) scale) ts) [0..<length regs])"

fun poll_blocks :: "(string \<Rightarrow> nat \<Rightarrow> string) \<Rightarrow> (nat \<Rightarrow> net_call) \<Rightarrow> 64 word \<Rightarrow> nat \<Rightarrow> register_poll list \<Rightarrow> data_point list \<Rightarrow> modbus \<Rightarrow>
    modbus \<times> (string + data_point list)" where
  "poll_blocks sprintf ws ts i [] out m = (m, Inr out)"
| "poll_blocks sprintf ws ts i (p # ps) out m =
     (case readRegisters (ws i) (rp_Address p) (rp_Count p) m of
        (m', Inl err) \<Rightarrow> (m', Inl err)
      | (m', Inr regs) \<Rightarrow> poll_blocks sprintf ws ts (Suc i) ps (out @ register_points sprintf ts p regs) m')"

definition modbus_Poll :: "(string \<Rightarrow> nat \<Rightarrow> string) \<Rightarrow> (nat \<Rightarrow> net_call) \<Rightarrow> 64 word \<Rightarrow> modbus \<Rightarrow> modbus \<times> (string + data_point list)" where
  "modbus_Poll sprintf ws ts m = poll_blocks sprintf ws ts 0 (mc_Polls (mb_cfg m)) [] m"

subsection \<open>The protocol's frames\<close>

text \<open>
  Modbus TCP: a header of seven bytes (transaction, protocol 0, the number of bytes that follow,
  unit), then the function code and its data. A request for holding registers and its answer.
\<close>

definition mbap :: "16 word \<Rightarrow> byte \<Rightarrow> byte list \<Rightarrow> byte list" where
  "mbap txn unitID pdu = be_bytes 2 (unat txn) @ [0, 0] @ be_bytes 2 (Suc (length pdu)) @ [unitID] @ pdu"

definition read_pdu :: "16 word \<Rightarrow> 16 word \<Rightarrow> byte list" where
  "read_pdu addr count = 3 # be_bytes 2 (unat addr) @ be_bytes 2 (unat count)"

definition register_bytes :: "16 word list \<Rightarrow> byte list" where
  "register_bytes regs = concat (map (\<lambda>r. be_bytes 2 (unat r)) regs)"

definition count_byte :: "16 word list \<Rightarrow> byte" where
  "count_byte regs = word_of_nat (2 * length regs)"

definition answer_pdu :: "16 word list \<Rightarrow> byte list" where
  "answer_pdu regs = [3, count_byte regs] @ register_bytes regs"

text \<open>The layout the code's comment gives: one more byte, for the unit, after the seven.\<close>

definition shifted_answer :: "16 word \<Rightarrow> byte \<Rightarrow> 16 word list \<Rightarrow> byte list" where
  "shifted_answer txn unitID regs = be_bytes 2 (unat txn) @ [0, 0] @ be_bytes 2 (3 + 2 * length regs) @ [unitID, unitID] @ answer_pdu regs"

lemma length_register_bytes [simp]: "length (register_bytes regs) = 2 * length regs"
  by (induction regs) (simp_all add: register_bytes_def)

lemma unat_count_byte: "length regs \<le> 127 \<Longrightarrow> unat (count_byte regs) = 2 * length regs"
  unfolding count_byte_def by (subst unat_of_nat) simp

lemma be_bytes_2: "be_bytes 2 n = [word_of_nat (n div 256), word_of_nat n]"
  by (simp add: numeral_2_eq_2)

lemma decode_register_bytes [simp]: "decode_registers (register_bytes regs) = regs"
proof (induction regs)
  case Nil
  then show ?case by (simp add: register_bytes_def)
next
  case (Cons r regs)
  have "be_nat (be_bytes 2 (unat r)) = unat r"
    using unsigned_less [where 'a = nat, of r] by (simp add: be_nat_be_bytes)
  then have "be_nat [word_of_nat (unat r div 256), word_of_nat (unat r)] = unat r"
    by (simp only: be_bytes_2)
  with Cons show ?case
    by (simp add: register_bytes_def be_bytes_2)
qed

lemma request_is_mbap: "makeModbusRequest txn unitID addr count = mbap txn unitID (read_pdu addr count)"
  by (simp add: makeModbusRequest_def mbap_def read_pdu_def functionReadHoldingRegisters_def)

lemma answer_byte_8:
  assumes "length regs \<le> 125"
  shows "(mbap txn unitID (answer_pdu regs) @ extra) ! 8 \<noteq> 3"
proof -
  have "unat (count_byte regs) = 2 * length regs"
    using assms by (simp add: unat_count_byte)
  moreover have "unat (3 :: byte) = 3" "2 * length regs \<noteq> 3"
    by simp presburger
  ultimately have "count_byte regs \<noteq> 3"
    by metis
  then show ?thesis
    by (simp add: mbap_def answer_pdu_def be_bytes_2)
qed

lemma dialed_unread:
  "mb_unread m = [] \<Longrightarrow> dial_modbus w m = Inl m' \<Longrightarrow> mb_unread m' = [] \<and> mb_cfg m' = mb_cfg m"
  by (auto simp: dial_modbus_def split: option.splits)

text \<open>A reply whose ninth byte is not the function code is an error, whatever else happens.\<close>

lemma read_reply_rejects:
  assumes "(mb_unread m @ n_arrives w) ! 8 \<noteq> 3"
  shows "isl (snd (read_reply w m))"
  using assms by (auto simp: read_reply_def readFull_def Let_def functionReadHoldingRegisters_def simp del: take_append split: option.split)

lemma readRegisters_rejects:
  assumes "mb_unread m = []" and "n_arrives w ! 8 \<noteq> 3"
  shows "isl (snd (readRegisters w addr count m))"
proof (cases "dial_modbus w m")
  case (Inl m')
  then have "mb_unread m' = []"
    using dialed_unread [OF assms(1)] by simp
  then show ?thesis
    using assms(2) Inl by (auto simp: readRegisters_def Let_def split: option.split intro!: read_reply_rejects)
qed (simp add: readRegisters_def)

subsection \<open>Properties\<close>


definition open_modbus :: modbus where
  "open_modbus = \<lparr>mb_cfg = \<lparr>mc_Address = ''gw:502'', mc_UnitID = 1, mc_Polls = []\<rparr>, mb_conn = Some 0, mb_txn = 4, mb_next = 1,
     mb_unread = [], mb_net = []\<rparr>"

definition delivering :: "byte list \<Rightarrow> net_call" where
  "delivering bs = \<lparr>n_dial = None, n_setdl = None, n_write = None, n_arrives = bs, n_read = ''timeout'', n_ctx = None, n_now = 0\<rparr>"


text \<open>The answer the protocol defines is never understood: the code expects its header one byte
  later than it is, takes the first data byte for the length and the length for the function code,
  so a poll whose first answer is a conforming one, for any number of registers a read may return,
  fails and yields no point.\<close>

lemma standard_answer_rejected:
  assumes "mc_Polls (mb_cfg m) \<noteq> []" and "mb_unread m = []" and "length regs \<le> 125"
    and "n_arrives (ws 0) = mbap t u (answer_pdu regs) @ extra"
  shows "\<exists>m' err. modbus_Poll sprintf ws ts m = (m', Inl err)"
proof -
  obtain p ps where ps: "mc_Polls (mb_cfg m) = p # ps"
    using assms(1) by (cases "mc_Polls (mb_cfg m)") auto
  have "n_arrives (ws 0) ! 8 \<noteq> 3"
    unfolding assms(4) by (rule answer_byte_8 [OF assms(3)])
  then have "isl (snd (readRegisters (ws 0) (rp_Address p) (rp_Count p) m))"
    by (rule readRegisters_rejects [OF assms(2)])
  then show ?thesis
    by (auto simp: modbus_Poll_def ps isl_def split: prod.split sum.split)
qed

end
