(* ===== verification/Collectors.thy ===== *)
theory Collectors
  imports Modbus Go_Text Go_Json
begin

text \<open>
  go-telemetry/internal/collector: the IPMI, Redfish and synthetic collectors, and the contract of
  the interface Collector with the four collectors as its instances. A poll takes the world it
  meets (datagrams, the output of ipmitool, the answers of a BMC, the clock) and the collector's
  state, and returns the new state and the points or an error.
\<close>

subsection \<open>ipmi.go\<close>

record ipmi_cfg =
  ic_Host :: string
  ic_Port :: int
  ic_Username :: string
  ic_Password :: string
  ic_IPMITool :: string

record ipmi =
  ip_cfg :: ipmi_cfg

definition NewIPMI :: "ipmi_cfg \<Rightarrow> ipmi" where
  "NewIPMI cfg =
     (let cfg = (if ic_Port cfg = 0 then cfg\<lparr>ic_Port := 623\<rparr> else cfg);
          cfg = (if ic_IPMITool cfg = [] then cfg\<lparr>ic_IPMITool := ''ipmitool''\<rparr> else cfg)
      in \<lparr>ip_cfg = cfg\<rparr>)"

text \<open>\<open>net.JoinHostPort\<close>.\<close>

definition join_host_port :: "string \<Rightarrow> string \<Rightarrow> string" where
  "join_host_port h p = (if CHR '':'' \<in> set h then ''['' @ h @ '']:'' @ p else h @ '':'' @ p)"

text \<open>The outcome of the command: its output, and its error with whether the binary was not found.\<close>

record command_run =
  cr_stdout :: string
  cr_stderr :: string
  cr_err :: "(bool \<times> string) option"

record ipmi_world =
  iw_dial :: "string option"
  iw_write :: "string option"
  iw_read :: "string + byte list"
  iw_cmd :: command_run
  iw_now :: "64 word"

definition ping_bytes :: "byte list" where
  "ping_bytes = [0x06, 0x00, 0x00, 0x06, 0xBE, 0x11, 0x00, 0x80, 0x00, 0x00, 0x00, 0x00, 0x00]"

definition ErrNotImplemented :: string where
  "ErrNotImplemented = ''collector: not implemented''"

text \<open>A datagram is read into a buffer of 64 bytes.\<close>

definition ping :: "ipmi_world \<Rightarrow> ipmi \<Rightarrow> string option" where
  "ping w i =
     (let addr = join_host_port (ic_Host (ip_cfg i)) (show_int (ic_Port (ip_cfg i)))
      in case iw_dial w of
           Some err \<Rightarrow> Some (''ipmi: dial '' @ addr @ '': '' @ err)
         | None \<Rightarrow> (case iw_write w of
               Some err \<Rightarrow> Some (''ipmi: ping write: '' @ err)
             | None \<Rightarrow> (case iw_read w of
                   Inl err \<Rightarrow> Some (''ipmi: ping read: '' @ err)
                 | Inr bytes \<Rightarrow>
                     let buf = take 64 bytes
                     in if length buf < 8 \<or> buf ! 3 \<noteq> 0x06 \<or> buf ! 7 \<noteq> 0x40
                        then Some (''ipmi: unexpected ping response '' @ concat (map hex2 buf)) else None)))"

definition unitToMetric :: "string \<Rightarrow> metric option" where
  "unitToMetric u =
     (let l = to_lower u
      in if l \<in> {''degrees c'', ''c'', ''celsius''} then Some MetricTemperature
         else if l \<in> {''volts'', ''v''} then Some MetricVoltage
         else if l \<in> {''amps'', ''amperes'', ''a''} then Some MetricAmperage
         else if l \<in> {''watts'', ''w''} then Some MetricPower
         else if l = ''rpm'' then Some MetricFanSpeed
         else None)"

definition parse_sdr_line :: "string \<Rightarrow> 64 word \<Rightarrow> string \<Rightarrow> data_point option" where
  "parse_sdr_line host now ln =
     (let parts = split_at CHR ''|'' ln
      in if length parts < 3 then None
         else (case sscanf_f (trim_space (parts ! 1)) of
             None \<Rightarrow> None
           | Some v \<Rightarrow> (case unitToMetric (trim_space (parts ! 2)) of
                 None \<Rightarrow> None
               | Some m \<Rightarrow> Some (New_point (''bmc:'' @ host) (''sensor:'' @ trim_space (parts ! 0)) m v now))))"

definition parseSDR :: "string \<Rightarrow> 64 word \<Rightarrow> string \<Rightarrow> data_point list" where
  "parseSDR host now txt = List.map_filter (parse_sdr_line host now) (scan_lines txt)"

definition runCmd :: "command_run \<Rightarrow> string \<times> (bool \<times> string) option" where
  "runCmd r = (cr_stdout r, map_option (\<lambda>(missing, e). (missing, e @ '': '' @ cr_stderr r)) (cr_err r))"

definition sensors :: "ipmi_world \<Rightarrow> ipmi \<Rightarrow> string + data_point list" where
  "sensors w i = (case runCmd (iw_cmd w) of
       (out, Some (missing, e)) \<Rightarrow>
         if missing then Inl (ErrNotImplemented @ '': ipmitool unavailable for '' @ ic_Host (ip_cfg i)) else Inl (''ipmi: sdr: '' @ e)
     | (out, None) \<Rightarrow> Inr (parseSDR (ic_Host (ip_cfg i)) (iw_now w) out))"

definition ipmi_Poll :: "ipmi_world \<Rightarrow> ipmi \<Rightarrow> ipmi \<times> (string + data_point list)" where
  "ipmi_Poll w i = (i, case ping w i of Some err \<Rightarrow> Inl err | None \<Rightarrow> sensors w i)"

subsection \<open>redfish.go\<close>

record redfish_cfg =
  rc_BaseURL :: string
  rc_Username :: string
  rc_Password :: string
  rc_Chassis :: "string list"

record redfish =
  rf_cfg :: redfish_cfg

definition NewRedfish :: "redfish_cfg \<Rightarrow> redfish" where
  "NewRedfish cfg = \<lparr>rf_cfg = cfg\<rparr>"

text \<open>The two resources: a member array of readings with a name and a number.\<close>

fun set_member :: "string \<Rightarrow> json \<Rightarrow> (string \<times> f64) \<times> bool" where
  "set_member fld (JObj kvs) =
     ((fst (fold_field set_string ''Name'' kvs ([], True)), fst (fold_field set_float fld kvs (0, True))),
      snd (fold_field set_string ''Name'' kvs ([], True)) \<and> snd (fold_field set_float fld kvs (0, True)))"
| "set_member fld JNull = (([], 0), True)"
| "set_member fld _ = (([], 0), False)"

fun set_members :: "string \<Rightarrow> json \<Rightarrow> (string \<times> f64) list \<Rightarrow> (string \<times> f64) list \<times> bool" where
  "set_members fld (JArr js) old = (map (fst \<circ> set_member fld) js, list_all (snd \<circ> set_member fld) js)"
| "set_members fld JNull old = ([], True)"
| "set_members fld _ old = (old, False)"

definition decode_members :: "string \<Rightarrow> string \<Rightarrow> json option \<Rightarrow> (string \<times> f64) list option" where
  "decode_members array fld body =
     (let (i, ok1) = get_field set_string [] ''Id'' body; (ms, ok2) = get_field (set_members fld) [] array body
      in if ok1 \<and> ok2 then Some ms else None)"

text \<open>What becomes of a GET: the request cannot be built, the transport fails, or a status with a body
  and the error text its decoding would have.\<close>

datatype get_outcome = GetReqErr string | GetDoErr string | GetReply nat "json option" string

record redfish_world =
  rw_get :: "string \<Rightarrow> get_outcome"
  rw_now :: "64 word"

definition redfish_get :: "redfish_world \<Rightarrow> string \<Rightarrow> string \<Rightarrow> string \<Rightarrow> string + (string \<times> f64) list" where
  "redfish_get w path array fld = (case rw_get w path of
       GetReqErr e \<Rightarrow> Inl e
     | GetDoErr e \<Rightarrow> Inl (''redfish: GET '' @ path @ '': '' @ e)
     | GetReply status body err \<Rightarrow>
         if status \<noteq> 200 then Inl (''redfish: GET '' @ path @ '': status '' @ show_nat status)
         else (case decode_members array fld body of None \<Rightarrow> Inl err | Some ms \<Rightarrow> Inr ms))"

definition chassis_path :: "string \<Rightarrow> string \<Rightarrow> string" where
  "chassis_path ch res = ''/redfish/v1/Chassis/'' @ ch @ ''/'' @ res"

definition member_points :: "64 word \<Rightarrow> string \<Rightarrow> string \<Rightarrow> metric \<Rightarrow> (string \<times> f64) list \<Rightarrow> data_point list" where
  "member_points ts ch prefix m ms = map (\<lambda>(name, v). New_point (''chassis:'' @ ch) (prefix @ name) m v ts) ms"

fun poll_chassis :: "redfish_world \<Rightarrow> string list \<Rightarrow> data_point list \<Rightarrow> string + data_point list" where
  "poll_chassis w [] out = Inr out"
| "poll_chassis w (ch # chs) out =
     (case redfish_get w (chassis_path ch ''Thermal'') ''Temperatures'' ''ReadingCelsius'' of
        Inl e \<Rightarrow> Inl e
      | Inr ts \<Rightarrow> (case redfish_get w (chassis_path ch ''Power'') ''PowerControl'' ''PowerConsumedWatts'' of
            Inl e \<Rightarrow> Inl e
          | Inr ps \<Rightarrow> poll_chassis w chs (out @ member_points (rw_now w) ch ''thermal:'' MetricTemperature ts
                @ member_points (rw_now w) ch ''power:'' MetricPower ps)))"

definition redfish_Poll :: "redfish_world \<Rightarrow> redfish \<Rightarrow> redfish \<times> (string + data_point list)" where
  "redfish_Poll w r = (r, poll_chassis w (rc_Chassis (rf_cfg r)) [])"

subsection \<open>synthetic.go\<close>

record synthetic_cfg =
  sc_Devices :: int
  sc_SensorsPerDevice :: int
  sc_Metrics :: "metric list"

text \<open>The generator is seeded with 1, so its state is how many numbers were drawn.\<close>

record synthetic =
  sy_cfg :: synthetic_cfg
  sy_drawn :: nat

definition NewSynthetic :: "synthetic_cfg \<Rightarrow> synthetic" where
  "NewSynthetic cfg =
     (let cfg = (if sc_Devices cfg \<le> 0 then cfg\<lparr>sc_Devices := 8\<rparr> else cfg);
          cfg = (if sc_SensorsPerDevice cfg \<le> 0 then cfg\<lparr>sc_SensorsPerDevice := 4\<rparr> else cfg);
          cfg = (if sc_Metrics cfg = [] then cfg\<lparr>sc_Metrics := [MetricTemperature, MetricPower, MetricAmperage, MetricAirflow]\<rparr> else cfg)
      in \<lparr>sy_cfg = cfg, sy_drawn = 0\<rparr>)"

text \<open>0.2 and 1.8, and \<open>lo + r * width\<close>.\<close>

definition f64_fifth :: f64 where "f64_fifth = 0x3FC999999999999A"
definition f64_nine_fifths :: f64 where "f64_nine_fifths = 0x3FFCCCCCCCCCCCCD"

definition drift :: "f64 \<Rightarrow> f64 \<Rightarrow> f64 \<Rightarrow> f64" where
  "drift lo width r = f64_add lo (f64_mul r width)"

definition synthetic_value :: "metric \<Rightarrow> f64 \<Rightarrow> f64" where
  "synthetic_value m r =
     (if m = MetricTemperature then drift (f64_of_int 22) (f64_of_int 18) r
      else if m = MetricPower then drift (f64_of_int 200) (f64_of_int 800) r
      else if m = MetricAmperage then drift (f64_of_int 1) (f64_of_int 15) r
      else if m = MetricAirflow then drift f64_fifth f64_nine_fifths r
      else f64_mul r f64_100)"

text \<open>\<open>%02d\<close> of a number that is not negative.\<close>

definition pad2 :: "nat \<Rightarrow> string" where
  "pad2 n = (if n < 10 then ''0'' else []) @ show_nat n"

text \<open>The two loops, with the draws made so far.\<close>

fun synthetic_channels :: "(nat \<Rightarrow> f64) \<Rightarrow> 64 word \<Rightarrow> metric list \<Rightarrow> string \<Rightarrow> nat \<Rightarrow> nat \<Rightarrow> nat \<Rightarrow> data_point list" where
  "synthetic_channels rng ts ms device c 0 k = []"
| "synthetic_channels rng ts ms device c (Suc n) k =
     (let m = ms ! (c mod length ms)
      in New_point device (''chan-'' @ show_nat c) m (synthetic_value m (rng k)) ts # synthetic_channels rng ts ms device (Suc c) n (Suc k))"

fun synthetic_devices :: "(nat \<Rightarrow> f64) \<Rightarrow> 64 word \<Rightarrow> metric list \<Rightarrow> nat \<Rightarrow> nat \<Rightarrow> nat \<Rightarrow> nat \<Rightarrow> data_point list" where
  "synthetic_devices rng ts ms spd d 0 k = []"
| "synthetic_devices rng ts ms spd d (Suc n) k =
     synthetic_channels rng ts ms (''rack-'' @ pad2 d) 0 spd k @ synthetic_devices rng ts ms spd (Suc d) n (k + spd)"

text \<open>A poll never fails; its world is the generator's sequence and the clock.\<close>

definition synthetic_Poll :: "(nat \<Rightarrow> f64) \<times> 64 word \<Rightarrow> synthetic \<Rightarrow> synthetic \<times> (string + data_point list)" where
  "synthetic_Poll w s =
     (let ds = nat (sc_Devices (sy_cfg s)); spd = nat (sc_SensorsPerDevice (sy_cfg s))
      in (s\<lparr>sy_drawn := sy_drawn s + ds * spd\<rparr>, Inr (synthetic_devices (fst w) (snd w) (sc_Metrics (sy_cfg s)) spd 0 ds (sy_drawn s))))"

text \<open>The names under which the registry counts what each source ingested.\<close>

definition synthetic_Name :: "synthetic \<Rightarrow> string" where
  "synthetic_Name s = ''synthetic''"

definition redfish_Name :: "redfish \<Rightarrow> string" where
  "redfish_Name s = ''redfish''"

definition ipmi_Name :: "ipmi \<Rightarrow> string" where
  "ipmi_Name s = ''ipmi''"

definition modbus_Name :: "modbus \<Rightarrow> string" where
  "modbus_Name s = ''modbus''"

subsection \<open>The contract of Collector\<close>

text \<open>The points of a successful poll name their device, sensor and metric, and carry its unit: so the
  wire format takes them.\<close>

definition well_named :: "data_point \<Rightarrow> bool" where
  "well_named p \<longleftrightarrow> dp_Device p \<noteq> [] \<and> dp_Sensor p \<noteq> [] \<and> dp_Metric p \<noteq> [] \<and> dp_Unit p = UnitForMetric (dp_Metric p)"

locale telemetry_collector =
  fixes poll :: "'w \<Rightarrow> 's \<Rightarrow> 's \<times> (string + data_point list)"
    and ready :: "'s \<Rightarrow> bool"
  assumes stays_ready: "ready s \<Longrightarrow> ready (fst (poll w s))"
    and named: "ready s \<Longrightarrow> snd (poll w s) = Inr pts \<Longrightarrow> list_all well_named pts"
begin

text \<open>The points of a sequence of polls; a failed poll gives none.\<close>

fun gathered :: "'w list \<Rightarrow> 's \<Rightarrow> data_point list" where
  "gathered [] s = []"
| "gathered (w # ws) s = (case snd (poll w s) of Inl e \<Rightarrow> [] | Inr pts \<Rightarrow> pts) @ gathered ws (fst (poll w s))"

lemma gathered_named: "ready s \<Longrightarrow> list_all well_named (gathered ws s)"
  by (induction ws arbitrary: s) (auto simp: stays_ready named split: sum.split)

lemma gathered_encode:
  assumes "ready s" and "p \<in> set (gathered ws s)" and "fits p"
  shows "\<exists>bs. MarshalBinary p = Ret bs \<and> UnmarshalBinary bs = Ret p"
proof -
  have "well_named p"
    using gathered_named [OF assms(1), of ws] assms(2) by (auto simp: list_all_iff)
  then show ?thesis
    using UnmarshalBinary_complete [OF assms(3), of "[]"] MarshalBinary_frame [OF assms(3)] by (auto simp: well_named_def)
qed

end

lemma New_point_named [simp]: "well_named (New_point d s m v ts) \<longleftrightarrow> d \<noteq> [] \<and> s \<noteq> [] \<and> m \<noteq> []"
  by (simp add: well_named_def New_point_def)

lemma parse_sdr_line_named: "parse_sdr_line host now ln = Some p \<Longrightarrow> well_named p"
  by (auto simp: parse_sdr_line_def unitToMetric_def Let_def split: if_splits option.splits)

lemma parseSDR_named: "list_all well_named (parseSDR host now txt)"
  unfolding parseSDR_def list_all_iff
  using parse_sdr_line_named by (auto simp: List.map_filter_def)

interpretation ipmi_collector: telemetry_collector ipmi_Poll "\<lambda>_. True"
  by unfold_locales
    (auto simp: ipmi_Poll_def sensors_def runCmd_def parseSDR_named split: option.splits prod.splits if_splits)

lemma member_points_named: "pre \<noteq> [] \<Longrightarrow> m \<noteq> [] \<Longrightarrow> list_all well_named (member_points ts ch pre m ms)"
  by (auto simp: member_points_def list_all_iff)

lemma poll_chassis_named: "poll_chassis w chs out = Inr pts \<Longrightarrow> list_all well_named out \<Longrightarrow> list_all well_named pts"
  by (induction w chs out rule: poll_chassis.induct) (auto simp: member_points_named split: sum.splits)

interpretation redfish_collector: telemetry_collector redfish_Poll "\<lambda>_. True"
  by unfold_locales (auto simp: redfish_Poll_def poll_chassis_named)

definition metrics_named :: "synthetic \<Rightarrow> bool" where
  "metrics_named s \<longleftrightarrow> sc_Metrics (sy_cfg s) \<noteq> [] \<and> [] \<notin> set (sc_Metrics (sy_cfg s))"

lemma synthetic_channels_named:
  "ms \<noteq> [] \<Longrightarrow> [] \<notin> set ms \<Longrightarrow> device \<noteq> [] \<Longrightarrow> list_all well_named (synthetic_channels rng ts ms device c n k)"
proof (induction n arbitrary: c k)
  case 0
  then show ?case by simp
next
  case (Suc n)
  have "ms ! (c mod length ms) \<in> set ms"
    using Suc.prems(1) by simp
  then have "ms ! (c mod length ms) \<noteq> []"
    using Suc.prems(2) by metis
  then show ?case
    using Suc by (simp add: Let_def)
qed

lemma synthetic_devices_named:
  "ms \<noteq> [] \<Longrightarrow> [] \<notin> set ms \<Longrightarrow> list_all well_named (synthetic_devices rng ts ms spd d n k)"
  by (induction n arbitrary: d k) (simp_all add: synthetic_channels_named)

interpretation synthetic_collector: telemetry_collector synthetic_Poll metrics_named
  by unfold_locales (auto simp: synthetic_Poll_def metrics_named_def Let_def synthetic_devices_named)

lemma readRegisters_cfg: "mb_cfg (fst (readRegisters w addr count m)) = mb_cfg m"
proof (cases "dial_modbus w m")
  case (Inl m')
  have "mb_cfg (fst (read_reply w x)) = mb_cfg x" for x
    by (auto simp: read_reply_def Let_def split: option.split)
  moreover have "mb_cfg m' = mb_cfg m"
    using Inl by (auto simp: dial_modbus_def split: option.splits)
  ultimately show ?thesis
    using Inl by (auto simp: readRegisters_def Let_def split: option.split)
qed (simp add: readRegisters_def)

definition block_named :: "(string \<Rightarrow> nat \<Rightarrow> string) \<Rightarrow> register_poll \<Rightarrow> bool" where
  "block_named sprintf p \<longleftrightarrow> rp_Device p \<noteq> [] \<and> rp_Metric p \<noteq> [] \<and> rp_Sensor p \<noteq> [] \<and> (\<forall>i. sprintf (rp_Sensor p) i \<noteq> [])"

definition blocks_named :: "(string \<Rightarrow> nat \<Rightarrow> string) \<Rightarrow> modbus \<Rightarrow> bool" where
  "blocks_named sprintf m \<longleftrightarrow> list_all (block_named sprintf) (mc_Polls (mb_cfg m))"

lemma poll_blocks_cfg: "mb_cfg (fst (poll_blocks sprintf ws ts i ps out m)) = mb_cfg m"
proof (induction ps arbitrary: i out m)
  case Nil
  then show ?case by simp
next
  case (Cons p ps)
  obtain m' r where call: "readRegisters (ws i) (rp_Address p) (rp_Count p) m = (m', r)"
    by (cases "readRegisters (ws i) (rp_Address p) (rp_Count p) m")
  then have "mb_cfg m' = mb_cfg m"
    using readRegisters_cfg [of "ws i" "rp_Address p" "rp_Count p" m] by simp
  then show ?case
    using Cons call by (cases r) simp_all
qed

lemma register_points_named: "block_named sprintf p \<Longrightarrow> list_all well_named (register_points sprintf ts p regs)"
  by (auto simp: register_points_def block_named_def list_all_iff Let_def)

lemma poll_blocks_named:
  "list_all (block_named sprintf) ps \<Longrightarrow> list_all well_named out \<Longrightarrow> snd (poll_blocks sprintf ws ts i ps out m) = Inr pts \<Longrightarrow>
   list_all well_named pts"
proof (induction ps arbitrary: i out m)
  case Nil
  then show ?case by simp
next
  case (Cons p ps)
  obtain m' r where call: "readRegisters (ws i) (rp_Address p) (rp_Count p) m = (m', r)"
    by (cases "readRegisters (ws i) (rp_Address p) (rp_Count p) m")
  show ?case
  proof (cases r)
    case (Inl e)
    then show ?thesis using Cons.prems call by simp
  next
    case (Inr regs)
    then have "snd (poll_blocks sprintf ws ts (Suc i) ps (out @ register_points sprintf ts p regs) m') = Inr pts"
      using Cons.prems(3) call by simp
    moreover have "list_all well_named (out @ register_points sprintf ts p regs)"
      using Cons.prems(1,2) by (simp add: register_points_named)
    moreover have "list_all (block_named sprintf) ps"
      using Cons.prems(1) by simp
    ultimately show ?thesis
      using Cons.IH by blast
  qed
qed

definition modbus_poll_with :: "(string \<Rightarrow> nat \<Rightarrow> string) \<Rightarrow> (nat \<Rightarrow> net_call) \<times> 64 word \<Rightarrow> modbus \<Rightarrow> modbus \<times> (string + data_point list)" where
  "modbus_poll_with sprintf w m = modbus_Poll sprintf (fst w) (snd w) m"

interpretation modbus_collector: telemetry_collector "modbus_poll_with sprintf" "blocks_named sprintf" for sprintf
  by unfold_locales
    (auto simp: modbus_poll_with_def modbus_Poll_def blocks_named_def poll_blocks_cfg intro: poll_blocks_named [where out = "[]"])

subsection \<open>Where the collectors misread their devices\<close>

text \<open>
  The presence pong of the Alert Standard Format: the RMCP header, the enterprise number 4542 in
  four bytes, the message type 0x40, and the rest. Its eighth byte is the last of the enterprise
  number, so \<open>ping\<close> takes it for an unexpected answer and the sensors are never read.
\<close>

definition asf_pong :: "byte \<Rightarrow> byte list \<Rightarrow> byte list" where
  "asf_pong tag body = [0x06, 0x00, 0xFF, 0x06, 0x00, 0x00, 0x11, 0xBE, 0x40, tag, 0x00, 0x10] @ body"

lemma asf_pong_rejected: "iw_read w = Inr (asf_pong tag body) \<Longrightarrow> isl (snd (ipmi_Poll w i))"
  by (auto simp: ipmi_Poll_def ping_def asf_pong_def Let_def split: option.split)

text \<open>A sensor whose reading is null, as Redfish reports one that is absent, becomes a reading of zero.\<close>

lemma null_reading_is_zero:
  "decode_members ''Temperatures'' ''ReadingCelsius''
     (Some (JObj [(''Temperatures'', JArr [JObj [(''Name'', JStr ''Inlet''), (''ReadingCelsius'', JNull)]])])) = Some [(''Inlet'', 0)]"
  by (simp add: decode_members_def get_field_def)

end
