(* ===== verification/Startup.thy ===== *)
theory Startup
  imports Go_Text Go_Json
begin

text \<open>
  What the five service commands share before they listen: the guard that refuses to serve without
  a token on an address other hosts can reach (requireAuthOrLoopback, the same in each of the five
  files), with \<open>net.SplitHostPort\<close> as it reads the address.
\<close>

text \<open>Where a byte is first and last; the checks of \<open>SplitHostPort\<close> in its order. None is an error.\<close>

definition index_of :: "char \<Rightarrow> string \<Rightarrow> nat option" where
  "index_of c s = (if c \<in> set s then Some (length (takeWhile (\<lambda>x. x \<noteq> c) s)) else None)"

definition last_index :: "char \<Rightarrow> string \<Rightarrow> nat option" where
  "last_index c s = (case index_of c (rev s) of None \<Rightarrow> None | Some i \<Rightarrow> Some (length s - 1 - i))"

definition split_host :: "string \<Rightarrow> string option" where
  "split_host s = (case last_index CHR '':'' s of
       None \<Rightarrow> None
     | Some i \<Rightarrow>
         if hd s = CHR ''['' then
           (case index_of CHR '']'' s of
              None \<Rightarrow> None
            | Some e \<Rightarrow>
                if e + 1 = i \<and> CHR ''['' \<notin> set (drop 1 s) \<and> CHR '']'' \<notin> set (drop (e + 1) s)
                then Some (take (e - 1) (drop 1 s)) else None)
         else if CHR '':'' \<in> set (take i s) \<or> CHR ''['' \<in> set s \<or> CHR '']'' \<in> set s then None
         else Some (take i s))"

definition listen_host :: "string \<Rightarrow> string" where
  "listen_host addr = (case split_host addr of Some h \<Rightarrow> h | None \<Rightarrow> addr)"

definition loopback :: "string \<Rightarrow> bool" where
  "loopback addr \<longleftrightarrow> listen_host addr = ''127.0.0.1'' \<or> listen_host addr = ''::1'' \<or> listen_host addr = ''localhost''"

text \<open>None lets the service start; otherwise the text it dies with.\<close>

definition requireAuthOrLoopback :: "(string \<Rightarrow> string) \<Rightarrow> string \<Rightarrow> string \<Rightarrow> bool \<Rightarrow> string option" where
  "requireAuthOrLoopback quote addr token insecure =
     (if token \<noteq> [] \<or> insecure then None
      else if loopback addr then None
      else Some (''refusing to start: no -token set and -addr '' @ quote addr @ '' is not loopback-only; ''
        @ ''set a bearer token or pass -insecure-no-auth to explicitly allow unauthenticated access (dev only)''))"

lemma guard_passes: "requireAuthOrLoopback quote addr token insecure = None \<longleftrightarrow> token \<noteq> [] \<or> insecure \<or> loopback addr"
  by (simp add: requireAuthOrLoopback_def)

text \<open>The flags every service has; a start ends in a refusal or a service.\<close>

record service_flags =
  sf_addr :: string
  sf_token :: string
  sf_insecure :: bool

datatype 'a startup = Refused string | Serving 'a

definition guarded_start :: "(string \<Rightarrow> string) \<Rightarrow> 'f service_flags_scheme \<Rightarrow> 'a \<Rightarrow> 'a startup" where
  "guarded_start quote fl x = (case requireAuthOrLoopback quote (sf_addr fl) (sf_token fl) (sf_insecure fl) of
     Some msg \<Rightarrow> Refused msg | None \<Rightarrow> Serving x)"

lemma guarded_start_Serving:
  "guarded_start quote fl x = Serving y \<longleftrightarrow> y = x \<and> (sf_token fl \<noteq> [] \<or> sf_insecure fl \<or> loopback (sf_addr fl))"
  by (auto simp: guarded_start_def requireAuthOrLoopback_def)

text \<open>A start that the guard has to stop when no token is set.\<close>

definition exposed :: "'f service_flags_scheme \<Rightarrow> bool" where
  "exposed fl \<longleftrightarrow> \<not> sf_insecure fl \<and> \<not> loopback (sf_addr fl)"

lemma guarded_start_exposed:
  "guarded_start quote fl x = Serving y \<Longrightarrow> exposed fl \<Longrightarrow> y = x \<and> sf_token fl \<noteq> []"
  by (auto simp: guarded_start_Serving exposed_def)

text \<open>Which addresses count: every interface and any other name are refused, the three loopback names pass.\<close>

lemma loopback_examples:
  "\<not> loopback '':8082''" "\<not> loopback ''0.0.0.0:8082''" "\<not> loopback ''[::]:8082''" "\<not> loopback ''127.0.0.2:80''"
  "loopback ''127.0.0.1:8082''" "loopback ''localhost:8082''" "loopback ''[::1]:8082''" "loopback ''::1''"
  by (simp_all add: loopback_def listen_host_def split_host_def last_index_def index_of_def)

subsection \<open>Environment and lists\<close>

definition envOr :: "(string \<Rightarrow> string) \<Rightarrow> string \<Rightarrow> string \<Rightarrow> string" where
  "envOr getenv k def = (if getenv k \<noteq> [] then getenv k else def)"

function split_runes :: "string \<Rightarrow> string \<Rightarrow> string list \<Rightarrow> string list" where
  "split_runes s cur out =
     (if s = [] then (if cur \<noteq> [] then out @ [cur] else out)
      else let (r, rest) = first_rune s
        in if r = '','' then split_runes rest [] (if cur \<noteq> [] then out @ [cur] else out)
           else split_runes rest (cur @ r) out)"
  by pat_completeness auto
termination
  by (relation "measure (\<lambda>(s, cur, out). length s)") (auto dest: first_rune_shorter simp: prod_eq_iff)

declare split_runes.simps [simp del]

definition splitList :: "string \<Rightarrow> string list" where
  "splitList s = (if s = [] then [] else split_runes s [] [])"

subsection \<open>The list of a flag\<close>

lemma split_at_prefix: "sep \<notin> set r \<Longrightarrow> split_at sep (r @ s) = (r @ hd (split_at sep s)) # tl (split_at sep s)"
  by (induction r) (auto split: list.split)

lemma split_runes_split:
  "CHR '','' \<notin> set cur \<Longrightarrow> split_runes s cur out = out @ filter (\<lambda>x. x \<noteq> []) (split_at CHR '','' (cur @ runes_text s))"
proof (induction s cur out rule: split_runes.induct)
  case (1 s cur out)
  obtain r rest where r: "first_rune s = (r, rest)"
    by (cases "first_rune s")
  consider "s = []" | "s \<noteq> []" "r = '',''" | "s \<noteq> []" "r \<noteq> '',''"
    by blast
  then show ?case
  proof cases
    case 1
    then show ?thesis
      using "1.prems" split_at_prefix [of "CHR '',''" cur "[]"] by (simp add: split_runes.simps)
  next
    case 2
    then show ?thesis
      using "1.IH"(1) [OF 2(1) r [symmetric] refl 2(2)] "1.prems" r split_at_prefix [of "CHR '',''" cur "'','' @ runes_text rest"]
      by (simp add: split_runes.simps [of s] runes_text.simps [of s])
  next
    case 3
    then have "CHR '','' \<notin> set (cur @ r)"
      using first_rune_comma [of s] r "1.prems" by simp
    then show ?thesis
      using "1.IH"(2) [OF 3(1) r [symmetric] refl 3(2)] 3 r
      by (simp add: split_runes.simps [of s] runes_text.simps [of s])
  qed
qed

lemma splitList_split: "splitList s = filter (\<lambda>x. x \<noteq> []) (split_at CHR '','' (runes_text s))"
  using split_runes_split [of "[]" s "[]"] by (simp add: splitList_def)

end
