(* ===== verification/Api_Cmd.thy ===== *)
theory Api_Cmd
  imports Startup Control_Server Orchestrator_Server Hardware
begin

text \<open>
  api/cmd: what the commands control, orchestrator and hardware serve once their flags are read. A
  start is refused by the guard of Startup or ends in the server's configuration and the state it
  starts from; the spec file, the environment and the clock are arguments.
\<close>

subsection \<open>control\<close>

record api_flags = service_flags +
  af_cors :: string

text \<open>The subset of the spec: the ids and kinds of its nodes.\<close>

record seed_node =
  sn_ID :: string
  sn_Kind :: string

definition zero_seed_node :: seed_node where
  "zero_seed_node = \<lparr>sn_ID = [], sn_Kind = []\<rparr>"

fun set_seed_node :: "json \<Rightarrow> seed_node \<Rightarrow> seed_node \<times> bool" where
  "set_seed_node JNull old = (old, True)"
| "set_seed_node (JObj kvs) old =
     (let (i, ok1) = fold_field set_string ''id'' kvs (sn_ID old, True); (k, ok2) = fold_field set_string ''kind'' kvs (sn_Kind old, True)
      in (\<lparr>sn_ID = i, sn_Kind = k\<rparr>, ok1 \<and> ok2))"
| "set_seed_node _ old = (old, False)"

definition facilitySpec :: "json option \<Rightarrow> seed_node list \<times> bool" where
  "facilitySpec body = get_slice set_seed_node zero_seed_node ''nodes'' body"

text \<open>The file: unreadable, or its value (None when it is no JSON) with the error text its decoding would have.\<close>

datatype seed_file = SeedUnreadable string | SeedRead "json option" string

definition decode_seeds :: "json option \<Rightarrow> seed_node list option" where
  "decode_seeds body = (let (ns, ok) = facilitySpec body in if ok then Some ns else None)"

definition seeded_kind :: "string \<Rightarrow> bool" where
  "seeded_kind k \<longleftrightarrow> k = ''rack'' \<or> k = ''pdu'' \<or> k = ''ups'' \<or> k = ''cooling_loop''"

definition f64_50 :: f64 where "f64_50 = f64_of_int 50"

fun seed_loop :: "(nat \<Rightarrow> go_time) \<Rightarrow> seed_node list \<Rightarrow> store \<Rightarrow> nat \<Rightarrow> store \<times> nat" where
  "seed_loop clock [] s count = (s, count)"
| "seed_loop clock (n # ns) s count =
     (if seeded_kind (sn_Kind n) then seed_loop clock ns (Seed (sn_ID n) f64_50 f64_50 True f64_50 (clock count) s) (count + 1)
      else seed_loop clock ns s count)"

definition seed :: "(nat \<Rightarrow> go_time) \<Rightarrow> string \<Rightarrow> seed_file \<Rightarrow> store \<Rightarrow> store \<times> string option" where
  "seed clock path src s = (case src of
       SeedUnreadable e \<Rightarrow> (s, Some e)
     | SeedRead body e \<Rightarrow> (case decode_seeds body of
           None \<Rightarrow> (s, Some e)
         | Some ns \<Rightarrow>
             let (s', count) = seed_loop clock ns s 0
             in (s', if count = 0 then Some (''no rack/pdu/ups/cooling_loop nodes found in '' @ path) else None)))"

text \<open>A failed seed is a warning: the service starts with the devices it has.\<close>

definition control_main :: "(string \<Rightarrow> string) \<Rightarrow> (nat \<Rightarrow> go_time) \<Rightarrow> string \<Rightarrow> seed_file \<Rightarrow> api_flags \<Rightarrow> (server \<times> store) startup" where
  "control_main quote clock path src fl = guarded_start quote fl
     (\<lparr>authToken = sf_token fl, cors = af_cors fl\<rparr>, fst (seed clock path src (NewStore DefaultLimits)))"

subsection \<open>orchestrator\<close>

definition orchestrator_main ::
  "(string \<Rightarrow> string) \<Rightarrow> bool \<Rightarrow> api_flags \<Rightarrow> (orc_server \<times> orchestrator \<times> sim) startup" where
  "orchestrator_main quote twoPerson fl = guarded_start quote fl
     (\<lparr>os_authToken = sf_token fl, os_cors = af_cors fl\<rparr>, New (DefaultPolicy\<lparr>RequireTwoPerson := twoPerson\<rparr>), NewSimSink)"

subsection \<open>hardware\<close>

text \<open>The IPMI client always exists, with whatever host the environment names.\<close>

definition hardware_manager :: "(string \<Rightarrow> string) \<Rightarrow> f64 \<Rightarrow> string \<Rightarrow> manager" where
  "hardware_manager getenv nameplate critical =
     NewManager (LoadRedfishEndpoint getenv)
       (Some (NewIPMIClient (getenv ''IPMI_HOST'') (getenv ''IPMI_USER'') (getenv ''IPMI_PASS'')))
       (DefaultThrottlePolicy nameplate (splitList critical))"

definition hardware_main ::
  "(string \<Rightarrow> string) \<Rightarrow> (string \<Rightarrow> string) \<Rightarrow> go_time \<Rightarrow> f64 \<Rightarrow> string \<Rightarrow> api_flags \<Rightarrow> (hw_server \<times> manager \<times> hw_state) startup" where
  "hardware_main quote getenv now nameplate critical fl = guarded_start quote fl
     (\<lparr>hw_authToken = sf_token fl, hw_cors = af_cors fl\<rparr>, hardware_manager getenv nameplate critical,
      \<lparr>hs_latest = NewGridStressMonitor now, hs_audit = Some NewAuditLog, hs_sent = []\<rparr>)"

subsection \<open>What the flags are when none is given\<close>

text \<open>The tokens and the allowed origins come from the environment; the second component is what the
  command's other flags are.\<close>

definition control_defaults :: "(string \<Rightarrow> string) \<Rightarrow> api_flags \<times> string" where
  "control_defaults getenv = (\<lparr>sf_addr = '':8082'', sf_token = getenv ''CONTROL_API_TOKEN'', sf_insecure = False,
     af_cors = getenv ''CONTROL_CORS_ORIGIN''\<rparr>, ''deploy/topology/facility.json'')"

definition orchestrator_defaults :: "(string \<Rightarrow> string) \<Rightarrow> api_flags \<times> bool" where
  "orchestrator_defaults getenv = (\<lparr>sf_addr = '':8084'', sf_token = getenv ''ORC_API_TOKEN'', sf_insecure = False,
     af_cors = getenv ''ORC_CORS_ORIGIN''\<rparr>, False)"

definition hardware_defaults :: "(string \<Rightarrow> string) \<Rightarrow> api_flags \<times> f64 \<times> string" where
  "hardware_defaults getenv = (\<lparr>sf_addr = '':8083'', sf_token = getenv ''HW_API_TOKEN'', sf_insecure = False,
     af_cors = getenv ''HW_CORS_ORIGIN''\<rparr>, f64_of_int 400, [])"

lemma every_interface: "\<not> loopback '':8082''" "\<not> loopback '':8083''" "\<not> loopback '':8084''"
  by (simp_all add: loopback_def listen_host_def split_host_def last_index_def index_of_def)

text \<open>Started without flags, the three serve with the token of the environment, or not at all.\<close>

lemma defaults_fail_closed:
  "control_main quote clock path src (fst (control_defaults getenv)) = Serving (srv, s) \<Longrightarrow>
     getenv ''CONTROL_API_TOKEN'' \<noteq> [] \<and> authToken srv = getenv ''CONTROL_API_TOKEN''"
  "orchestrator_main quote two (fst (orchestrator_defaults getenv)) = Serving (osrv, os) \<Longrightarrow>
     getenv ''ORC_API_TOKEN'' \<noteq> [] \<and> os_authToken osrv = getenv ''ORC_API_TOKEN''"
  "hardware_main quote getenv now w crit (fst (hardware_defaults getenv)) = Serving (hsrv, m, hs) \<Longrightarrow>
     getenv ''HW_API_TOKEN'' \<noteq> [] \<and> hw_authToken hsrv = getenv ''HW_API_TOKEN''"
  by (auto simp: control_main_def orchestrator_main_def hardware_main_def guarded_start_Serving every_interface
      control_defaults_def orchestrator_defaults_def hardware_defaults_def)

subsection \<open>The devices of the control service\<close>

definition seeded_devices :: "seed_file \<Rightarrow> string list" where
  "seeded_devices src = (case src of
       SeedUnreadable e \<Rightarrow> []
     | SeedRead body e \<Rightarrow> (case decode_seeds body of None \<Rightarrow> [] | Some ns \<Rightarrow> map sn_ID (filter (\<lambda>n. seeded_kind (sn_Kind n)) ns)))"

lemma Seed_dom: "dom (dev_state (Seed d v f out dl now s)) = insert d (dom (dev_state s))"
  by (auto simp: Seed_def)

lemma Seed_limits: "limits (Seed d v f out dl now s) = limits s"
  by (simp add: Seed_def)

lemma Seed_safe: "limits_wf (limits s) \<Longrightarrow> store_safe s \<Longrightarrow> store_safe (Seed d v f out dl now s)"
  using ctl_step_safe [of s "OpSeed d v f out dl now"] by simp

lemma seed_loop_dom:
  "dom (dev_state (fst (seed_loop clock ns s c))) = dom (dev_state s) \<union> set (map sn_ID (filter (\<lambda>n. seeded_kind (sn_Kind n)) ns))"
  by (induction clock ns s c rule: seed_loop.induct) (auto simp: Seed_dom)

lemma seed_loop_safe:
  "limits_wf (limits s) \<Longrightarrow> store_safe s \<Longrightarrow> store_safe (fst (seed_loop clock ns s c)) \<and> limits (fst (seed_loop clock ns s c)) = limits s"
  by (induction clock ns s c rule: seed_loop.induct) (simp_all add: Seed_safe Seed_limits)

lemma seed_dom: "dom (dev_state (fst (seed clock path src s))) = dom (dev_state s) \<union> set (seeded_devices src)"
  by (auto simp: seed_def seeded_devices_def Let_def split_beta seed_loop_dom split: seed_file.split option.split)

lemma seed_safe:
  "limits_wf (limits s) \<Longrightarrow> store_safe s \<Longrightarrow> store_safe (fst (seed clock path src s)) \<and> limits (fst (seed clock path src s)) = limits s"
  by (auto simp: seed_def Let_def split_beta seed_loop_safe split: seed_file.split option.split)

text \<open>No request adds a device or takes one away.\<close>

lemma op_dom [simp]:
  "dom (dev_state (fst (Override d cmd v oper r now ts s))) = dom (dev_state s)"
  "dom (dev_state (fst (Reset d oper r now ts s))) = dom (dev_state s)"
  "dom (dev_state (fst (LatchSafe d oper r now ts s))) = dom (dev_state s)"
  by (auto simp: Override_def Reset_def LatchSafe_def Let_def split: option.split)

lemma handler_dom [simp]:
  "dom (dev_state (fst (handleOverride ev rq s))) = dom (dev_state s)"
  "dom (dev_state (fst (handleReset ev rq s))) = dom (dev_state s)"
  "dom (dev_state (fst (handleLatch ev rq s))) = dom (dev_state s)"
  by (simp_all add: handleOverride_def handleReset_def handleLatch_def Let_def split_beta split: sum.split)

lemma NewServer_dom: "dom (dev_state (fst (NewServer srv ev rq s))) = dom (dev_state s)"
  by (simp add: NewServer_def corsMiddleware_def auth_def cors_wrap_def auth_check_def ctl_mux_def Let_def split_beta)

lemma serve_all_dom: "dom (dev_state (serve_all srv rqs s)) = dom (dev_state s)"
  by (induction srv rqs s rule: serve_all.induct) (simp_all add: NewServer_dom)

subsection \<open>What the other two start from\<close>

lemma two_person_policy_wf: "policy_wf (DefaultPolicy\<lparr>RequireTwoPerson := b\<rparr>)"
  using DefaultPolicy_wf by (simp add: policy_wf_def)

text \<open>Under a critical signal a server is shut down iff the flag names it; an empty name never is.\<close>

lemma critical_list_shed:
  assumes "gs_Level sig = StressCritical"
  shows "ta_Shutdown (Resolve (m_policy (hardware_manager getenv w critical)) srv sig) \<longleftrightarrow>
    srv \<noteq> [] \<and> srv \<in> set (split_at CHR '','' (runes_text critical))"
  using assms by (auto simp: hardware_manager_def NewManager_def Resolve_def DefaultThrottlePolicy_def Let_def splitList_split list_ex_iff)

subsection \<open>The control service as it is started\<close>

text \<open>It serves only with a token, on a loopback address or by the explicit flag; its devices are exactly
  the racks, PDUs, UPSs and cooling loops of the spec (none when the spec cannot be read), and no
  sequence of requests adds or removes one or takes one out of the default envelope.\<close>

lemma control_service_safe:
  assumes "control_main quote clock path src fl = Serving (srv, s0)"
  shows "(sf_token fl \<noteq> [] \<or> sf_insecure fl \<or> loopback (sf_addr fl)) \<and> authToken srv = sf_token fl
    \<and> dom (dev_state (serve_all srv rqs s0)) = set (seeded_devices src)
    \<and> limits (serve_all srv rqs s0) = DefaultLimits \<and> store_safe (serve_all srv rqs s0)"
proof -
  have new: "limits (NewStore DefaultLimits) = DefaultLimits" "dev_state (NewStore DefaultLimits) = Map.empty"
    by (simp_all add: NewStore_def DefaultLimits_not_zero)
  have start: "s0 = fst (seed clock path src (NewStore DefaultLimits))" "authToken srv = sf_token fl"
    "sf_token fl \<noteq> [] \<or> sf_insecure fl \<or> loopback (sf_addr fl)"
    using assms by (auto simp: control_main_def guarded_start_Serving)
  have s0: "store_safe s0 \<and> limits s0 = DefaultLimits" "dom (dev_state s0) = set (seeded_devices src)"
    using seed_safe [where s = "NewStore DefaultLimits" and clock = clock and path = path and src = src] NewStore_safe [of DefaultLimits]
      seed_dom [where s = "NewStore DefaultLimits" and clock = clock and path = path and src = src]
    by (simp_all add: start(1) new DefaultLimits_wf)
  show ?thesis
    using start(2,3) s0 serve_all_safe [of s0 srv rqs] DefaultLimits_wf by (simp add: serve_all_dom)
qed

end
