(* ===== verification/Telemetry_Cmd.thy ===== *)
theory Telemetry_Cmd
  imports Startup Collectors Writer Pipeline QuestDB_Server Topology_File
begin

text \<open>
  go-telemetry/cmd: the ingestion command (which sink and which collectors a run has, and the pipeline
  it starts), the query API and the topology API up to the moment they serve, and the load test's
  pipeline. Files, the environment and the answers of the database are arguments. What runs from
  there on is in \<open>Ingest_Run\<close> (the pipeline) and \<open>Commands_Run\<close> (the two APIs).
\<close>

text \<open>A command dies with a message, ends, or serves.\<close>

datatype 'a run_end = Fatal string | Exited | Up 'a

subsection \<open>The ingestion command\<close>

datatype sink_writer = LogSink log_writer | QuestSink questdb | NullSink null_writer

definition buildSink :: "string \<Rightarrow> string \<Rightarrow> string \<Rightarrow> sink_writer" where
  "buildSink kind addr table =
     (if kind = ''log'' then LogSink (NewLogWriter table)
      else if kind = ''questdb'' then QuestSink (NewQuestDB \<lparr>q_Address = addr, q_Table = table\<rparr>)
      else QuestSink (NewQuestDB \<lparr>q_Address = addr, q_Table = table\<rparr>))"

datatype built_source = BSynthetic synthetic | BRedfish redfish | BModbus modbus | BIpmi ipmi

definition errUnknownMode :: "(string \<Rightarrow> string) \<Rightarrow> string \<Rightarrow> string" where
  "errUnknownMode quote mode = ''unknown mode '' @ quote mode @ '' (want sim or real)''"

definition real_polls :: "register_poll list" where
  "real_polls =
     [\<lparr>rp_Address = 0, rp_Count = 10, rp_Metric = MetricTemperature, rp_Device = ''pdu-1'', rp_Sensor = ''temp-%d'', rp_Scale = 0\<rparr>,
      \<lparr>rp_Address = 10, rp_Count = 10, rp_Metric = MetricPower, rp_Device = ''pdu-1'', rp_Sensor = ''power-%d'', rp_Scale = 0\<rparr>]"

definition buildCollectors :: "(string \<Rightarrow> string) \<Rightarrow> (string \<Rightarrow> string) \<Rightarrow> string \<Rightarrow> string + built_source list" where
  "buildCollectors quote getenv mode =
     (if mode = ''sim'' then
        Inr [BSynthetic (NewSynthetic \<lparr>sc_Devices = 0, sc_SensorsPerDevice = 0, sc_Metrics = []\<rparr>)]
      else if mode = ''real'' then
        Inr [BRedfish (NewRedfish \<lparr>rc_BaseURL = getenv ''REDFISH_URL'', rc_Username = getenv ''REDFISH_USER'',
                        rc_Password = getenv ''REDFISH_PASS'', rc_Chassis = [''1'']\<rparr>),
             BModbus (NewModbus \<lparr>mc_Address = getenv ''MODBUS_ADDR'', mc_UnitID = 1, mc_Polls = real_polls\<rparr>),
             BIpmi (NewIPMI \<lparr>ic_Host = getenv ''IPMI_HOST'', ic_Port = 0, ic_Username = getenv ''IPMI_USER'',
                     ic_Password = getenv ''IPMI_PASS'', ic_IPMITool = []\<rparr>)]
      else Inl (errUnknownMode quote mode))"

record ingest_flags =
  if_mode :: string
  if_questdb :: string
  if_sink :: string
  if_table :: string
  if_workers :: int
  if_batch :: int
  if_batch_timeout :: int
  if_buf :: int
  if_poll :: int
  if_metrics :: int

record ingestion =
  in_collectors :: "built_source list"
  in_sink :: sink_writer
  in_cfg :: config
  in_pipe :: pipe

definition telemetry_main :: "(string \<Rightarrow> string) \<Rightarrow> (string \<Rightarrow> string) \<Rightarrow> ingest_flags \<Rightarrow> ingestion run_end" where
  "telemetry_main quote getenv fl =
     (let dl = NewDeadLetterSink (Some NewRegistry) 4096; snk = buildSink (if_sink fl) (if_questdb fl) (if_table fl)
      in case buildCollectors quote getenv (if_mode fl) of
           Inl e \<Rightarrow> Fatal (''collectors: '' @ e)
         | Inr cs \<Rightarrow>
             let cfg = New_pipeline \<lparr>IngestBuffer = if_buf fl, Workers = if_workers fl, BatchSize = if_batch fl,
                   BatchTimeout = if_batch_timeout fl, PollInterval = if_poll fl\<rparr>
             in Up \<lparr>in_collectors = cs, in_sink = snk, in_cfg = cfg, in_pipe = pipe_start cfg (length cs) (Some dl)\<rparr>)"

subsection \<open>The query API\<close>

record query_flags = service_flags +
  qf_questdb :: string
  qf_apply :: bool
  qf_maintenance :: bool
  qf_every :: int
  qf_raw :: string
  qf_rollup :: string

text \<open>What serves: the client, the token, and whether the maintenance loop runs beside the server.\<close>

type_synonym query_service = "client \<times> string \<times> bool"

definition api_main :: "(string \<Rightarrow> string) \<Rightarrow> qdb_env \<Rightarrow> query_flags \<Rightarrow> sent_request list \<Rightarrow> sent_request list \<times> query_service run_end" where
  "api_main quote ev fl h =
     (let c = NewClient (qf_questdb fl);
          (h1, e1) = (if qf_apply fl then Apply ev c h else (h, None))
      in case e1 of
           Some e \<Rightarrow> (h1, Fatal (''apply schema: '' @ e))
         | None \<Rightarrow>
             if qf_apply fl \<and> \<not> qf_maintenance fl \<and> qf_every fl = 0 then (h1, Exited)
             else let (h2, e2) = (if qf_maintenance fl then RunMaintenance ev c (qf_raw fl) (qf_rollup fl) h1 else (h1, None))
               in (case e2 of
                     Some e \<Rightarrow> (h2, Fatal (''maintenance: '' @ e))
                   | None \<Rightarrow>
                       if qf_maintenance fl \<and> qf_every fl = 0 then (h2, Exited)
                       else case guarded_start quote fl (c, sf_token fl, 0 < qf_every fl) of
                           Refused msg \<Rightarrow> (h2, Fatal msg)
                         | Serving x \<Rightarrow> (h2, Up x)))"

text \<open>The maintenance loop by itself: one run per tick, whose error is only logged.\<close>

fun maintenance_loop :: "query_flags \<Rightarrow> client \<Rightarrow> qdb_env list \<Rightarrow> sent_request list \<Rightarrow> sent_request list" where
  "maintenance_loop fl c [] h = h"
| "maintenance_loop fl c (ev # ticks) h = maintenance_loop fl c ticks (fst (RunMaintenance ev c (qf_raw fl) (qf_rollup fl) h))"

subsection \<open>The topology API\<close>

record topo_flags = service_flags +
  tf_spec :: string
  tf_questdb :: string
  tf_discover :: bool

text \<open>A discovery that fails is only logged: what it added stays.\<close>

definition topology_main ::
  "(string \<Rightarrow> string) \<Rightarrow> string + json option \<times> string \<Rightarrow> qdb_env \<Rightarrow> topo_flags \<Rightarrow> sent_request list \<Rightarrow> sent_request list \<times> (string \<times> graph) run_end" where
  "topology_main quote doc ev fl h =
     (case requireAuthOrLoopback quote (sf_addr fl) (sf_token fl) (sf_insecure fl) of
        Some msg \<Rightarrow> (h, Fatal msg)
      | None \<Rightarrow>
          (case (if tf_spec fl = [] then Inr NewGraph else LoadSpec_file quote (tf_spec fl) doc) of
             Inl e \<Rightarrow> (h, Fatal (''load spec: '' @ e))
           | Inr g \<Rightarrow>
               let (h', g') = (if tf_discover fl \<and> tf_questdb fl \<noteq> []
                     then (let (h1, g1, e) = DiscoverFromTelemetry ev (NewClient (tf_questdb fl)) h g in (h1, g1)) else (h, g))
               in (h', Up (sf_token fl, g'))))"

subsection \<open>The load test\<close>

record load_flags =
  lf_workers :: int
  lf_batch :: int
  lf_sources :: int
  lf_buf :: int
  lf_devices :: int

text \<open>A negative number of sources panics in \<open>make\<close>. The sink takes everything, and there is no dead-letter sink.\<close>

definition loadtest_main :: "load_flags \<Rightarrow> (synthetic list \<times> config \<times> null_writer \<times> pipe) go_result" where
  "loadtest_main fl =
     (if lf_sources fl < 0 then Panic
      else
        let cs = map (\<lambda>i. NewSynthetic \<lparr>sc_Devices = lf_devices fl, sc_SensorsPerDevice = 0, sc_Metrics = []\<rparr>) [0..<nat (lf_sources fl)];
            cfg = New_pipeline \<lparr>IngestBuffer = lf_buf fl, Workers = lf_workers fl, BatchSize = lf_batch fl,
              BatchTimeout = 50 * 10 ^ 6, PollInterval = 10 ^ 6\<rparr>
        in Ret (cs, cfg, NewNullWriter, pipe_start cfg (length cs) None))"

subsection \<open>What the flags are when none is given\<close>

definition ingest_defaults :: ingest_flags where
  "ingest_defaults = \<lparr>if_mode = ''sim'', if_questdb = ''localhost:9009'', if_sink = ''auto'', if_table = ''readings'', if_workers = 4,
     if_batch = 4096, if_batch_timeout = 200 * 10 ^ 6, if_buf = 65536, if_poll = 10 ^ 9, if_metrics = 5 * 10 ^ 9\<rparr>"

definition query_defaults :: "(string \<Rightarrow> string) \<Rightarrow> query_flags" where
  "query_defaults getenv = \<lparr>sf_addr = '':8080'', sf_token = getenv ''QUESTDB_API_TOKEN'', sf_insecure = False,
     qf_questdb = ''http://localhost:9000'', qf_apply = False, qf_maintenance = False, qf_every = 0,
     qf_raw = ''dateadd('' @ quot @ ''d'' @ quot @ '', -90, now())'', qf_rollup = ''dateadd('' @ quot @ ''y'' @ quot @ '', -2, now())''\<rparr>"

definition topology_defaults :: "(string \<Rightarrow> string) \<Rightarrow> topo_flags" where
  "topology_defaults getenv = \<lparr>sf_addr = '':8081'', sf_token = getenv ''TOPOLOGY_API_TOKEN'', sf_insecure = False,
     tf_spec = [], tf_questdb = [], tf_discover = False\<rparr>"

definition load_defaults :: load_flags where
  "load_defaults = \<lparr>lf_workers = 8, lf_batch = 8192, lf_sources = 4, lf_buf = 2 ^ 20, lf_devices = 64\<rparr>"

subsection \<open>The built sink is a time-series writer\<close>

fun sink_WriteBatch :: "write_env \<times> (nat \<times> string) option \<Rightarrow> data_point list \<Rightarrow> sink_writer \<Rightarrow> sink_writer \<times> string option" where
  "sink_WriteBatch ev pts (LogSink l) = (let (l', e) = log_WriteBatch (snd ev) pts l in (LogSink l', e))"
| "sink_WriteBatch ev pts (QuestSink q) = (let (q', e) = WriteBatch (fst ev) pts q in (QuestSink q', e))"
| "sink_WriteBatch ev pts (NullSink n) = (let (n', e) = null_WriteBatch () pts n in (NullSink n', e))"

fun sink_wire :: "sink_writer \<Rightarrow> string" where
  "sink_wire (LogSink l) = l_out l"
| "sink_wire (QuestSink q) = on_wire q"
| "sink_wire (NullSink n) = []"

fun sink_rendering :: "write_env \<times> (nat \<times> string) option \<Rightarrow> sink_writer \<Rightarrow> data_point list \<Rightarrow> string" where
  "sink_rendering ev (LogSink l) pts = log_payload (l_table l) pts"
| "sink_rendering ev (QuestSink q) pts = questdb_rendering (fst ev) q pts"
| "sink_rendering ev (NullSink n) pts = []"

interpretation built_sink: ts_writer sink_WriteBatch sink_wire sink_rendering
proof
  fix ev pts and s s' :: sink_writer and err
  show "sink_WriteBatch ev pts s = (s', None) \<Longrightarrow> sink_wire s' = sink_wire s @ sink_rendering ev s pts"
    using logw.accepted questdb.accepted nullw.accepted by (cases s) (auto split: prod.splits)
  show "sink_WriteBatch ev pts s = (s', Some err) \<Longrightarrow> \<exists>n. sink_wire s' = sink_wire s @ take n (sink_rendering ev s pts)"
    using logw.rejected questdb.rejected nullw.rejected by (cases s) (auto split: prod.splits)
next
  fix ev ev' pts pts' and s :: sink_writer
  show "sink_rendering ev (fst (sink_WriteBatch ev' pts' s)) pts = sink_rendering ev s pts"
    using logw.rendering_stable questdb.rendering_stable nullw.rendering_stable by (cases s) (auto simp: split_beta Let_def)
qed

subsection \<open>The built collectors are collectors\<close>

record poll_world =
  pw_draws :: "(nat \<Rightarrow> f64) \<times> 64 word"
  pw_redfish :: redfish_world
  pw_modbus :: "(nat \<Rightarrow> net_call) \<times> 64 word"
  pw_ipmi :: ipmi_world

fun built_Poll :: "(string \<Rightarrow> nat \<Rightarrow> string) \<Rightarrow> poll_world \<Rightarrow> built_source \<Rightarrow> built_source \<times> (string + data_point list)" where
  "built_Poll sprintf w (BSynthetic s) = (let (s', r) = synthetic_Poll (pw_draws w) s in (BSynthetic s', r))"
| "built_Poll sprintf w (BRedfish s) = (let (s', r) = redfish_Poll (pw_redfish w) s in (BRedfish s', r))"
| "built_Poll sprintf w (BModbus s) = (let (s', r) = modbus_poll_with sprintf (pw_modbus w) s in (BModbus s', r))"
| "built_Poll sprintf w (BIpmi s) = (let (s', r) = ipmi_Poll (pw_ipmi w) s in (BIpmi s', r))"

fun built_ready :: "(string \<Rightarrow> nat \<Rightarrow> string) \<Rightarrow> built_source \<Rightarrow> bool" where
  "built_ready sprintf (BSynthetic s) \<longleftrightarrow> metrics_named s"
| "built_ready sprintf (BRedfish s) \<longleftrightarrow> True"
| "built_ready sprintf (BModbus s) \<longleftrightarrow> blocks_named sprintf s"
| "built_ready sprintf (BIpmi s) \<longleftrightarrow> True"

interpretation built_collector: telemetry_collector "built_Poll sprintf" "built_ready sprintf" for sprintf
proof
  fix w and s :: built_source and pts
  show "built_ready sprintf s \<Longrightarrow> built_ready sprintf (fst (built_Poll sprintf w s))"
    using synthetic_collector.stays_ready modbus_collector.stays_ready by (cases s) (simp_all add: split_beta Let_def)
  show "built_ready sprintf s \<Longrightarrow> snd (built_Poll sprintf w s) = Inr pts \<Longrightarrow> list_all well_named pts"
    using synthetic_collector.named modbus_collector.named redfish_collector.named ipmi_collector.named
    by (cases s) (simp_all add: split_beta Let_def)
qed

text \<open>The points a source hands over in a sequence of polls.\<close>

fun gather :: "(string \<Rightarrow> nat \<Rightarrow> string) \<Rightarrow> poll_world list \<Rightarrow> built_source \<Rightarrow> data_point list" where
  "gather sprintf [] s = []"
| "gather sprintf (w # ws) s = (let (s', r) = built_Poll sprintf w s in (case r of Inl e \<Rightarrow> [] | Inr pts \<Rightarrow> pts) @ gather sprintf ws s')"

lemma gather_gathered: "gather sprintf ws s = built_collector.gathered sprintf ws s"
  by (induction ws arbitrary: s) (simp_all add: split_beta Let_def)

lemma NewSynthetic_ready: "[] \<notin> set (sc_Metrics cfg) \<Longrightarrow> metrics_named (NewSynthetic cfg)"
  by (simp add: NewSynthetic_def metrics_named_def Let_def)

text \<open>What \<open>Sprintf\<close> is relied on for: a format that ends in \<open>%d\<close> and has no other verb keeps its prefix.\<close>

definition formats_index :: "(string \<Rightarrow> nat \<Rightarrow> string) \<Rightarrow> bool" where
  "formats_index sprintf \<longleftrightarrow> (\<forall>pre i. CHR ''%'' \<notin> set pre \<longrightarrow> sprintf (pre @ ''%d'') i = pre @ show_nat i)"

lemma real_polls_named: "formats_index sprintf \<Longrightarrow> list_all (block_named sprintf) real_polls"
proof -
  assume f: "formats_index sprintf"
  have "sprintf ''temp-%d'' i = ''temp-'' @ show_nat i" "sprintf ''power-%d'' i = ''power-'' @ show_nat i" for i
    using f [unfolded formats_index_def, rule_format, of "''temp-''" i] f [unfolded formats_index_def, rule_format, of "''power-''" i]
    by simp_all
  then show ?thesis
    by (simp add: real_polls_def block_named_def)
qed

lemma buildCollectors_ready:
  "formats_index sprintf \<Longrightarrow> buildCollectors quote getenv mode = Inr cs \<Longrightarrow> list_all (built_ready sprintf) cs"
  using real_polls_named [of sprintf]
  by (auto simp: buildCollectors_def NewSynthetic_ready NewModbus_def blocks_named_def split: if_splits)

subsection \<open>What the other commands start\<close>

lemma run_ended_None: "run_ended ev c ss h out \<Longrightarrow> snd out = None \<Longrightarrow> fst out = h @ map (exec_request c) ss"
  by (simp add: run_ended_def)

lemma Apply_ok: "snd (Apply ev c h) = None \<Longrightarrow> fst (Apply ev c h) = h @ map (exec_request c) (statements Schema)"
  unfolding Apply_def by (rule run_ended_None [OF ExecMany_run])

lemma RunMaintenance_ok:
  "snd (RunMaintenance ev c raw rollup h) = None \<Longrightarrow>
   fst (RunMaintenance ev c raw rollup h) = h @ map (exec_request c) (statements (MaintenancePlan raw rollup))"
  unfolding RunMaintenance_def by (rule run_ended_None [OF ExecMany_run])

text \<open>The query API serves only behind the guard, and then the whole schema and the whole plan that the
  flags ask for have been accepted, the schema first.\<close>

lemma api_main_Up:
  assumes "api_main quote ev fl h = (h', Up (c, token, loop))"
  shows "c = NewClient (qf_questdb fl) \<and> token = sf_token fl \<and> loop = (0 < qf_every fl)
    \<and> (sf_token fl \<noteq> [] \<or> sf_insecure fl \<or> loopback (sf_addr fl))
    \<and> h' = h @ map (exec_request c) ((if qf_apply fl then statements Schema else [])
        @ (if qf_maintenance fl then statements (MaintenancePlan (qf_raw fl) (qf_rollup fl)) else []))"
proof -
  let ?c = "NewClient (qf_questdb fl)"
  obtain h1 e1 where a: "(if qf_apply fl then Apply ev ?c h else (h, None)) = (h1, e1)"
    by fastforce
  obtain h2 e2 where b: "(if qf_maintenance fl then RunMaintenance ev ?c (qf_raw fl) (qf_rollup fl) h1 else (h1, None)) = (h2, e2)"
    by fastforce
  have up: "e1 = None" "e2 = None" "h' = h2" "guarded_start quote fl (?c, sf_token fl, 0 < qf_every fl) = Serving (c, token, loop)"
    using assms by (auto simp: api_main_def Let_def a b split: option.splits if_splits startup.splits)
  have "h1 = h @ map (exec_request ?c) (if qf_apply fl then statements Schema else [])"
    using a up(1) Apply_ok [of ev ?c h] by (auto split: if_splits)
  moreover have "h2 = h1 @ map (exec_request ?c) (if qf_maintenance fl then statements (MaintenancePlan (qf_raw fl) (qf_rollup fl)) else [])"
    using b up(2) RunMaintenance_ok [of ev ?c "qf_raw fl" "qf_rollup fl" h1] by (auto split: if_splits)
  ultimately show ?thesis
    using up(3,4) by (auto simp: guarded_start_Serving)
qed

text \<open>The topology API serves only behind the guard, a graph that satisfies the invariant.\<close>

lemma topology_main_Up:
  assumes "topology_main quote doc ev fl h = (h', Up (token, g))"
  shows "token = sf_token fl \<and> (sf_token fl \<noteq> [] \<or> sf_insecure fl \<or> loopback (sf_addr fl)) \<and> graph_wf g"
proof -
  have guard: "requireAuthOrLoopback quote (sf_addr fl) (sf_token fl) (sf_insecure fl) = None"
    using assms by (auto simp: topology_main_def split: option.splits)
  obtain g0 where g0: "(if tf_spec fl = [] then Inr NewGraph else LoadSpec_file quote (tf_spec fl) doc) = Inr g0"
    using assms guard by (auto simp: topology_main_def split: sum.splits)
  have "graph_wf g0"
    using g0 NewGraph_wf Load_wf [of quote _ NewGraph]
    by (auto simp: LoadSpec_file_def LoadSpec_def split: if_splits spec_file.splits prod.splits option.splits) (metis fst_conv)
  then have "graph_wf (fst (snd (DiscoverFromTelemetry ev c h g0)))" for c
    by (rule Discover_wf)
  then show ?thesis
    using assms guard \<open>graph_wf g0\<close>
    by (auto simp: topology_main_def g0 guard_passes split_beta Let_def split: if_splits)
qed

text \<open>Every run has a pipeline whose bounds are positive and one source per collector.\<close>

lemma telemetry_main_Up:
  "telemetry_main quote getenv fl = Up r \<Longrightarrow> cfg_ok (in_cfg r) \<and> length (p_sources (in_pipe r)) = length (in_collectors r) \<and> in_collectors r \<noteq> []"
  by (auto simp: telemetry_main_def buildCollectors_def Let_def New_pipeline_ok pipe_start_def split: sum.splits if_splits)

lemma loadtest_sources:
  "loadtest_main fl = Ret (cs, cfg, snk, p) \<Longrightarrow> cfg_ok cfg \<and> list_all metrics_named cs \<and> length (p_sources p) = length cs"
  by (auto simp: loadtest_main_def Let_def New_pipeline_ok pipe_start_def NewSynthetic_ready list_all_iff split: if_splits)

text \<open>The defaults of the flags are those of the pipeline's configuration, and pass through it unchanged.\<close>

lemma ingest_defaults_cfg:
  "telemetry_main quote getenv ingest_defaults = Up r \<Longrightarrow> in_cfg r = New_pipeline \<lparr>IngestBuffer = 0, Workers = 0, BatchSize = 0, BatchTimeout = 0, PollInterval = 0\<rparr>"
  by (auto simp: telemetry_main_def ingest_defaults_def buildCollectors_def New_pipeline_def Let_def)

lemma load_defaults_start: "\<exists>cs n p. loadtest_main load_defaults = Ret (cs,
    \<lparr>IngestBuffer = 2 ^ 20, Workers = 8, BatchSize = 8192, BatchTimeout = 50 * 10 ^ 6, PollInterval = 10 ^ 6\<rparr>, n, p) \<and> length cs = 4"
  by (simp add: loadtest_main_def load_defaults_def New_pipeline_def Let_def)

text \<open>The starts that docker-compose.yml and docs/getting-started.md give for the two APIs (a port on
  every interface, no token, no insecure flag) are refused.\<close>

lemma any_interface: "\<not> loopback '':8080''" "\<not> loopback '':8081''"
  by (simp_all add: loopback_def listen_host_def split_host_def last_index_def index_of_def)

lemma documented_api_refused:
  assumes "sf_addr fl = '':8080''" "sf_token fl = []" "\<not> sf_insecure fl" "\<not> qf_apply fl" "\<not> qf_maintenance fl"
  shows "\<exists>msg. api_main quote ev fl h = (h, Fatal msg)"
  using assms any_interface(1) by (simp add: api_main_def guarded_start_def requireAuthOrLoopback_def)

text \<open>Without flags the two APIs serve only with the token of the environment.\<close>

lemma telemetry_defaults_fail_closed:
  "api_main quote ev (query_defaults getenv) h = (h', Up (c, token, loop)) \<Longrightarrow> token \<noteq> [] \<and> token = getenv ''QUESTDB_API_TOKEN'' \<and> h' = h"
  "topology_main quote doc ev (topology_defaults getenv) h = (h', Up (tok, g)) \<Longrightarrow> tok \<noteq> [] \<and> tok = getenv ''TOPOLOGY_API_TOKEN'' \<and> g = NewGraph"
  using any_interface
  by (auto simp: api_main_def topology_main_def query_defaults_def topology_defaults_def guarded_start_Serving guard_passes Let_def
      split: startup.splits option.splits)

lemma documented_topology_refused:
  assumes "sf_addr fl = '':8081''" "sf_token fl = []" "\<not> sf_insecure fl"
  shows "\<exists>msg. topology_main quote doc ev fl h = (h, Fatal msg)"
  using assms any_interface(2) by (simp add: topology_main_def requireAuthOrLoopback_def)

subsection \<open>Property\<close>

text \<open>C21. What the ingestion command collects, its wire format carries: in every mode the command knows,
  every point that any of its collectors hands over, whatever devices and networks answer, names its
  device, its sensor and its metric with the metric's unit, and a point whose strings fit their
  length fields encodes and decodes back to itself.\<close>

theorem collected_points_encode:
  assumes "formats_index sprintf" and "buildCollectors quote getenv mode = Inr cs"
    and "s \<in> set cs" and "p \<in> set (gather sprintf ws s)"
  shows "well_named p \<and> (if fits p then \<exists>bs. MarshalBinary p = Ret bs \<and> UnmarshalBinary bs = Ret p else True)"
proof -
  have "built_ready sprintf s"
    using buildCollectors_ready [OF assms(1,2)] assms(3) by (simp add: list_all_iff)
  then show ?thesis
    using built_collector.gathered_named [of sprintf s ws] built_collector.gathered_encode [of sprintf s p ws] assms(4)
    by (auto simp: gather_gathered list_all_iff)
qed

definition bmc_answer :: json where
  "bmc_answer = JObj [(''Temperatures'', JArr [JObj [(''Name'', JStr ''Inlet''), (''ReadingCelsius'', JNull)]])]"

definition quiet_world :: poll_world where
  "quiet_world = \<lparr>pw_draws = (\<lambda>i. 0, 5), pw_redfish = \<lparr>rw_get = (\<lambda>path. GetReply 200 (Some bmc_answer) []), rw_now = 5\<rparr>,
     pw_modbus = (\<lambda>i. \<lparr>n_dial = Some ''refused'', n_setdl = None, n_write = None, n_arrives = [], n_read = ''EOF'', n_ctx = None, n_now = 5\<rparr>, 5),
     pw_ipmi = \<lparr>iw_dial = Some ''refused'', iw_write = None, iw_read = Inl ''timeout'',
       iw_cmd = \<lparr>cr_stdout = [], cr_stderr = [], cr_err = Some (True, ''not found'')\<rparr>, iw_now = 5\<rparr>\<rparr>"

theorem collected_points_encode_witness:
  "\<exists>bs. MarshalBinary (New_point ''chassis:1'' ''thermal:Inlet'' MetricTemperature 0 5) = Ret bs
     \<and> UnmarshalBinary bs = Ret (New_point ''chassis:1'' ''thermal:Inlet'' MetricTemperature 0 5)"
proof -
  let ?s = "BRedfish (NewRedfish \<lparr>rc_BaseURL = [], rc_Username = [], rc_Password = [], rc_Chassis = [''1'']\<rparr>)"
  let ?p = "New_point ''chassis:1'' ''thermal:Inlet'' MetricTemperature 0 5"
  have "formats_index (\<lambda>f i. take (length f - 2) f @ show_nat i)"
    by (simp add: formats_index_def)
  moreover obtain cs where "buildCollectors id (\<lambda>k. []) ''real'' = Inr cs" "?s \<in> set cs"
    by (simp add: buildCollectors_def)
  moreover have "?p \<in> set (gather (\<lambda>f i. take (length f - 2) f @ show_nat i) [quiet_world] ?s)"
    by (simp add: redfish_Poll_def NewRedfish_def redfish_get_def quiet_world_def bmc_answer_def decode_members_def get_field_def
        chassis_path_def member_points_def)
  ultimately have "if fits ?p then \<exists>bs. MarshalBinary ?p = Ret bs \<and> UnmarshalBinary bs = Ret ?p else True"
    using collected_points_encode by blast
  moreover have "fits ?p"
    by (simp add: fits_def New_point_def UnitForMetric_def)
  ultimately show ?thesis by simp
qed

end
