(* ===== verification/Dashboard.thy ===== *)
theory Dashboard
  imports Api_Cmd Telemetry_Cmd
begin

text \<open>
  dashboard/cmd/dashboard: the origin in front of the five services. Its mux sends a prefix to each
  of them through a reverse proxy and everything else to the static files, with the hardening headers
  on every answer. The theory composes it with the five handler chains over one state, the plant.
\<close>

subsection \<open>The plant\<close>

record plant =
  pl_control :: store
  pl_orchestrator :: "orchestrator \<times> sim"
  pl_hardware :: hw_state
  pl_topology :: graph
  pl_query :: "sent_request list"

datatype plant_payload =
    FromControl payload
  | FromOrchestrator orc_payload
  | FromHardware hw_payload
  | FromTopology topo_payload
  | FromQuery query_payload
  | FromFiles string

type_synonym plant_handler = "(plant, plant_payload) handler"

datatype service = SControl | SOrchestrator | SHardware | STopology | STelemetry

text \<open>What each service was configured with, and the world its handlers meet.\<close>

record plant_cfg =
  pg_control :: server
  pg_orchestrator :: orc_server
  pg_hardware :: "hw_server \<times> manager"
  pg_topology :: string
  pg_query :: string

record plant_env =
  pe_control :: env
  pe_orchestrator :: orc_env
  pe_hardware :: "net \<times> go_time"
  pe_topology :: topo_env
  pe_query :: query_env

fun map_body :: "('p \<Rightarrow> 'q) \<Rightarrow> 'p http_body \<Rightarrow> 'q http_body" where
  "map_body f NoBody = NoBody"
| "map_body f (TextBody t) = TextBody t"
| "map_body f (JsonBody p) = JsonBody (f p)"

definition at_service :: "('w \<Rightarrow> 's) \<Rightarrow> ('s \<Rightarrow> 'w \<Rightarrow> 'w) \<Rightarrow> ('p \<Rightarrow> 'q) \<Rightarrow> ('s, 'p) handler \<Rightarrow> ('w, 'q) handler" where
  "at_service get put wrap h rq w =
     (let (s', r) = h rq (get w)
      in (put s' w, \<lparr>rs_status = rs_status r, rs_headers = rs_headers r, rs_body = map_body wrap (rs_body r)\<rparr>))"

text \<open>A request sent to one of the services.\<close>

fun serve_at :: "plant_cfg \<Rightarrow> plant_env \<Rightarrow> service \<Rightarrow> plant_handler" where
  "serve_at cfg ev SControl = at_service pl_control (\<lambda>s w. w\<lparr>pl_control := s\<rparr>) FromControl (NewServer (pg_control cfg) (pe_control ev))"
| "serve_at cfg ev SOrchestrator = at_service pl_orchestrator (\<lambda>s w. w\<lparr>pl_orchestrator := s\<rparr>) FromOrchestrator
     (orc_NewServer (pg_orchestrator cfg) (pe_orchestrator ev) (Some (SimSink_Apply (ov_now (pe_orchestrator ev)))))"
| "serve_at cfg ev SHardware = at_service pl_hardware (\<lambda>s w. w\<lparr>pl_hardware := s\<rparr>) FromHardware
     (hw_NewServer (fst (pg_hardware cfg)) (fst (pe_hardware ev)) (snd (pe_hardware ev)) (snd (pg_hardware cfg)))"
| "serve_at cfg ev STopology = at_service pl_topology (\<lambda>s w. w\<lparr>pl_topology := s\<rparr>) FromTopology
     (topo_NewServer (pg_topology cfg) (pe_topology ev))"
| "serve_at cfg ev STelemetry = at_service pl_query (\<lambda>s w. w\<lparr>pl_query := s\<rparr>) FromQuery (query_NewServer (pg_query cfg) (pe_query ev))"

subsection \<open>The proxy\<close>

text \<open>A parsed upstream; its query, which the default upstreams do not have, is left out.\<close>

record upstream =
  us_Host :: string
  us_Path :: string

text \<open>\<open>httputil.NewSingleHostReverseProxy\<close> joins the paths with one slash.\<close>

definition singleJoiningSlash :: "string \<Rightarrow> string \<Rightarrow> string" where
  "singleJoiningSlash a b =
     (if a \<noteq> [] \<and> last a = CHR ''/'' \<and> has_prefix b ''/'' then a @ drop 1 b
      else if \<not> (a \<noteq> [] \<and> last a = CHR ''/'') \<and> \<not> has_prefix b ''/'' then a @ ''/'' @ b
      else a @ b)"

text \<open>The connection to an upstream: it works, it cannot be made, or the answer is lost after the request
  was served. The proxy answers 502 to the last two.\<close>

datatype link = LinkUp | LinkRefused | LinkLost

definition bad_gateway :: "'p response" where
  "bad_gateway = \<lparr>rs_status = 502, rs_headers = [], rs_body = NoBody\<rparr>"

definition proxy :: "upstream \<Rightarrow> link \<Rightarrow> ('s, 'p) handler \<Rightarrow> ('s, 'p) handler" where
  "proxy us ln backend rq w =
     (let rq' = rq\<lparr>rq_path := singleJoiningSlash (us_Path us) (rq_path rq)\<rparr>
      in case ln of
           LinkUp \<Rightarrow> backend rq' w
         | LinkRefused \<Rightarrow> (w, bad_gateway)
         | LinkLost \<Rightarrow> (fst (backend rq' w), bad_gateway))"

text \<open>\<open>'self'\<close> with its quotes.\<close>

definition self_source :: string where "self_source = quot @ ''self'' @ quot"

definition security_headers :: "(string \<times> string) list" where
  "security_headers =
     [(''Content-Security-Policy'', ''default-src '' @ self_source @ ''; img-src '' @ self_source @ '' data:; style-src '' @ self_source
        @ '' '' @ quot @ ''unsafe-inline'' @ quot @ ''; script-src '' @ self_source @ ''; connect-src '' @ self_source),
      (''X-Content-Type-Options'', ''nosniff''),
      (''X-Frame-Options'', ''DENY''),
      (''Referrer-Policy'', ''no-referrer'')]"

definition secureHeaders :: "('s, 'p) handler \<Rightarrow> ('s, 'p) handler" where
  "secureHeaders nxt rq w = (let (w', r) = nxt rq w in (w', r\<lparr>rs_headers := security_headers @ rs_headers r\<rparr>))"

subsection \<open>The mux and the command\<close>

definition prefix_service :: "string \<Rightarrow> service option" where
  "prefix_service p =
     (if has_prefix p ''/control/'' then Some SControl
      else if has_prefix p ''/hw/'' then Some SHardware
      else if has_prefix p ''/api/'' then Some STelemetry
      else if has_prefix p ''/topology/'' then Some STopology
      else if has_prefix p ''/orc/'' then Some SOrchestrator
      else None)"

text \<open>A prefix without its slash is redirected (the query of the location is left out); the rest is the
  file server, whose answers are an argument.\<close>

definition dash_mux :: "(request \<Rightarrow> 'p response) \<Rightarrow> (service \<Rightarrow> upstream) \<Rightarrow> (service \<Rightarrow> link) \<Rightarrow> (service \<Rightarrow> ('s, 'p) handler) \<Rightarrow> ('s, 'p) handler" where
  "dash_mux files ups links backends rq w =
     (case prefix_service (rq_path rq) of
        Some s \<Rightarrow> proxy (ups s) (links s) (backends s) rq w
      | None \<Rightarrow>
          if prefix_service (rq_path rq @ ''/'') \<noteq> None
          then (w, \<lparr>rs_status = 301, rs_headers = [(''Location'', rq_path rq @ ''/'')], rs_body = NoBody\<rparr>)
          else (w, files rq))"

definition dashboard :: "(request \<Rightarrow> 'p response) \<Rightarrow> (service \<Rightarrow> upstream) \<Rightarrow> (service \<Rightarrow> link) \<Rightarrow> (service \<Rightarrow> ('s, 'p) handler) \<Rightarrow> ('s, 'p) handler" where
  "dashboard files ups links backends = secureHeaders (dash_mux files ups links backends)"

definition defaultStatic :: string where "defaultStatic = ''static''"

fun default_target :: "(string \<Rightarrow> string) \<Rightarrow> service \<Rightarrow> string" where
  "default_target getenv SControl = envOr getenv ''CONTROL_ADDR'' ''http://localhost:8082''"
| "default_target getenv SHardware = envOr getenv ''HARDWARE_ADDR'' ''http://localhost:8083''"
| "default_target getenv STelemetry = envOr getenv ''TELEMETRY_ADDR'' ''http://localhost:8080''"
| "default_target getenv STopology = envOr getenv ''TOPOLOGY_ADDR'' ''http://localhost:8081''"
| "default_target getenv SOrchestrator = envOr getenv ''ORCHESTRATOR_ADDR'' ''http://localhost:8084''"

text \<open>The first target that \<open>url.Parse\<close> refuses ends the command.\<close>

fun parse_targets :: "(string \<Rightarrow> string) \<Rightarrow> (string \<Rightarrow> string + upstream) \<Rightarrow> (service \<Rightarrow> string) \<Rightarrow> service list \<Rightarrow> (service \<Rightarrow> upstream) \<Rightarrow>
    (service \<Rightarrow> upstream) run_end" where
  "parse_targets quote parse targets [] ups = Up ups"
| "parse_targets quote parse targets (s # ss) ups = (case parse (targets s) of
       Inl e \<Rightarrow> Fatal (''bad upstream '' @ quote (targets s) @ '': '' @ e)
     | Inr u \<Rightarrow> parse_targets quote parse targets ss (ups(s := u)))"

definition dashboard_main :: "(string \<Rightarrow> string) \<Rightarrow> (string \<Rightarrow> string + upstream) \<Rightarrow> (service \<Rightarrow> string) \<Rightarrow> (service \<Rightarrow> upstream) run_end" where
  "dashboard_main quote parse targets =
     parse_targets quote parse targets [SControl, SHardware, STelemetry, STopology, SOrchestrator] (\<lambda>s. \<lparr>us_Host = [], us_Path = []\<rparr>)"

subsection \<open>Routes\<close>

lemma has_prefix_split: "has_prefix p q \<longleftrightarrow> (\<exists>r. p = q @ r)"
  unfolding has_prefix_def by (metis append_take_drop_id append_eq_conv_conj)

lemma prefix_service_slash: "prefix_service p = Some s \<Longrightarrow> \<exists>r. p = CHR ''/'' # r"
  by (auto simp: prefix_service_def has_prefix_split split: if_splits)

lemma api_slashes: "prefix_service p = Some STelemetry \<Longrightarrow> 2 \<le> length (filter (\<lambda>c. c = CHR ''/'') p)"
  by (auto simp: prefix_service_def has_prefix_split split: if_splits)

text \<open>Every endpoint of every service but the health checks is behind the prefix of its service.\<close>

lemma endpoints_routed:
  "list_all (\<lambda>p. prefix_service p = Some SControl)
     [''/control/devices'', ''/control/state'', ''/control/override'', ''/control/reset'', ''/control/latch'', ''/control/audit'']"
  "list_all (\<lambda>p. prefix_service p = Some SHardware)
     [''/hw/grid'', ''/hw/power'', ''/hw/boot'', ''/hw/powercap'', ''/hw/throttle/resolve'', ''/hw/audit'']"
  "list_all (\<lambda>p. prefix_service p = Some STelemetry) [''/api/query'', ''/api/latest'', ''/api/timeseries'', ''/api/devices'']"
  "list_all (\<lambda>p. prefix_service p = Some STopology)
     [''/topology/node/'', ''/topology/cools'', ''/topology/feeds'', ''/topology/powers'', ''/topology/cooling'', ''/topology/graph'', ''/topology/upsert'']"
  "list_all (\<lambda>p. prefix_service p = Some SOrchestrator) [''/orc/submit'', ''/orc/policy'', ''/orc/audit'']"
  "prefix_service ''/health'' = None"
  by (simp_all add: prefix_service_def has_prefix_def)

lemma singleJoiningSlash_root: "has_prefix b ''/'' \<Longrightarrow> singleJoiningSlash [] b = b"
  by (simp add: singleJoiningSlash_def)

lemma singleJoiningSlash_suffix: "has_prefix b ''/'' \<Longrightarrow> \<exists>x. singleJoiningSlash a b = x @ b"
  by (cases a rule: rev_cases) (auto simp: singleJoiningSlash_def has_prefix_split)

lemma proxied_not_health: "prefix_service p = Some STelemetry \<Longrightarrow> singleJoiningSlash a p \<noteq> ''/health''"
proof
  assume p: "prefix_service p = Some STelemetry" and eq: "singleJoiningSlash a p = ''/health''"
  have "has_prefix p ''/''"
    using prefix_service_slash [OF p] by (auto simp: has_prefix_split)
  then obtain x where "x @ p = ''/health''"
    using singleJoiningSlash_suffix [of p a] eq by auto
  then have "length (filter (\<lambda>c. c = CHR ''/'') (x @ p)) = 1"
    by simp
  with api_slashes [OF p] show False
    by simp
qed

subsection \<open>Without the tokens\<close>

definition cfg_tokens :: "plant_cfg \<Rightarrow> string list" where
  "cfg_tokens cfg = [authToken (pg_control cfg), os_authToken (pg_orchestrator cfg), hw_authToken (fst (pg_hardware cfg)),
     pg_topology cfg, pg_query cfg]"

definition no_token :: "plant_cfg \<Rightarrow> request \<Rightarrow> bool" where
  "no_token cfg rq \<longleftrightarrow> list_all (\<lambda>t. t \<noteq> [] \<and> trim_prefix (rq_auth rq) ''Bearer '' \<noteq> t) (cfg_tokens cfg)"

lemma no_token_path [simp]: "no_token cfg (rq\<lparr>rq_path := p\<rparr>) = no_token cfg rq"
  by (simp add: no_token_def)

lemma no_token_unauthorized:
  "no_token cfg rq \<Longrightarrow> t \<in> set (cfg_tokens cfg) \<Longrightarrow> \<not> authorized t rq"
  by (auto simp: no_token_def authorized_def list_all_iff)

lemma at_service_frame: "fst (h rq (get w)) = get w \<Longrightarrow> put (get w) w = w \<Longrightarrow> fst (at_service get put wrap h rq w) = w"
  by (simp add: at_service_def split_beta Let_def)

lemma serve_at_frame:
  assumes "no_token cfg rq" and "s \<noteq> STelemetry \<or> rq_path rq \<noteq> ''/health''"
  shows "fst (serve_at cfg ev s rq w) = w"
proof -
  have un: "\<not> authorized (authToken (pg_control cfg)) rq" "\<not> authorized (os_authToken (pg_orchestrator cfg)) rq"
    "\<not> authorized (hw_authToken (fst (pg_hardware cfg))) rq" "\<not> authorized (pg_topology cfg) rq" "\<not> authorized (pg_query cfg) rq"
    using no_token_unauthorized [OF assms(1)] by (simp_all add: cfg_tokens_def)
  show ?thesis
  proof (cases s)
    case SControl
    show ?thesis
      unfolding SControl serve_at.simps using ctl_http.unauthorized_no_effect [OF un(1)] by (intro at_service_frame) simp_all
  next
    case SOrchestrator
    show ?thesis
      unfolding SOrchestrator serve_at.simps using orc_http.unauthorized_no_effect [OF un(2)] by (intro at_service_frame) simp_all
  next
    case SHardware
    show ?thesis
      unfolding SHardware serve_at.simps using hw_http.unauthorized_no_effect [OF un(3)] by (intro at_service_frame) simp_all
  next
    case STopology
    show ?thesis
      unfolding STopology serve_at.simps using topo_http.unauthorized_no_effect [OF un(4)] by (intro at_service_frame) simp_all
  next
    case STelemetry
    then have "rq_path rq \<noteq> ''/health''"
      using assms(2) by simp
    then show ?thesis
      unfolding STelemetry serve_at.simps using query_http.unauthorized_elsewhere_no_effect [OF un(5)]
      by (intro at_service_frame) simp_all
  qed
qed

lemma dashboard_frame:
  assumes "no_token cfg rq"
  shows "fst (dashboard files ups links (serve_at cfg ev) rq w) = w"
proof (cases "prefix_service (rq_path rq)")
  case None
  then show ?thesis
    by (simp add: dashboard_def secureHeaders_def dash_mux_def Let_def)
next
  case (Some s)
  let ?rq = "rq\<lparr>rq_path := singleJoiningSlash (us_Path (ups s)) (rq_path rq)\<rparr>"
  have "s \<noteq> STelemetry \<or> rq_path ?rq \<noteq> ''/health''"
    using proxied_not_health Some by auto
  then have "fst (serve_at cfg ev s ?rq w) = w"
    using assms by (intro serve_at_frame) simp_all
  then show ?thesis
    using Some by (simp add: dashboard_def secureHeaders_def dash_mux_def proxy_def split_beta Let_def split: link.split)
qed

text \<open>Over a working link to an upstream without a path the dashboard is transparent: the effect, status
  and body are those of the same request to the service itself; only the hardening headers are new.\<close>

lemma dashboard_transparent:
  assumes "prefix_service (rq_path rq) = Some s" "links s = LinkUp" "us_Path (ups s) = []"
  shows "dashboard files ups links backends rq w =
    (fst (backends s rq w), (snd (backends s rq w))\<lparr>rs_headers := security_headers @ rs_headers (snd (backends s rq w))\<rparr>)"
proof -
  have "has_prefix (rq_path rq) ''/''"
    using prefix_service_slash [OF assms(1)] by (auto simp: has_prefix_split)
  then show ?thesis
    using assms by (simp add: dashboard_def secureHeaders_def dash_mux_def proxy_def singleJoiningSlash_root split_beta Let_def)
qed

end
