(* ===== verification/Pipeline_Shutdown.thy ===== *)
theory Pipeline_Shutdown
  imports Pipeline
begin

text \<open>
  The end of \<open>Run\<close> in pipeline.go. A step makes progress unless it begins a new poll or only touches
  the counters. Every step of progress lowers a weight of the state, so between two polls a run is
  finite; and once the pipeline is cancelled a state without progress is one in which \<open>Run\<close>
  has returned. So the shutdown cannot deadlock, and it ends unless sources go on polling for ever.
\<close>

subsection \<open>Progress and its measure\<close>

definition new_poll :: "pipe \<Rightarrow> pipe \<Rightarrow> bool" where
  "new_poll s s' \<longleftrightarrow> (\<exists>i pts. i < length (p_sources s) \<and> p_sources s ! i = SIdle \<and> p_sources s' = (p_sources s)[i := SSending pts])"

definition only_counts :: "pipe \<Rightarrow> pipe \<Rightarrow> bool" where
  "only_counts s s' \<longleftrightarrow> s' = s\<lparr>p_reg := p_reg s'\<rparr>"

definition progress :: "config \<Rightarrow> pipe \<Rightarrow> pipe \<Rightarrow> bool" where
  "progress cfg s s' \<longleftrightarrow> pipe_step cfg s s' \<and> \<not> new_poll s s' \<and> \<not> only_counts s s'"

fun source_weight :: "source_state \<Rightarrow> nat" where
  "source_weight SIdle = 1"
| "source_weight (SSending pts) = 2 + 4 * length pts"
| "source_weight SStopped = 0"

fun worker_weight :: "worker_state \<Rightarrow> nat" where
  "worker_weight (WRun b) = 2 + 2 * length b"
| "worker_weight (WFlush b stop) = (if stop then 1 else 3)"
| "worker_weight WStopped = 0"

definition run_weight :: "pipe \<Rightarrow> nat" where
  "run_weight s = sum_list (map source_weight (p_sources s)) + 3 * length (p_bus s) + sum_list (map worker_weight (p_workers s))
     + (if p_done s then 0 else 1) + (if p_closed s then 0 else 1) + (if p_returned s then 0 else 1)"

lemma sum_list_update_nat:
  "i < length xs \<Longrightarrow> sum_list (map f (xs[i := x])) + f (xs ! i) = sum_list (map f xs) + (f x :: nat)"
proof (induction xs arbitrary: i)
  case (Cons y ys)
  then show ?case
    by (cases i) auto
qed simp

lemma worker_weight_next:
  "worker_weight (after_flush stop) < worker_weight (WFlush b stop)"
  "worker_weight (stopping b) < worker_weight (WRun b)"
  "b \<noteq> [] \<Longrightarrow> worker_weight (timed_out b) < worker_weight (WRun b)"
  "worker_weight (received cfg (b @ [pt])) \<le> worker_weight (WRun b) + 2"
  by (cases b; simp add: after_flush_def stopping_def timed_out_def received_def)+

lemma source_step_weight:
  assumes "i < length (p_sources s)" "source_weight x < source_weight (p_sources s ! i)"
  shows "sum_list (map source_weight ((p_sources s)[i := x])) < sum_list (map source_weight (p_sources s))"
  using assms sum_list_update_nat [of i "p_sources s" source_weight x] by linarith

lemma worker_step_weight:
  assumes "j < length (p_workers s)" "worker_weight w < worker_weight (p_workers s ! j)"
  shows "sum_list (map worker_weight ((p_workers s)[j := w])) < sum_list (map worker_weight (p_workers s))"
  using assms sum_list_update_nat [of j "p_workers s" worker_weight w] by linarith

lemma progress_weight:
  assumes "progress cfg s s'"
  shows "run_weight s' < run_weight s"
proof -
  from assms have step: "pipe_step cfg s s'" and np: "\<not> new_poll s s'" "\<not> only_counts s s'"
    by (simp_all add: progress_def)
  from step show ?thesis
  proof cases
    case (poll i pts name)
    then show ?thesis
      using np(1) by (auto simp: new_poll_def)
  next
    case (poll_error i)
    then show ?thesis
      using np(2) by (simp add: only_counts_def)
  next
    case (send i pt pts)
    then show ?thesis
      using sum_list_update_nat [of i "p_sources s" source_weight "SSending pts"] by (simp add: run_weight_def)
  next
    case (sent_all i)
    then show ?thesis
      using source_step_weight [of i s SIdle] by (simp add: run_weight_def)
  next
    case (source_stop i pt pts)
    then have "source_weight SStopped < source_weight (p_sources s ! i)"
      by auto
    then show ?thesis
      using source_stop source_step_weight [of i s SStopped] by (simp add: run_weight_def)
  next
    case (recv j b pt rest)
    then show ?thesis
      using sum_list_update_nat [of j "p_workers s" worker_weight "received cfg (b @ [pt])"] worker_weight_next(4) [of cfg b pt]
      by (simp add: run_weight_def del: worker_weight.simps(2))
  next
    case (recv_closed j b)
    then show ?thesis
      using worker_step_weight [of j s "stopping b"] worker_weight_next(2) [of b] by (simp add: run_weight_def)
  next
    case (timeout j b)
    have "b \<noteq> []"
    proof
      assume "b = []"
      then have "(p_workers s)[j := timed_out b] = p_workers s"
        using timeout(3) by (metis list_update_id timed_out_def)
      then show False
        using np(2) timeout(1) by (simp add: only_counts_def)
    qed
    then show ?thesis
      using timeout worker_step_weight [of j s "timed_out b"] worker_weight_next(3) [of b] by (simp add: run_weight_def)
  next
    case (worker_done j b)
    then show ?thesis
      using worker_step_weight [of j s "stopping b"] worker_weight_next(2) [of b] by (simp add: run_weight_def)
  next
    case (wrote j b stop)
    then show ?thesis
      using worker_step_weight [of j s "after_flush stop"] worker_weight_next(1) [of stop b] by (simp add: run_weight_def)
  next
    case (write_failed j b stop e now)
    then show ?thesis
      using worker_step_weight [of j s "after_flush stop"] worker_weight_next(1) [of stop b] by (simp add: run_weight_def)
  next
    case Stop
    then have "\<not> p_done s"
      using np(2) by (auto simp: only_counts_def)
    then show ?thesis
      using Stop by (simp add: run_weight_def)
  next
    case close_bus
    then show ?thesis
      by (simp add: run_weight_def)
  next
    case return
    then have "\<not> p_returned s"
      using np(2) by (auto simp: only_counts_def)
    then show ?thesis
      using return by (simp add: run_weight_def)
  qed
qed

lemma progress_wf: "wfp (\<lambda>s' s. progress cfg s s')"
  by (rule wfp_if_convertible_to_nat [of _ run_weight]) (rule progress_weight)

lemma progress_bounded: "(progress cfg ^^ n) s s' \<Longrightarrow> n + run_weight s' \<le> run_weight s"
proof (induction n arbitrary: s')
  case 0
  then show ?case by simp
next
  case (Suc n)
  then obtain t where "(progress cfg ^^ n) s t" "progress cfg t s'"
    by auto
  then show ?case
    using Suc.IH [of t] progress_weight [of cfg t s'] by linarith
qed

subsection \<open>No deadlock\<close>

lemma only_counts_sel:
  assumes "only_counts s s'"
  shows "p_sources s' = p_sources s" "p_workers s' = p_workers s" "p_closed s' = p_closed s" "p_returned s' = p_returned s"
proof -
  have "s' = s\<lparr>p_reg := p_reg s'\<rparr>"
    using assms by (simp add: only_counts_def)
  then obtain r where "s' = s\<lparr>p_reg := r\<rparr>" ..
  then show "p_sources s' = p_sources s" "p_workers s' = p_workers s" "p_closed s' = p_closed s" "p_returned s' = p_returned s"
    by simp_all
qed

lemma progressI:
  assumes "pipe_step cfg s s'" "p_sources s' = p_sources s"
    and "p_workers s' \<noteq> p_workers s \<or> p_closed s' \<noteq> p_closed s \<or> p_returned s' \<noteq> p_returned s"
  shows "progress cfg s s'"
proof -
  have "\<not> new_poll s s'"
    using assms(2) unfolding new_poll_def by (metis nth_list_update_eq source_state.distinct(1))
  then show ?thesis
    using assms only_counts_sel by (auto simp: progress_def)
qed

lemma stop_not_poll:
  assumes "i < length xs" "x \<noteq> xs ! i" "\<And>pts. x \<noteq> SSending pts"
  shows "\<not> (\<exists>j pts. j < length xs \<and> xs ! j = SIdle \<and> xs[i := x] = xs[j := SSending pts])"
proof
  assume "\<exists>j pts. j < length xs \<and> xs ! j = SIdle \<and> xs[i := x] = xs[j := SSending pts]"
  then obtain j pts where "j < length xs" "xs[i := x] = xs[j := SSending pts]"
    by blast
  then show False
    using assms by (metis nth_list_update_eq nth_list_update_neq)
qed

lemma source_progress:
  assumes "p_done s" "i < length (p_sources s)" "p_sources s ! i \<noteq> SStopped"
  shows "\<exists>s'. progress cfg s s'"
proof -
  have changes: "progress cfg s (s\<lparr>p_sources := (p_sources s)[i := x]\<rparr>)"
    if "pipe_step cfg s (s\<lparr>p_sources := (p_sources s)[i := x]\<rparr>)" "x \<noteq> p_sources s ! i" "\<And>pts. x \<noteq> SSending pts" for x
  proof -
    have "(p_sources s)[i := x] \<noteq> p_sources s"
      using assms(2) that(2) by (metis nth_list_update_eq)
    then have "\<not> only_counts s (s\<lparr>p_sources := (p_sources s)[i := x]\<rparr>)"
      using only_counts_sel(1) by fastforce
    then show ?thesis
      using that(1) stop_not_poll [OF assms(2) that(2,3)] by (simp add: progress_def new_poll_def)
  qed
  consider "p_sources s ! i = SIdle" | "p_sources s ! i = SSending []" | pt pts where "p_sources s ! i = SSending (pt # pts)"
    using assms(3) by (metis neq_Nil_conv source_state.exhaust)
  then show ?thesis
  proof cases
    case 1
    then show ?thesis
      using changes [of SStopped] source_stop [OF assms(2,1)] by auto
  next
    case 2
    then show ?thesis
      using changes [of SIdle] sent_all [OF assms(2)] by auto
  next
    case 3
    then show ?thesis
      using changes [of SStopped] source_stop [OF assms(2,1)] by auto
  qed
qed

lemma worker_progress:
  assumes "p_done s" "j < length (p_workers s)" "p_workers s ! j \<noteq> WStopped"
  shows "\<exists>s'. progress cfg s s'"
proof -
  have changes: "(p_workers s)[j := w] \<noteq> p_workers s" if "w \<noteq> p_workers s ! j" for w
    using assms(2) that by (metis nth_list_update_eq)
  consider b where "p_workers s ! j = WRun b" | b stop where "p_workers s ! j = WFlush b stop"
    using assms(3) by (metis worker_state.exhaust)
  then show ?thesis
  proof cases
    case 1
    then have "stopping b \<noteq> p_workers s ! j"
      by (simp add: stopping_def)
    then have "progress cfg s (s\<lparr>p_workers := (p_workers s)[j := stopping b]\<rparr>)"
      by (intro progressI worker_done [OF assms(2) 1 assms(1)]) (simp_all add: changes)
    then show ?thesis ..
  next
    case 2
    then have "after_flush stop \<noteq> p_workers s ! j"
      by (simp add: after_flush_def)
    then have "progress cfg s ((flush_ok b s)\<lparr>p_workers := (p_workers s)[j := after_flush stop]\<rparr>)"
      by (intro progressI wrote [OF assms(2) 2]) (simp_all add: changes)
    then show ?thesis ..
  qed
qed

lemma not_all_at: "\<not> list_all (\<lambda>x. x = c) xs \<Longrightarrow> \<exists>i<length xs. xs ! i \<noteq> c"
  by (auto simp: list_all_length)

lemma shutdown_progress:
  assumes "p_done s" "\<not> p_returned s"
  shows "\<exists>s'. progress cfg s s'"
proof (cases "list_all (\<lambda>x. x = SStopped) (p_sources s)")
  case False
  then show ?thesis
    using not_all_at [OF False] by (auto intro: source_progress [OF assms(1)])
next
  case sources: True
  show ?thesis
  proof (cases "list_all (\<lambda>w. w = WStopped) (p_workers s)")
    case False
    then show ?thesis
      using not_all_at [OF False] by (auto intro: worker_progress [OF assms(1)])
  next
    case workers: True
    show ?thesis
    proof (cases "p_closed s")
      case True
      then have "progress cfg s (s\<lparr>p_returned := True\<rparr>)"
        by (intro progressI return [OF _ workers]) (simp_all add: assms(2))
      then show ?thesis ..
    next
      case False
      then have "progress cfg s (s\<lparr>p_closed := True\<rparr>)"
        by (intro progressI close_bus [OF assms(1) _ sources]) simp_all
      then show ?thesis ..
    qed
  qed
qed

lemma progress_done: "progress cfg s s' \<Longrightarrow> p_done s \<Longrightarrow> p_done s'"
  by (auto simp: progress_def elim!: pipe_stepE)

lemma shutdown_run: "p_done s \<Longrightarrow> \<exists>n s'. (progress cfg ^^ n) s s' \<and> p_returned s'"
proof (induction "run_weight s" arbitrary: s rule: less_induct)
  case less
  show ?case
  proof (cases "p_returned s")
    case True
    then show ?thesis
      by (intro exI [of _ 0] exI [of _ s]) simp
  next
    case False
    then obtain t where t: "progress cfg s t"
      using shutdown_progress less.prems by blast
    then obtain n s' where n: "(progress cfg ^^ n) t s'" "p_returned s'"
      using less.hyps [OF progress_weight [OF t]] progress_done [OF t less.prems] by blast
    have "(progress cfg ^^ Suc n) s s'"
      using t n(1) by (rule relpowp_Suc_I2 [where P = "progress cfg"])
    then show ?thesis
      using n(2) by blast
  qed
qed

subsection \<open>Property\<close>

text \<open>C16. The shutdown ends: in a cancelled pipeline no run of progress is longer than the weight of the state
  (at most a small multiple of the points, sources and workers in flight), some such run makes \<open>Run\<close>
  return, and a run that can make no more progress has returned: no source, worker or lock is left
  waiting, whatever the sink answers and however the steps interleave.\<close>

theorem shutdown_terminates:
  assumes "p_done s"
  shows "(\<forall>n s'. (progress cfg ^^ n) s s' \<longrightarrow> n \<le> run_weight s \<and> (p_returned s' \<or> (\<exists>s''. progress cfg s' s'')))
    \<and> (\<exists>n s'. n \<le> run_weight s \<and> (progress cfg ^^ n) s s' \<and> p_returned s')"
proof -
  have "n \<le> run_weight s \<and> (p_returned s' \<or> (\<exists>s''. progress cfg s' s''))" if run: "(progress cfg ^^ n) s s'" for n s'
  proof -
    have "p_done s'"
      using run
    proof (induction n arbitrary: s')
      case 0
      then show ?case using assms by simp
    next
      case (Suc n)
      then show ?case using progress_done by auto
    qed
    then show ?thesis
      using progress_bounded [OF run] shutdown_progress by auto
  qed
  then show ?thesis
    using shutdown_run [OF assms, of cfg] by blast
qed

theorem shutdown_terminates_witness:
  "\<exists>n s'. n \<le> 10 \<and> (progress small_cfg ^^ n) ((pipe_start small_cfg 2 None)\<lparr>p_done := True, p_bus := [a_point]\<rparr>) s' \<and> p_returned s'"
proof -
  let ?s = "(pipe_start small_cfg 2 None)\<lparr>p_done := True, p_bus := [a_point]\<rparr>"
  have "run_weight ?s \<le> 10" "p_done ?s"
    by (simp_all add: run_weight_def pipe_start_def small_cfg_def eval_nat_numeral)
  then show ?thesis
    using shutdown_terminates [of ?s small_cfg] by (meson order_trans)
qed

end
