(* ===== verification/Service_Run.thy ===== *)
theory Service_Run
  imports Go_Http "HOL-Library.Multiset"
begin

text \<open>
  From listening to exit: what every service command does once it serves (the goroutine of \<open>Start\<close>,
  the wait for a signal or a server error, \<open>Shutdown\<close> with its deadline), and what net/http
  does with the requests meanwhile. The steps interleave; a handler's critical section is one step.
  The locale \<open>kept_by_service\<close> carries an invariant of the handlers and of the command's background
  loop to every state of a run.
\<close>

datatype listener = LStarting | LServing | LClosed

datatype main_phase = MServing | MDraining | MStopped

record ('s, 'p) running =
  ru_state :: 's
  ru_listener :: listener
  ru_starting :: bool
  ru_done :: bool
  ru_main :: main_phase
  ru_accepted :: "request list"
  ru_inflight :: "request list"
  ru_answers :: "(request \<times> 'p response) list"
  ru_log :: "string list"

definition service_start :: "'s \<Rightarrow> ('s, 'p) running" where
  "service_start s = \<lparr>ru_state = s, ru_listener = LStarting, ru_starting = True, ru_done = False, ru_main = MServing,
     ru_accepted = [], ru_inflight = [], ru_answers = [], ru_log = []\<rparr>"

definition remove_at :: "nat \<Rightarrow> 'a list \<Rightarrow> 'a list" where
  "remove_at i xs = take i xs @ drop (Suc i) xs"

text \<open>What the goroutine logs when \<open>Start\<close> returns because of \<open>Shutdown\<close>: the dashboard alone is silent.\<close>

definition closed_log :: "string \<Rightarrow> bool \<Rightarrow> string list" where
  "closed_log tag quiet = (if quiet then [] else [tag @ '' server error: http: Server closed''])"

text \<open>What is logged when \<open>Shutdown\<close> misses its deadline, which the dashboard ignores.\<close>

definition deadline_msg :: "string \<Rightarrow> string" where
  "deadline_msg tag = tag @ '' shutdown error: context deadline exceeded''"

definition late_log :: "string \<Rightarrow> bool \<Rightarrow> string list" where
  "late_log tag quiet = (if quiet then [] else [deadline_msg tag])"

text \<open>
  The handler chain takes its world as first argument; the background relation is the command's own
  loop. \<open>ru_starting\<close> says that the goroutine of \<open>Start\<close> runs, \<open>ru_done\<close> that the context is done.
\<close>

inductive service_step :: "string \<Rightarrow> bool \<Rightarrow> ('e \<Rightarrow> ('s, 'p) handler) \<Rightarrow> ('s \<Rightarrow> 's \<Rightarrow> bool) \<Rightarrow> ('s, 'p) running \<Rightarrow> ('s, 'p) running \<Rightarrow> bool"
  for tag :: string and quiet :: bool and h :: "'e \<Rightarrow> ('s, 'p) handler" and bg :: "'s \<Rightarrow> 's \<Rightarrow> bool" where
  bind: "ru_main r \<noteq> MStopped \<Longrightarrow> ru_listener r = LStarting \<Longrightarrow> service_step tag quiet h bg r (r\<lparr>ru_listener := LServing\<rparr>)"
| accept: "ru_main r \<noteq> MStopped \<Longrightarrow> ru_listener r = LServing \<Longrightarrow>
    service_step tag quiet h bg r (r\<lparr>ru_accepted := ru_accepted r @ [rq], ru_inflight := ru_inflight r @ [rq]\<rparr>)"
| answer: "ru_main r \<noteq> MStopped \<Longrightarrow> i < length (ru_inflight r) \<Longrightarrow> h ev (ru_inflight r ! i) (ru_state r) = (s', rs) \<Longrightarrow>
    service_step tag quiet h bg r (r\<lparr>ru_state := s', ru_answers := ru_answers r @ [(ru_inflight r ! i, rs)],
      ru_inflight := remove_at i (ru_inflight r)\<rparr>)"
| background: "ru_main r \<noteq> MStopped \<Longrightarrow> bg (ru_state r) s' \<Longrightarrow> service_step tag quiet h bg r (r\<lparr>ru_state := s'\<rparr>)"
| signalled: "ru_main r \<noteq> MStopped \<Longrightarrow> service_step tag quiet h bg r (r\<lparr>ru_done := True\<rparr>)"
| serve_failed: "ru_main r \<noteq> MStopped \<Longrightarrow> ru_starting r \<Longrightarrow> ru_listener r \<noteq> LClosed \<Longrightarrow>
    service_step tag quiet h bg r (r\<lparr>ru_starting := False, ru_listener := LClosed, ru_done := True,
      ru_log := ru_log r @ [tag @ '' server error: '' @ err]\<rparr>)"
| serve_closed: "ru_main r \<noteq> MStopped \<Longrightarrow> ru_starting r \<Longrightarrow> ru_listener r = LClosed \<Longrightarrow>
    service_step tag quiet h bg r (r\<lparr>ru_starting := False, ru_done := True, ru_log := ru_log r @ closed_log tag quiet\<rparr>)"
| shutdown: "ru_main r = MServing \<Longrightarrow> ru_done r \<Longrightarrow>
    service_step tag quiet h bg r (r\<lparr>ru_listener := LClosed, ru_main := MDraining\<rparr>)"
| drained: "ru_main r = MDraining \<Longrightarrow> ru_inflight r = [] \<Longrightarrow>
    service_step tag quiet h bg r (r\<lparr>ru_main := MStopped, ru_log := ru_log r @ [tag @ '' stopped'']\<rparr>)"
| deadline: "ru_main r = MDraining \<Longrightarrow>
    service_step tag quiet h bg r (r\<lparr>ru_main := MStopped,
      ru_log := ru_log r @ late_log tag quiet @ [tag @ '' stopped'']\<rparr>)"

inductive_cases service_stepE: "service_step tag quiet h bg r r'"

abbreviation service_reach :: "string \<Rightarrow> bool \<Rightarrow> ('e \<Rightarrow> ('s, 'p) handler) \<Rightarrow> ('s \<Rightarrow> 's \<Rightarrow> bool) \<Rightarrow> ('s, 'p) running \<Rightarrow> ('s, 'p) running \<Rightarrow> bool" where
  "service_reach tag quiet h bg \<equiv> (service_step tag quiet h bg)\<^sup>*\<^sup>*"

subsection \<open>Invariants of the services\<close>

locale kept_by_service =
  fixes h :: "'e \<Rightarrow> request \<Rightarrow> 's \<Rightarrow> 's \<times> 'p response"
    and bg :: "'s \<Rightarrow> 's \<Rightarrow> bool"
    and inv :: "'s \<Rightarrow> bool"
  assumes handler_keeps: "inv s \<Longrightarrow> inv (fst (h ev rq s))"
    and background_keeps: "inv s \<Longrightarrow> bg s s' \<Longrightarrow> inv s'"
begin

lemma step_keeps: "service_step tag quiet h bg r r' \<Longrightarrow> inv (ru_state r) \<Longrightarrow> inv (ru_state r')"
proof (erule service_stepE)
  fix i ev s' rs
  assume "inv (ru_state r)" "h ev (ru_inflight r ! i) (ru_state r) = (s', rs)"
    "r' = r\<lparr>ru_state := s', ru_answers := ru_answers r @ [(ru_inflight r ! i, rs)], ru_inflight := remove_at i (ru_inflight r)\<rparr>"
  then show "inv (ru_state r')"
    using handler_keeps [of "ru_state r" ev "ru_inflight r ! i"] by simp
qed (auto intro: background_keeps)

lemma reach_keeps: "service_reach tag quiet h bg r r' \<Longrightarrow> inv (ru_state r) \<Longrightarrow> inv (ru_state r')"
  by (induction rule: rtranclp_induct) (auto intro: step_keeps)

lemma run_keeps: "service_reach tag quiet h bg (service_start s) r \<Longrightarrow> inv s \<Longrightarrow> inv (ru_state r)"
  using reach_keeps by (fastforce simp: service_start_def)

end

subsection \<open>Requests and the shutdown\<close>

definition accounted :: "('s, 'p) running \<Rightarrow> bool" where
  "accounted r \<longleftrightarrow> mset (ru_accepted r) = mset (ru_inflight r) + mset (map fst (ru_answers r))"

definition orderly :: "string \<Rightarrow> bool \<Rightarrow> ('s, 'p) running \<Rightarrow> bool" where
  "orderly tag quiet r \<longleftrightarrow> (ru_main r = MServing \<or> ru_listener r = LClosed) \<and> (ru_listener r \<noteq> LClosed \<or> ru_done r)
     \<and> (ru_main r \<noteq> MStopped \<or> ru_inflight r = [] \<or> quiet \<or> deadline_msg tag \<in> set (ru_log r))"

lemma mset_remove_at: "i < length xs \<Longrightarrow> add_mset (xs ! i) (mset (remove_at i xs)) = mset xs"
  using id_take_nth_drop [of i xs] unfolding remove_at_def
  by (metis mset_append mset.simps(2) union_mset_add_mset_right)

lemma length_remove_at: "i < length xs \<Longrightarrow> Suc (length (remove_at i xs)) = length xs"
  by (simp add: remove_at_def)

lemma step_accounted: "service_step tag quiet h bg r r' \<Longrightarrow> accounted r \<Longrightarrow> accounted r'"
proof (erule service_stepE)
  fix i ev s' rs
  assume "accounted r" "i < length (ru_inflight r)"
    "r' = r\<lparr>ru_state := s', ru_answers := ru_answers r @ [(ru_inflight r ! i, rs)], ru_inflight := remove_at i (ru_inflight r)\<rparr>"
  then show "accounted r'"
    using mset_remove_at [of i "ru_inflight r"] by (simp add: accounted_def)
qed (simp_all add: accounted_def)

lemma step_orderly: "service_step tag quiet h bg r r' \<Longrightarrow> orderly tag quiet r \<Longrightarrow> orderly tag quiet r'"
  by (erule service_stepE) (auto simp: orderly_def late_log_def)

lemma reach_shutdown:
  "service_reach tag quiet h bg (service_start s) r \<Longrightarrow> accounted r \<and> orderly tag quiet r"
proof (induction rule: rtranclp_induct)
  case base
  show ?case
    by (simp add: accounted_def orderly_def service_start_def)
next
  case (step r1 r2)
  then show ?case
    using step_accounted step_orderly by blast
qed

text \<open>What is left to do once the listener is closed.\<close>

definition closing_weight :: "('s, 'p) running \<Rightarrow> nat" where
  "closing_weight r = length (ru_inflight r) + (if ru_starting r then 1 else 0)
     + (case ru_main r of MServing \<Rightarrow> 2 | MDraining \<Rightarrow> 1 | MStopped \<Rightarrow> 0)"

definition only_background :: "('s, 'p) running \<Rightarrow> ('s, 'p) running \<Rightarrow> bool" where
  "only_background r r' \<longleftrightarrow> (\<exists>s'. r' = r\<lparr>ru_state := s'\<rparr>)"

lemma same_state: "ru_done r \<Longrightarrow> only_background r (r\<lparr>ru_done := True\<rparr>)"
  by (auto simp: only_background_def intro: exI [of _ "ru_state r"])

lemma closed_step:
  assumes "ru_listener r = LClosed" "orderly tag quiet r" "service_step tag quiet h bg r r'"
  shows "ru_listener r' = LClosed \<and> ru_accepted r' = ru_accepted r \<and> (only_background r r' \<or> closing_weight r' < closing_weight r)"
  using assms(3)
proof cases
  case (answer i ev s' rs)
  then show ?thesis
    using assms(1) length_remove_at [of i "ru_inflight r"] by (simp add: closing_weight_def)
next
  case (background s')
  then show ?thesis
    using assms(1) by (auto simp: only_background_def)
next
  case signalled
  then show ?thesis
    using assms(1,2) same_state [of r] by (simp add: orderly_def)
qed (use assms(1) in \<open>simp_all add: closing_weight_def\<close>)

lemma main_moves:
  "ru_done r \<Longrightarrow> ru_main r = MServing \<Longrightarrow> \<exists>r'. service_step tag quiet h bg r r' \<and> ru_done r' \<and> ru_main r' = MDraining"
  "ru_main r = MDraining \<Longrightarrow> \<exists>r'. service_step tag quiet h bg r r' \<and> ru_main r' = MStopped"
  using shutdown [of r tag quiet h bg] deadline [of r tag quiet h bg] by force+

lemma main_stops:
  assumes "ru_done r"
  shows "\<exists>r'. service_reach tag quiet h bg r r' \<and> ru_main r' = MStopped"
proof (cases "ru_main r")
  case MServing
  then obtain r1 where r1: "service_step tag quiet h bg r r1" "ru_main r1 = MDraining"
    using main_moves(1) assms by blast
  then obtain r2 where "service_step tag quiet h bg r1 r2" "ru_main r2 = MStopped"
    using main_moves(2) by blast
  then show ?thesis
    using r1(1) by (meson r_into_rtranclp rtranclp.rtrancl_into_rtrancl)
next
  case MDraining
  then show ?thesis
    using main_moves(2) by blast
qed auto

lemma stopped_final: "ru_main r = MStopped \<Longrightarrow> \<not> service_step tag quiet h bg r r'"
  by (auto elim: service_stepE)

text \<open>A shutdown on a signal with nothing in flight, step by step; all commands but the dashboard log the
  closed server as an error.\<close>

lemma normal_shutdown:
  "\<exists>r. service_reach tag quiet h bg (service_start s) r \<and> ru_main r = MStopped \<and> ru_inflight r = []
     \<and> ru_log r = closed_log tag quiet @ [tag @ '' stopped'']"
proof -
  let ?step = "service_step tag quiet h bg"
  let ?r1 = "(service_start s)\<lparr>ru_listener := LServing\<rparr>"
  let ?r2 = "?r1\<lparr>ru_done := True\<rparr>"
  let ?r3 = "?r2\<lparr>ru_listener := LClosed, ru_main := MDraining\<rparr>"
  let ?r4 = "?r3\<lparr>ru_starting := False, ru_done := True, ru_log := closed_log tag quiet\<rparr>"
  let ?r5 = "?r4\<lparr>ru_main := MStopped, ru_log := closed_log tag quiet @ [tag @ '' stopped'']\<rparr>"
  have "?step (service_start s) ?r1"
    by (rule bind) (simp_all add: service_start_def)
  moreover have "?step ?r1 ?r2"
    by (rule signalled) (simp add: service_start_def)
  moreover have "?step ?r2 ?r3"
    using shutdown [of ?r2 tag quiet h bg] by (simp add: service_start_def)
  moreover have "?step ?r3 ?r4"
    using serve_closed [of ?r3 tag quiet h bg] by (simp add: service_start_def)
  moreover have "?step ?r4 ?r5"
    using drained [of ?r4 tag quiet h bg] by (simp add: service_start_def)
  ultimately have "service_reach tag quiet h bg (service_start s) ?r5"
    by (meson r_into_rtranclp rtranclp.rtrancl_into_rtrancl)
  then show ?thesis
    by (intro exI [of _ ?r5]) (simp add: service_start_def)
qed

subsection \<open>Property\<close>

text \<open>C15. A service shuts down gracefully: in every state of its run each accepted request is either in flight
  or has been answered exactly once. Once the listener is closed, by a failure or by \<open>Shutdown\<close>, no
  request is accepted any more and every step but those of the background loop lowers the number of
  things left to do. When the context is done the command can always stop; a stopped command
  does nothing more, and it leaves requests in flight only past the deadline, which every command
  but the dashboard reports.\<close>

theorem graceful_shutdown:
  assumes "service_reach tag quiet h bg (service_start s) r"
  shows "mset (ru_accepted r) = mset (ru_inflight r) + mset (map fst (ru_answers r))
    \<and> (if ru_listener r = LClosed
       then (\<forall>r'. service_step tag quiet h bg r r' \<longrightarrow> ru_listener r' = LClosed \<and> ru_accepted r' = ru_accepted r
          \<and> (only_background r r' \<or> closing_weight r' < closing_weight r)) else True)
    \<and> (if ru_done r then \<exists>r'. service_reach tag quiet h bg r r' \<and> ru_main r' = MStopped else True)
    \<and> (if ru_main r = MStopped
       then (\<forall>r'. \<not> service_step tag quiet h bg r r') \<and> (ru_inflight r = [] \<or> quiet \<or> deadline_msg tag \<in> set (ru_log r)) else True)"
proof -
  have inv: "accounted r" "orderly tag quiet r"
    using reach_shutdown [OF assms] by simp_all
  have "if ru_listener r = LClosed
       then (\<forall>r'. service_step tag quiet h bg r r' \<longrightarrow> ru_listener r' = LClosed \<and> ru_accepted r' = ru_accepted r
          \<and> (only_background r r' \<or> closing_weight r' < closing_weight r)) else True"
  proof (cases "ru_listener r = LClosed")
    case True
    then show ?thesis
      unfolding if_P [OF True] using closed_step [OF True inv(2)] by blast
  qed simp
  moreover have "if ru_done r then \<exists>r'. service_reach tag quiet h bg r r' \<and> ru_main r' = MStopped else True"
    by (simp add: main_stops)
  moreover have "if ru_main r = MStopped
       then (\<forall>r'. \<not> service_step tag quiet h bg r r') \<and> (ru_inflight r = [] \<or> quiet \<or> deadline_msg tag \<in> set (ru_log r)) else True"
    using inv(2) by (simp add: stopped_final orderly_def)
  ultimately show ?thesis
    using inv(1) unfolding accounted_def by (intro conjI)
qed

definition counting :: "unit \<Rightarrow> (nat, unit) handler" where
  "counting ev rq n = (n + 1, not_found)"

definition stopped_counting :: "(nat, unit) running" where
  "stopped_counting = (service_start 0)\<lparr>ru_done := True, ru_listener := LClosed, ru_main := MStopped, ru_log := [''[count] stopped'']\<rparr>"

theorem graceful_shutdown_witness:
  "\<forall>r'. \<not> service_step ''[count]'' False counting (\<lambda>s s'. False) stopped_counting r'"
proof -
  let ?step = "service_step ''[count]'' False counting (\<lambda>s s'. False)"
  let ?r1 = "(service_start 0)\<lparr>ru_done := True\<rparr>" and ?r2 = "(service_start 0)\<lparr>ru_done := True, ru_listener := LClosed, ru_main := MDraining\<rparr>"
  have "?step (service_start 0) ?r1"
    by (rule signalled) (simp add: service_start_def)
  moreover have "?step ?r1 ?r2"
    using shutdown [of ?r1 "''[count]''" False counting] by (simp add: service_start_def)
  moreover have "?step ?r2 stopped_counting"
    using drained [of ?r2 "''[count]''" False counting] by (simp add: service_start_def stopped_counting_def)
  ultimately have "service_reach ''[count]'' False counting (\<lambda>s s'. False) (service_start 0) stopped_counting"
    by (meson r_into_rtranclp rtranclp.rtrancl_into_rtrancl)
  from graceful_shutdown [OF this] show ?thesis
    by (simp add: stopped_counting_def)
qed

end
