(* ===== verification/Commands_Run.thy ===== *)
theory Commands_Run
  imports Service_Run Dashboard
begin

text \<open>
  The six commands that serve, running: each is \<open>service_step\<close> with the command's handler chain, its
  log tag and its background loop. Every invariant of the handlers, lifted by \<open>kept_by_service\<close>, holds
  from the start that the command's \<open>main\<close> gives to its exit. A \<open>Submit\<close> of the orchestrator is one step
  here; its critical sections and their interleavings are the subject of \<open>Orchestrator_Server\<close>.
\<close>

subsection \<open>The runs\<close>

definition no_loop :: "'s \<Rightarrow> 's \<Rightarrow> bool" where
  "no_loop s s' \<longleftrightarrow> False"

definition control_run :: "server \<Rightarrow> (store, payload) running \<Rightarrow> (store, payload) running \<Rightarrow> bool" where
  "control_run srv = service_step ''[control]'' False (NewServer srv) no_loop"

definition orchestrator_run ::
  "orc_server \<Rightarrow> (orchestrator \<times> sim, orc_payload) running \<Rightarrow> (orchestrator \<times> sim, orc_payload) running \<Rightarrow> bool" where
  "orchestrator_run srv = service_step ''[orchestrator]'' False
     (\<lambda>ev. orc_NewServer srv ev (Some (SimSink_Apply (ov_now ev)))) no_loop"

text \<open>A tick of the grid monitor: the command's source is the static stub made at the start.\<close>

definition grid_tick :: "go_time \<Rightarrow> hw_state \<Rightarrow> hw_state \<Rightarrow> bool" where
  "grid_tick started s s' \<longleftrightarrow> s' = s\<lparr>hs_latest := fst (PollOnce (StaticCurrent (stub_signal started)) (hs_latest s))\<rparr>"

definition hardware_run ::
  "go_time \<Rightarrow> hw_server \<Rightarrow> manager \<Rightarrow> (hw_state, hw_payload) running \<Rightarrow> (hw_state, hw_payload) running \<Rightarrow> bool" where
  "hardware_run started srv m = service_step ''[hardware]'' False (\<lambda>(n, ts). hw_NewServer srv n ts m) (grid_tick started)"

text \<open>A tick of the maintenance loop, which runs only when the flag asks for it.\<close>

definition maintenance_tick :: "query_flags \<Rightarrow> client \<Rightarrow> bool \<Rightarrow> sent_request list \<Rightarrow> sent_request list \<Rightarrow> bool" where
  "maintenance_tick fl c loop h h' \<longleftrightarrow> loop \<and> (\<exists>ev. h' = fst (RunMaintenance ev c (qf_raw fl) (qf_rollup fl) h))"

definition query_run ::
  "query_flags \<Rightarrow> query_service \<Rightarrow> (sent_request list, query_payload) running \<Rightarrow> (sent_request list, query_payload) running \<Rightarrow> bool" where
  "query_run fl svc = (case svc of (c, token, loop) \<Rightarrow>
     service_step ''[api]'' False (\<lambda>ev. query_NewServer token (ev\<lparr>qe_client := c\<rparr>)) (maintenance_tick fl c loop))"

definition topology_run :: "string \<Rightarrow> (graph, topo_payload) running \<Rightarrow> (graph, topo_payload) running \<Rightarrow> bool" where
  "topology_run token = service_step ''[topology]'' False (topo_NewServer token) no_loop"

text \<open>
  The dashboard runs in front of services that serve other clients too: its background is a request
  to one of them that does not pass through it, or a turn of one of their loops. Which links work
  is open at every request.
\<close>

inductive behind :: "go_time \<Rightarrow> query_flags \<Rightarrow> client \<Rightarrow> bool \<Rightarrow> plant_cfg \<Rightarrow> plant \<Rightarrow> plant \<Rightarrow> bool"
  for started :: go_time and fl :: query_flags and c :: client and loop :: bool and cfg :: plant_cfg where
  direct: "behind started fl c loop cfg w (fst (serve_at cfg ev s rq w))"
| grid: "grid_tick started (pl_hardware w) s' \<Longrightarrow> behind started fl c loop cfg w (w\<lparr>pl_hardware := s'\<rparr>)"
| maintain: "maintenance_tick fl c loop (pl_query w) h' \<Longrightarrow> behind started fl c loop cfg w (w\<lparr>pl_query := h'\<rparr>)"

inductive_cases behindE: "behind started fl c loop cfg w w'"

definition dashboard_run ::
  "(request \<Rightarrow> plant_payload response) \<Rightarrow> (service \<Rightarrow> upstream) \<Rightarrow> plant_cfg \<Rightarrow> (plant \<Rightarrow> plant \<Rightarrow> bool) \<Rightarrow>
   (plant, plant_payload) running \<Rightarrow> (plant, plant_payload) running \<Rightarrow> bool" where
  "dashboard_run files ups cfg bg = service_step ''[dashboard]'' True
     (\<lambda>(links, ev). dashboard files ups links (serve_at cfg ev)) bg"

subsection \<open>control\<close>

definition control_inv :: "string set \<Rightarrow> store \<Rightarrow> bool" where
  "control_inv D s \<longleftrightarrow> store_safe s \<and> limits s = DefaultLimits \<and> dom (dev_state s) = D"

interpretation control_kept: kept_by_service "NewServer srv" no_loop "control_inv D" for srv D
proof
  fix s :: store and ev rq
  assume inv: "control_inv D s"
  obtain ops where ops: "fst (NewServer srv ev rq s) = ctl_run ops s"
    using NewServer_step [of s srv ev rq] by (auto simp: one_op_def)
  have "store_safe (fst (NewServer srv ev rq s)) \<and> limits (fst (NewServer srv ev rq s)) = DefaultLimits"
    using inv DefaultLimits_wf ctl_run_safe [of s ops] by (simp add: ops control_inv_def)
  then show "control_inv D (fst (NewServer srv ev rq s))"
    using inv NewServer_dom [of srv ev rq s] by (simp add: control_inv_def)
qed (simp add: no_loop_def)

subsection \<open>orchestrator\<close>

definition orchestrator_inv :: "bool \<Rightarrow> orchestrator \<times> sim \<Rightarrow> bool" where
  "orchestrator_inv two s \<longleftrightarrow> orc_wf (fst s) \<and> orc_log.ids_contiguous (fst s)
     \<and> o_policy (fst s) = DefaultPolicy\<lparr>RequireTwoPerson := two\<rparr> \<and> sim_ok (snd s)"

lemma orc_Submit_inv: "orchestrator_inv two s \<Longrightarrow> orchestrator_inv two (fst (Submit quote ts (Some (SimSink_Apply now)) req s))"
  using orc_run_log [of s quote "Some (SimSink_Apply now)" "[(ts, req)]"] sim.submit_ok [of "snd s" quote ts now req "fst s"]
  by (simp add: orchestrator_inv_def)

lemma handleSubmit_inv: "orchestrator_inv two s \<Longrightarrow> orchestrator_inv two (fst (handleSubmit ev (Some (SimSink_Apply now)) rq s))"
  using orc_Submit_inv [of two s "ov_quote ev" "ov_ts ev" now "submit_of_body (rq_body rq)"]
  by (auto simp: handleSubmit_def split: prod.split go_result.split)

lemma orc_NewServer_inv:
  "orchestrator_inv two s \<Longrightarrow> orchestrator_inv two (fst (orc_NewServer srv ev (Some (SimSink_Apply now)) rq s))"
  using handleSubmit_inv [of two s ev now rq]
  by (simp add: orc_NewServer_def orc_corsMiddleware_def orc_auth_def cors_wrap_def auth_check_def orc_mux_def
      orc_handleHealth_def handlePolicy_def orc_handleAudit_def Let_def split_beta)

interpretation orchestrator_kept: kept_by_service "\<lambda>ev. orc_NewServer srv ev (Some (SimSink_Apply (ov_now ev)))" no_loop
  "orchestrator_inv two" for srv two
  by unfold_locales (simp_all add: orc_NewServer_inv no_loop_def)

subsection \<open>hardware\<close>

definition hardware_inv :: "hw_state \<Rightarrow> bool" where
  "hardware_inv s \<longleftrightarrow> gs_Level (hs_latest s) = StressNone
     \<and> (case hs_audit s of None \<Rightarrow> False | Some a \<Rightarrow> audit_log_wf a \<and> hw_log.ids_contiguous a)"

lemma hw_record_inv: "hardware_inv s \<Longrightarrow> hardware_inv (hw_record ts server action det oper note s)"
  by (auto simp: hardware_inv_def hw_record_def hw_log.wf_push hw_log.ids_push split: option.splits)

lemma sends_inv [simp]: "hardware_inv (sends cs s) = hardware_inv s"
  by (simp add: hardware_inv_def)

lemma hw_handlers_inv:
  "hardware_inv s \<Longrightarrow> hardware_inv (fst (handlePower n ts m rq s))"
  "hardware_inv s \<Longrightarrow> hardware_inv (fst (handleBoot n ts m rq s))"
  "hardware_inv s \<Longrightarrow> hardware_inv (fst (handlePowerCap n ts m rq s))"
  by (simp_all add: handlePower_def handleBoot_def handlePowerCap_def Let_def hw_record_inv
      split: sum.split prod.split option.split)

lemma hw_NewServer_inv: "hardware_inv s \<Longrightarrow> hardware_inv (fst (hw_NewServer srv n ts m rq s))"
  using hw_handlers_inv [of s n ts m rq]
  by (simp add: hw_NewServer_def hw_corsMiddleware_def hw_auth_def cors_wrap_def auth_check_def hw_mux_def Let_def split_beta)

lemma grid_tick_inv: "hardware_inv s \<Longrightarrow> grid_tick started s s' \<Longrightarrow> hardware_inv s'"
  by (simp add: grid_tick_def hardware_inv_def PollOnce_def StaticCurrent_def stub_signal_def)

interpretation hardware_kept: kept_by_service "\<lambda>(n, ts). hw_NewServer srv n ts m" "grid_tick started" hardware_inv for srv m started
  by unfold_locales (auto simp: hw_NewServer_inv grid_tick_inv split: prod.split)

subsection \<open>The query API\<close>

definition plan_request :: "query_flags \<Rightarrow> client \<Rightarrow> sent_request \<Rightarrow> bool" where
  "plan_request fl c x \<longleftrightarrow> x \<in> set (map (exec_request c) (statements (MaintenancePlan (qf_raw fl) (qf_rollup fl))))"

definition asked :: "client \<Rightarrow> string \<Rightarrow> sent_request \<Rightarrow> bool" where
  "asked c token x \<longleftrightarrow> (\<exists>ev rq. (authorized token rq \<or> rq_path rq = ''/health'') \<and> may_send (ev\<lparr>qe_client := c\<rparr>) rq x)"

text \<open>The requests since a history were asked for by a request with the token or a health check, or are
  statements of the plan, when the loop runs.\<close>

definition query_inv :: "query_flags \<Rightarrow> query_service \<Rightarrow> sent_request list \<Rightarrow> sent_request list \<Rightarrow> bool" where
  "query_inv fl svc h0 h \<longleftrightarrow> (case svc of (c, token, loop) \<Rightarrow>
     \<exists>xs. h = h0 @ xs \<and> list_all (\<lambda>x. asked c token x \<or> (loop \<and> plan_request fl c x)) xs)"

lemma query_inv_grow:
  "query_inv fl (c, token, loop) h0 h \<Longrightarrow> list_all (\<lambda>x. asked c token x \<or> (loop \<and> plan_request fl c x)) xs \<Longrightarrow>
   query_inv fl (c, token, loop) h0 (h @ xs)"
  by (auto simp: query_inv_def)

lemma query_request_kept:
  assumes "query_inv fl (c, token, loop) h0 h"
  shows "query_inv fl (c, token, loop) h0 (fst (query_NewServer token (ev\<lparr>qe_client := c\<rparr>) rq h))"
proof -
  have "fst (query_NewServer token (ev\<lparr>qe_client := c\<rparr>) rq h) = h
    \<or> (\<exists>x. fst (query_NewServer token (ev\<lparr>qe_client := c\<rparr>) rq h) = h @ [x] \<and> asked c token x)"
  proof (cases "authorized token rq \<or> rq_path rq = ''/health''")
    case True
    then have "query_NewServer token (ev\<lparr>qe_client := c\<rparr>) rq h = query_mux (ev\<lparr>qe_client := c\<rparr>) rq h"
      by (auto simp: query_NewServer_def query_auth_def auth_check_def authorized_def)
    then show ?thesis
      using True query_mux_sends [of "ev\<lparr>qe_client := c\<rparr>" rq h] unfolding at_most_one_def asked_def by auto
  next
    case False
    then show ?thesis
      using query_http.unauthorized_elsewhere_no_effect [of token rq "ev\<lparr>qe_client := c\<rparr>" h] by simp
  qed
  then show ?thesis
    using assms query_inv_grow [OF assms, of "[_]"] by auto
qed

text \<open>A run of the plan sends a prefix of it.\<close>

lemma run_ended_prefix:
  assumes "run_ended ev c ss h out"
  shows "\<exists>xs. fst out = h @ xs \<and> set xs \<subseteq> set (map (exec_request c) ss)"
proof (cases "snd out")
  case None
  then show ?thesis
    using assms by (auto simp: run_ended_def)
next
  case (Some err)
  then obtain d s rest where d: "ss = d @ s # rest" and out: "fst out = fst (Exec ev c s (h @ map (exec_request c) d))"
    using assms by (auto simp: run_ended_def)
  from Exec_sends [of ev c s "h @ map (exec_request c) d"] show ?thesis
  proof
    assume "fst (Exec ev c s (h @ map (exec_request c) d)) = (h @ map (exec_request c) d) @ [exec_request c s]"
    then show ?thesis
      by (intro exI [of _ "map (exec_request c) (d @ [s])"]) (auto simp: out d)
  next
    assume "fst (Exec ev c s (h @ map (exec_request c) d)) = h @ map (exec_request c) d \<and> isl (snd (Exec ev c s (h @ map (exec_request c) d)))"
    then show ?thesis
      by (intro exI [of _ "map (exec_request c) d"]) (auto simp: out d)
  qed
qed

lemma maintenance_kept:
  assumes "query_inv fl (c, token, loop) h0 h" "maintenance_tick fl c loop h h'"
  shows "query_inv fl (c, token, loop) h0 h'"
proof -
  obtain ev where h': "loop" "h' = fst (RunMaintenance ev c (qf_raw fl) (qf_rollup fl) h)"
    using assms(2) by (auto simp: maintenance_tick_def)
  obtain xs where "h' = h @ xs" "set xs \<subseteq> set (map (exec_request c) (statements (MaintenancePlan (qf_raw fl) (qf_rollup fl))))"
    using run_ended_prefix [OF ExecMany_run, of ev c "MaintenancePlan (qf_raw fl) (qf_rollup fl)" h] unfolding h'(2) RunMaintenance_def by blast
  then show ?thesis
    using query_inv_grow [OF assms(1), of xs] h'(1) by (auto simp: list_all_iff plan_request_def)
qed

interpretation query_kept: kept_by_service "\<lambda>ev. query_NewServer token (ev\<lparr>qe_client := c\<rparr>)" "maintenance_tick fl c loop"
  "query_inv fl (c, token, loop) h0" for token c fl loop h0
  by unfold_locales (simp_all only: query_request_kept, rule maintenance_kept)

subsection \<open>topology and dashboard\<close>

interpretation topology_kept: kept_by_service "topo_NewServer token" no_loop graph_wf for token
  by unfold_locales (simp_all add: topo_NewServer_wf no_loop_def)

definition plant_inv :: "string set \<Rightarrow> bool \<Rightarrow> plant \<Rightarrow> bool" where
  "plant_inv D two w \<longleftrightarrow> control_inv D (pl_control w) \<and> orchestrator_inv two (pl_orchestrator w)
     \<and> hardware_inv (pl_hardware w) \<and> graph_wf (pl_topology w)"

lemma serve_at_inv: "plant_inv D two w \<Longrightarrow> plant_inv D two (fst (serve_at cfg ev s rq w))"
  using control_kept.handler_keeps [of D "pl_control w"] orc_NewServer_inv [of two "pl_orchestrator w"]
    hw_NewServer_inv [of "pl_hardware w"] topo_NewServer_wf [of "pl_topology w"]
  by (cases s) (simp_all add: plant_inv_def at_service_def split_beta Let_def)

lemma dashboard_inv: "plant_inv D two w \<Longrightarrow> plant_inv D two (fst (dashboard files ups links (serve_at cfg ev) rq w))"
  using serve_at_inv [of D two w]
  by (simp add: dashboard_def secureHeaders_def dash_mux_def proxy_def split_beta Let_def split: option.split link.split)

lemma behind_inv: "behind started fl c loop cfg w w' \<Longrightarrow> plant_inv D two w \<Longrightarrow> plant_inv D two w'"
  by (erule behindE, simp add: serve_at_inv) (auto simp: plant_inv_def grid_tick_inv)

interpretation plant_kept: kept_by_service "\<lambda>(links, ev). dashboard files ups links (serve_at cfg ev)"
  "behind started fl c loop cfg" "plant_inv D two" for files ups cfg started fl c loop D two
  by unfold_locales (auto simp: dashboard_inv behind_inv split: prod.split)

subsection \<open>What the commands start from\<close>

lemma control_main_inv:
  assumes "control_main quote clock path src fl = Serving (srv, s0)"
  shows "control_inv (set (seeded_devices src)) s0"
  using control_service_safe [OF assms, of "[]"] by (simp add: control_inv_def)

lemma two_person_policy_kept: "o_policy (New (DefaultPolicy\<lparr>RequireTwoPerson := two\<rparr>)) = DefaultPolicy\<lparr>RequireTwoPerson := two\<rparr>"
  by (simp add: New_def policy_zero_def DefaultPolicy_def f64_eval f64_100_def)

lemma orchestrator_main_inv:
  "orchestrator_main quote two fl = Serving (srv, s0) \<Longrightarrow> orchestrator_inv two s0"
  by (auto simp: orchestrator_main_def guarded_start_Serving orchestrator_inv_def New_wf two_person_policy_kept NewSimSink_def sim_ok_def)

lemma hardware_main_inv:
  "hardware_main quote getenv now w crit fl = Serving (srv, m, s0) \<Longrightarrow> hardware_inv s0"
  by (auto simp: hardware_main_def guarded_start_Serving hardware_inv_def NewAuditLog_wf NewGridStressMonitor_def stub_signal_def)

text \<open>Each service on its own: what holds at its start holds until its exit.\<close>

lemma control_run_safe:
  assumes "control_main quote clock path src fl = Serving (srv, s0)" "(control_run srv)\<^sup>*\<^sup>* (service_start s0) r"
  shows "control_inv (set (seeded_devices src)) (ru_state r)"
  using control_kept.run_keeps [OF assms(2) [unfolded control_run_def]] control_main_inv [OF assms(1)] by blast

lemma orchestrator_run_safe:
  assumes "orchestrator_main quote two fl = Serving (srv, s0)" "(orchestrator_run srv)\<^sup>*\<^sup>* (service_start s0) r"
  shows "orchestrator_inv two (ru_state r)"
  using orchestrator_kept.run_keeps [OF assms(2) [unfolded orchestrator_run_def]] orchestrator_main_inv [of quote two fl srv s0] assms(1)
  by blast

lemma hardware_run_safe:
  assumes "hardware_main quote getenv now w crit fl = Serving (srv, m, s0)" "(hardware_run now srv m)\<^sup>*\<^sup>* (service_start s0) r"
  shows "hardware_inv (ru_state r)"
  using hardware_kept.run_keeps [OF assms(2) [unfolded hardware_run_def]] hardware_main_inv [OF assms(1)] by blast

lemma topology_run_safe:
  assumes "topology_main quote doc ev fl h = (h', Up (token, g))" "(topology_run token)\<^sup>*\<^sup>* (service_start g) r"
  shows "graph_wf (ru_state r)"
  using topology_kept.run_keeps [OF assms(2) [unfolded topology_run_def]] topology_main_Up [OF assms(1)] by blast

subsection \<open>Properties\<close>



text \<open>A plant with one rack, all of its services behind a token.\<close>

definition demo_flags :: api_flags where
  "demo_flags = \<lparr>sf_addr = '':8082'', sf_token = ''t'', sf_insecure = False, af_cors = []\<rparr>"

definition demo_file :: seed_file where
  "demo_file = SeedRead (Some (JObj [(''nodes'', JArr [JObj [(''id'', JStr ''r1''), (''kind'', JStr ''rack'')],
     JObj [(''id'', JStr ''room''), (''kind'', JStr ''room'')]])])) []"

definition demo_cfg :: plant_cfg where
  "demo_cfg = \<lparr>pg_control = \<lparr>authToken = ''t'', cors = []\<rparr>, pg_orchestrator = \<lparr>os_authToken = ''t'', os_cors = []\<rparr>,
     pg_hardware = (\<lparr>hw_authToken = ''t'', hw_cors = []\<rparr>, hardware_manager (\<lambda>k. []) 0 []), pg_topology = ''t'', pg_query = ''t''\<rparr>"

definition demo_plant :: plant where
  "demo_plant = \<lparr>pl_control = fst (seed (\<lambda>i. 7) ''facility.json'' demo_file (NewStore DefaultLimits)),
     pl_orchestrator = (New (DefaultPolicy\<lparr>RequireTwoPerson := True\<rparr>), NewSimSink),
     pl_hardware = \<lparr>hs_latest = NewGridStressMonitor 7, hs_audit = Some NewAuditLog, hs_sent = []\<rparr>,
     pl_topology = NewGraph, pl_query = []\<rparr>"

definition demo_query_flags :: query_flags where
  "demo_query_flags = \<lparr>sf_addr = '':8080'', sf_token = ''t'', sf_insecure = False, qf_questdb = ''http://localhost:9000'',
     qf_apply = False, qf_maintenance = False, qf_every = 0, qf_raw = [], qf_rollup = []\<rparr>"

lemma demo_started:
  "control_main id (\<lambda>i. 7) ''facility.json'' demo_file demo_flags = Serving (pg_control demo_cfg, pl_control demo_plant)"
  "orchestrator_main id True demo_flags = Serving (pg_orchestrator demo_cfg, pl_orchestrator demo_plant)"
  "hardware_main id (\<lambda>k. []) 7 0 [] demo_flags =
     Serving (fst (pg_hardware demo_cfg), snd (pg_hardware demo_cfg), pl_hardware demo_plant)"
  by (simp_all add: control_main_def orchestrator_main_def hardware_main_def guarded_start_Serving demo_flags_def demo_cfg_def demo_plant_def)

lemma demo_seeded: "seeded_devices demo_file = [''r1'']"
  by (simp add: demo_file_def seeded_devices_def decode_seeds_def get_slice_def get_field_def facilitySpec_def zero_seed_node_def
      seeded_kind_def)

lemma listening: "service_reach tag quiet h bg (service_start s) ((service_start s)\<lparr>ru_listener := LServing\<rparr>)"
  using bind [of "service_start s" tag quiet h bg] by (simp add: service_start_def r_into_rtranclp)



end
