(* ===== verification/Ingest_Run.thy ===== *)
theory Ingest_Run
  imports Telemetry_Cmd Pipeline_Shutdown
begin

text \<open>
  The ingestion command running: the pipeline of \<open>Pipeline\<close> with the collectors and the sink that
  the command built in place of arbitrary ones, the goroutine that replays dead letters and the one
  that logs the metrics. \<open>ingest_step\<close> refines \<open>pipe_step\<close> up to what the replay takes out of the
  dead-letter sink; end to end, what the sink's wire carries is the text of the batches handed over.
\<close>

subsection \<open>The calls the pipeline makes\<close>

type_synonym sink_env = "write_env \<times> (nat \<times> string) option"

fun built_Name :: "built_source \<Rightarrow> string" where
  "built_Name (BSynthetic s) = synthetic_Name s"
| "built_Name (BRedfish s) = redfish_Name s"
| "built_Name (BModbus s) = modbus_Name s"
| "built_Name (BIpmi s) = ipmi_Name s"

fun sink_Close :: "string option \<Rightarrow> sink_writer \<Rightarrow> sink_writer \<times> string option" where
  "sink_Close err (LogSink l) = (let (l', e) = log_Close l in (LogSink l', e))"
| "sink_Close err (QuestSink q) = (let (q', e) = Close err q in (QuestSink q', e))"
| "sink_Close err (NullSink n) = (let (n', e) = null_Close n in (NullSink n', e))"

text \<open>The sink and the history of its calls: world, batch and result of each.\<close>

record ingest =
  ig_pipe :: pipe
  ig_sources :: "built_source list"
  ig_sink :: sink_writer
  ig_calls :: "(sink_env \<times> data_point list \<times> string option) list"
  ig_replayed :: "dead_letter list"
  ig_logged :: "snapshot list"

definition ingest_start :: "ingestion \<Rightarrow> ingest" where
  "ingest_start r = \<lparr>ig_pipe = in_pipe r, ig_sources = in_collectors r, ig_sink = in_sink r, ig_calls = [],
     ig_replayed = [], ig_logged = []\<rparr>"

text \<open>The registry is one object: the dead-letter counter is counted through the sink's reference to it.\<close>

definition all_counters :: "pipe \<Rightarrow> registry" where
  "all_counters p = (case p_dl p of None \<Rightarrow> p_reg p
     | Some d \<Rightarrow> (case dl_reg d of None \<Rightarrow> p_reg p | Some r \<Rightarrow> (p_reg p)\<lparr>r_deadLetters := r_deadLetters r\<rparr>))"

text \<open>The steps of the pipeline that call neither a collector nor the sink: all but the polls, the writes
  and the return.\<close>

definition sending :: "source_state \<Rightarrow> bool" where
  "sending x \<longleftrightarrow> (\<exists>pts. x = SSending pts)"

definition inside_step :: "pipe \<Rightarrow> pipe \<Rightarrow> bool" where
  "inside_step p p' \<longleftrightarrow> (p_reg p' = p_reg p \<or> p_reg p' = IncIngested 1 (p_reg p)) \<and> p_returned p' = p_returned p
     \<and> (\<forall>i < length (p_sources p). p_sources p ! i = SIdle \<longrightarrow> \<not> sending (p_sources p' ! i))"

inductive ingest_step :: "(string \<Rightarrow> nat \<Rightarrow> string) \<Rightarrow> int \<Rightarrow> config \<Rightarrow> ingest \<Rightarrow> ingest \<Rightarrow> bool"
  for sprintf :: "string \<Rightarrow> nat \<Rightarrow> string" and every :: int and cfg :: config where
  inside: "pipe_step cfg (ig_pipe s) p \<Longrightarrow> inside_step (ig_pipe s) p \<Longrightarrow> ingest_step sprintf every cfg s (s\<lparr>ig_pipe := p\<rparr>)"
| polled: "i < length (p_sources (ig_pipe s)) \<Longrightarrow> p_sources (ig_pipe s) ! i = SIdle \<Longrightarrow>
    built_Poll sprintf w (ig_sources s ! i) = (c, Inr pts) \<Longrightarrow>
    ingest_step sprintf every cfg s (s\<lparr>ig_sources := (ig_sources s)[i := c],
      ig_pipe := (ig_pipe s)\<lparr>p_reg := IncSource (built_Name (ig_sources s ! i)) (of_nat (length pts)) (p_reg (ig_pipe s)),
        p_sources := (p_sources (ig_pipe s))[i := SSending pts]\<rparr>\<rparr>)"
| poll_failed: "i < length (p_sources (ig_pipe s)) \<Longrightarrow> p_sources (ig_pipe s) ! i = SIdle \<Longrightarrow>
    built_Poll sprintf w (ig_sources s ! i) = (c, Inl err) \<Longrightarrow>
    ingest_step sprintf every cfg s (s\<lparr>ig_sources := (ig_sources s)[i := c],
      ig_pipe := (ig_pipe s)\<lparr>p_reg := IncPollErrors 1 (p_reg (ig_pipe s))\<rparr>\<rparr>)"
| taken: "j < length (p_workers (ig_pipe s)) \<Longrightarrow> p_workers (ig_pipe s) ! j = WFlush b stop \<Longrightarrow>
    sink_WriteBatch ev b (ig_sink s) = (snk, None) \<Longrightarrow>
    ingest_step sprintf every cfg s (s\<lparr>ig_sink := snk, ig_calls := ig_calls s @ [(ev, b, None)],
      ig_pipe := (flush_ok b (ig_pipe s))\<lparr>p_workers := (p_workers (ig_pipe s))[j := after_flush stop]\<rparr>\<rparr>)"
| refused: "j < length (p_workers (ig_pipe s)) \<Longrightarrow> p_workers (ig_pipe s) ! j = WFlush b stop \<Longrightarrow>
    sink_WriteBatch ev b (ig_sink s) = (snk, Some e) \<Longrightarrow>
    ingest_step sprintf every cfg s (s\<lparr>ig_sink := snk, ig_calls := ig_calls s @ [(ev, b, Some e)],
      ig_pipe := (flush_err e now b (ig_pipe s))\<lparr>p_workers := (p_workers (ig_pipe s))[j := after_flush stop]\<rparr>\<rparr>)"
| close_sink: "p_closed (ig_pipe s) \<Longrightarrow> list_all (\<lambda>w. w = WStopped) (p_workers (ig_pipe s)) \<Longrightarrow> \<not> p_returned (ig_pipe s) \<Longrightarrow>
    ingest_step sprintf every cfg s (s\<lparr>ig_sink := fst (sink_Close err (ig_sink s)), ig_pipe := (ig_pipe s)\<lparr>p_returned := True\<rparr>\<rparr>)"
| replay: "p_dl (ig_pipe s) = Some d \<Longrightarrow>
    ingest_step sprintf every cfg s (s\<lparr>ig_replayed := ig_replayed s @ dl_items d,
      ig_pipe := (ig_pipe s)\<lparr>p_dl := Some (d\<lparr>dl_items := []\<rparr>)\<rparr>\<rparr>)"
| log_metrics: "0 < every \<or> p_returned (ig_pipe s) \<Longrightarrow>
    ingest_step sprintf every cfg s (s\<lparr>ig_logged := ig_logged s @ [Snapshot uptime (all_counters (ig_pipe s))]\<rparr>)"

inductive_cases ingest_stepE: "ingest_step sprintf every cfg s s'"

abbreviation ingest_reach :: "(string \<Rightarrow> nat \<Rightarrow> string) \<Rightarrow> int \<Rightarrow> config \<Rightarrow> ingest \<Rightarrow> ingest \<Rightarrow> bool" where
  "ingest_reach sprintf every cfg \<equiv> (ingest_step sprintf every cfg)\<^sup>*\<^sup>*"

subsection \<open>Refinement\<close>

text \<open>What the dead-letter sink holds guards no step of the pipeline.\<close>

lemma pipe_step_dl:
  assumes "pipe_step cfg p p'"
  shows "\<exists>d'. pipe_step cfg (p\<lparr>p_dl := d\<rparr>) (p'\<lparr>p_dl := d'\<rparr>)"
  using assms
proof cases
  case (poll i pts name)
  then show ?thesis using pipe_step.poll [of i "p\<lparr>p_dl := d\<rparr>" cfg pts name] by (cases p) auto
next
  case (poll_error i)
  then show ?thesis using pipe_step.poll_error [of i "p\<lparr>p_dl := d\<rparr>" cfg] by (cases p) auto
next
  case (send i pt pts)
  then show ?thesis using pipe_step.send [of i "p\<lparr>p_dl := d\<rparr>" pt pts cfg] by (cases p) auto
next
  case (sent_all i)
  then show ?thesis using pipe_step.sent_all [of i "p\<lparr>p_dl := d\<rparr>" cfg] by (cases p) auto
next
  case (source_stop i pt pts)
  then show ?thesis using pipe_step.source_stop [of i "p\<lparr>p_dl := d\<rparr>" pt pts cfg] by (cases p) auto
next
  case (recv j b pt rest)
  then show ?thesis using pipe_step.recv [of j "p\<lparr>p_dl := d\<rparr>" b pt rest cfg] by (cases p) auto
next
  case (recv_closed j b)
  then show ?thesis using pipe_step.recv_closed [of j "p\<lparr>p_dl := d\<rparr>" b cfg] by (cases p) auto
next
  case (timeout j b)
  then show ?thesis using pipe_step.timeout [of j "p\<lparr>p_dl := d\<rparr>" b cfg] by (cases p) auto
next
  case (worker_done j b)
  then show ?thesis using pipe_step.worker_done [of j "p\<lparr>p_dl := d\<rparr>" b cfg] by (cases p) auto
next
  case (wrote j b stop)
  then show ?thesis using pipe_step.wrote [of j "p\<lparr>p_dl := d\<rparr>" b stop cfg] by (cases p) (auto simp: flush_ok_def)
next
  case (write_failed j b stop e now)
  let ?dls = "map (\<lambda>pt. \<lparr>dl_Point = pt, dl_Error = e, dl_Attempted = now\<rparr>) b"
  have "pipe_step cfg (p\<lparr>p_dl := d\<rparr>) ((flush_err e now b (p\<lparr>p_dl := d\<rparr>))\<lparr>p_workers := (p_workers p)[j := after_flush stop]\<rparr>)"
    using pipe_step.write_failed [of j "p\<lparr>p_dl := d\<rparr>" b stop cfg e now] write_failed(2,3) by simp
  moreover have "p'\<lparr>p_dl := map_option (fold Put ?dls) d\<rparr> = (flush_err e now b (p\<lparr>p_dl := d\<rparr>))\<lparr>p_workers := (p_workers p)[j := after_flush stop]\<rparr>"
    unfolding write_failed(1) by (cases p) (simp add: flush_err_def Let_def)
  ultimately show ?thesis
    by metis
next
  case Stop
  then show ?thesis using pipe_step.Stop [of cfg "p\<lparr>p_dl := d\<rparr>"] by (cases p) auto
next
  case close_bus
  then show ?thesis using pipe_step.close_bus [of "p\<lparr>p_dl := d\<rparr>" cfg] by (cases p) auto
next
  case return
  then show ?thesis using pipe_step.return [of "p\<lparr>p_dl := d\<rparr>" cfg] by (cases p) auto
qed

text \<open>Two pipelines that differ at most in the dead-letter sink.\<close>

definition same_but_dl :: "pipe \<Rightarrow> pipe \<Rightarrow> bool" where
  "same_but_dl p q \<longleftrightarrow> (\<exists>d. q = p\<lparr>p_dl := d\<rparr>)"

lemma same_but_dl_refl [simp]: "same_but_dl p p"
  by (auto simp: same_but_dl_def intro: exI [of _ "p_dl p"])

lemma same_but_dl_step:
  assumes "pipe_step cfg p p'" "same_but_dl p q"
  shows "\<exists>q'. pipe_step cfg q q' \<and> same_but_dl p' q'"
  using pipe_step_dl [OF assms(1)] assms(2) by (auto simp: same_but_dl_def)

text \<open>Each step of the run is a step of the pipeline, or leaves all of it but the dead letters.\<close>

lemma ingest_step_refines:
  assumes "ingest_step sprintf every cfg s s'"
  shows "pipe_step cfg (ig_pipe s) (ig_pipe s') \<or> same_but_dl (ig_pipe s') (ig_pipe s)"
  using assms
proof cases
  case (polled i w c pts)
  then show ?thesis using pipe_step.poll [of i "ig_pipe s" cfg pts "built_Name (ig_sources s ! i)"] by auto
next
  case (poll_failed i w c err)
  then show ?thesis using pipe_step.poll_error [of i "ig_pipe s" cfg] by auto
next
  case (taken j b stop ev snk)
  then show ?thesis using pipe_step.wrote [of j "ig_pipe s" b stop cfg] by auto
next
  case (refused j b stop ev snk e now)
  then show ?thesis using pipe_step.write_failed [of j "ig_pipe s" b stop cfg e now] by auto
next
  case (close_sink err)
  then show ?thesis using pipe_step.return [of "ig_pipe s" cfg] by auto
next
  case (replay d)
  then have "ig_pipe s = (ig_pipe s')\<lparr>p_dl := Some d\<rparr>"
    by simp
  then show ?thesis
    by (auto simp: same_but_dl_def)
qed simp_all

lemma same_but_dl_trans: "same_but_dl p' p \<Longrightarrow> same_but_dl p q \<Longrightarrow> same_but_dl p' q"
  by (auto simp: same_but_dl_def)

lemma ingest_simulated:
  assumes "ingest_reach sprintf every cfg s0 s"
  shows "\<exists>q. pipe_reach cfg (ig_pipe s0) q \<and> same_but_dl (ig_pipe s) q"
  using assms
proof (induction rule: rtranclp_induct)
  case base
  show ?case by (intro exI [of _ "ig_pipe s0"]) simp
next
  case (step s1 s2)
  then obtain q where q: "pipe_reach cfg (ig_pipe s0) q" "same_but_dl (ig_pipe s1) q"
    by blast
  from ingest_step_refines [OF step(2)] show ?case
  proof
    assume "pipe_step cfg (ig_pipe s1) (ig_pipe s2)"
    then obtain q' where "pipe_step cfg q q'" "same_but_dl (ig_pipe s2) q'"
      using same_but_dl_step q(2) by blast
    then show ?thesis
      using q(1) by (meson rtranclp.rtrancl_into_rtrancl)
  next
    assume "same_but_dl (ig_pipe s2) (ig_pipe s1)"
    then show ?thesis
      using q same_but_dl_trans by blast
  qed
qed

lemma same_but_dl_sel:
  "same_but_dl p q \<Longrightarrow> p_sent p = p_sent q \<and> p_handed p = p_handed q \<and> p_written p = p_written q \<and> p_failed p = p_failed q
     \<and> p_bus p = p_bus q \<and> p_workers p = p_workers q \<and> p_sources p = p_sources q \<and> p_reg p = p_reg q \<and> p_done p = p_done q
     \<and> p_closed p = p_closed q \<and> p_returned p = p_returned q"
  by (auto simp: same_but_dl_def)

subsection \<open>What the steps inside leave alone\<close>

lemma inc_neq:
  "IncPollErrors 1 r \<noteq> r" "IncPollErrors 1 r \<noteq> IncIngested 1 r"
  "IncWritten n (IncBatches 1 r) \<noteq> r" "IncWritten n (IncBatches 1 r) \<noteq> IncIngested 1 r"
  "IncWriteErrors 1 r \<noteq> r" "IncWriteErrors 1 r \<noteq> IncIngested 1 r"
  by (cases r; simp add: inc_defs)+

lemma inside_frame:
  assumes "pipe_step cfg p p'" "inside_step p p'"
  shows "p_handed p' = p_handed p \<and> p_written p' = p_written p \<and> p_failed p' = p_failed p \<and> p_dl p' = p_dl p
    \<and> length (p_sources p') = length (p_sources p)"
  using assms
  by (cases rule: pipe_step.cases) (auto simp: inside_step_def inc_neq flush_ok_def flush_err_def Let_def sending_def)

subsection \<open>The points are named\<close>

fun pending_named :: "source_state \<Rightarrow> bool" where
  "pending_named (SSending pts) \<longleftrightarrow> list_all well_named pts"
| "pending_named _ \<longleftrightarrow> True"

definition named_points :: "pipe \<Rightarrow> bool" where
  "named_points p \<longleftrightarrow> list_all pending_named (p_sources p) \<and> list_all well_named (p_sent p)"

lemma inside_named:
  assumes "pipe_step cfg p p'" "inside_step p p'" "named_points p"
  shows "named_points p'"
  using assms(1)
proof cases
  case (poll i pts name)
  then show ?thesis using assms(2) by (auto simp: inside_step_def sending_def)
next
  case (send i pt pts)
  then show ?thesis
    using assms(3) list_all_at [of pending_named "p_sources p" i] by (auto simp: named_points_def intro!: list_all_update)
qed (use assms(3) in \<open>auto simp: named_points_def flush_ok_def flush_err_def Let_def intro!: list_all_update\<close>)

definition ready_inv :: "(string \<Rightarrow> nat \<Rightarrow> string) \<Rightarrow> ingest \<Rightarrow> bool" where
  "ready_inv sprintf s \<longleftrightarrow> length (ig_sources s) = length (p_sources (ig_pipe s)) \<and> list_all (built_ready sprintf) (ig_sources s)
     \<and> named_points (ig_pipe s)"

lemma ready_after_poll:
  assumes "ready_inv sprintf s" "i < length (p_sources (ig_pipe s))" "built_Poll sprintf w (ig_sources s ! i) = (c, res)"
  shows "list_all (built_ready sprintf) ((ig_sources s)[i := c])" "res = Inr pts \<Longrightarrow> list_all well_named pts"
proof -
  have r: "built_ready sprintf (ig_sources s ! i)"
    using assms(1,2) list_all_at [of "built_ready sprintf" "ig_sources s" i] by (simp add: ready_inv_def)
  show "list_all (built_ready sprintf) ((ig_sources s)[i := c])"
    using built_collector.stays_ready [OF r, of w] assms(1,3) by (auto simp: ready_inv_def intro!: list_all_update)
  show "res = Inr pts \<Longrightarrow> list_all well_named pts"
    using built_collector.named [OF r, of w pts] assms(3) by simp
qed

lemma step_ready:
  assumes "ingest_step sprintf every cfg s s'" "ready_inv sprintf s"
  shows "ready_inv sprintf s'"
  using assms(1)
proof cases
  case (inside p)
  then show ?thesis
    using assms(2) inside_frame [OF inside(2,3)] inside_named [OF inside(2,3)] by (simp add: ready_inv_def)
next
  case (polled i w c pts)
  then show ?thesis
    using assms(2) ready_after_poll(1) [OF assms(2) polled(2,4)] ready_after_poll(2) [OF assms(2) polled(2,4) refl]
    by (auto simp: ready_inv_def named_points_def intro!: list_all_update)
next
  case (poll_failed i w c err)
  then show ?thesis
    using assms(2) ready_after_poll(1) [OF assms(2) poll_failed(2,4)] by (simp add: ready_inv_def named_points_def)
qed (use assms(2) in \<open>simp_all add: ready_inv_def named_points_def\<close>)

subsection \<open>The wire carries the batches\<close>

text \<open>What a call puts on the wire: the whole text of a batch the sink took, a prefix of one it refused.\<close>

definition carried :: "sink_writer \<Rightarrow> sink_env \<times> data_point list \<times> string option \<Rightarrow> string \<Rightarrow> bool" where
  "carried snk call t \<longleftrightarrow> (case call of (ev, b, r) \<Rightarrow> (\<exists>n. t = take n (sink_rendering ev snk b)) \<and> (r = None \<longrightarrow> t = sink_rendering ev snk b))"

definition taken_of :: "sink_env \<times> data_point list \<times> string option \<Rightarrow> data_point list" where
  "taken_of call = (if snd (snd call) = None then fst (snd call) else [])"

definition refused_of :: "sink_env \<times> data_point list \<times> string option \<Rightarrow> data_point list" where
  "refused_of call = (if snd (snd call) = None then [] else fst (snd call))"

definition wire_inv :: "sink_writer \<Rightarrow> ingest \<Rightarrow> bool" where
  "wire_inv snk s \<longleftrightarrow> (\<exists>ts. sink_wire (ig_sink s) = sink_wire snk @ concat ts \<and> list_all2 (carried snk) (ig_calls s) ts)
     \<and> (\<forall>ev pts. sink_rendering ev (ig_sink s) pts = sink_rendering ev snk pts)"

definition calls_inv :: "ingest \<Rightarrow> bool" where
  "calls_inv s \<longleftrightarrow> p_handed (ig_pipe s) = concat (map (\<lambda>c. fst (snd c)) (ig_calls s))
     \<and> p_written (ig_pipe s) = concat (map taken_of (ig_calls s)) \<and> p_failed (ig_pipe s) = concat (map refused_of (ig_calls s))"

lemma wire_call:
  assumes "wire_inv snk s" "sink_WriteBatch ev b (ig_sink s) = (snk', r)" "ig_sink s' = snk'" "ig_calls s' = ig_calls s @ [(ev, b, r)]"
  shows "wire_inv snk s'"
proof -
  have same: "sink_rendering ev' (ig_sink s) pts = sink_rendering ev' snk pts" for ev' pts
    using assms(1) unfolding wire_inv_def by blast
  obtain ts where ts: "sink_wire (ig_sink s) = sink_wire snk @ concat ts" "list_all2 (carried snk) (ig_calls s) ts"
    using assms(1) by (auto simp: wire_inv_def)
  obtain n where n: "sink_wire snk' = sink_wire (ig_sink s) @ take n (sink_rendering ev snk b)"
    "r = None \<longrightarrow> take n (sink_rendering ev snk b) = sink_rendering ev snk b"
    using built_sink.written [of ev b "ig_sink s"] assms(2) by (auto simp: same)
  have "carried snk (ev, b, r) (take n (sink_rendering ev snk b))"
    using n(2) by (auto simp: carried_def)
  then have "list_all2 (carried snk) (ig_calls s') (ts @ [take n (sink_rendering ev snk b)])"
    using ts(2) by (simp add: assms(4) list_all2_appendI)
  moreover have "sink_wire (ig_sink s') = sink_wire snk @ concat (ts @ [take n (sink_rendering ev snk b)])"
    using ts(1) n(1) by (simp add: assms(3))
  moreover have "sink_rendering ev' (ig_sink s') pts = sink_rendering ev' snk pts" for ev' pts
    using built_sink.rendering_stable [of ev' ev b "ig_sink s" pts] assms(2,3) by (simp add: same)
  ultimately show ?thesis
    unfolding wire_inv_def by blast
qed

lemma Close_frame: "sink_wire (fst (sink_Close err s)) = sink_wire s" "sink_rendering ev (fst (sink_Close err s)) pts = sink_rendering ev s pts"
  by (cases s; simp add: log_Close_def Close_def null_Close_def on_wire_def questdb_rendering_def split: option.split)+

lemma step_wire:
  assumes "ingest_step sprintf every cfg s s'" "wire_inv snk s"
  shows "wire_inv snk s'"
  using assms(1)
proof cases
  case (taken j b stop ev snk')
  then show ?thesis using wire_call [OF assms(2) taken(4), of s'] by simp
next
  case (refused j b stop ev snk' e now)
  then show ?thesis using wire_call [OF assms(2) refused(4), of s'] by simp
qed (use assms(2) in \<open>simp_all add: wire_inv_def Close_frame\<close>)

lemma step_calls:
  assumes "ingest_step sprintf every cfg s s'" "calls_inv s"
  shows "calls_inv s'"
  using assms(1)
proof cases
  case (inside p)
  then show ?thesis using assms(2) inside_frame [OF inside(2,3)] by (simp add: calls_inv_def)
qed (use assms(2) in \<open>simp_all add: calls_inv_def taken_of_def refused_of_def\<close>)

subsection \<open>Dead letters are replayed in order\<close>

definition letters_inv :: "ingest \<Rightarrow> bool" where
  "letters_inv s \<longleftrightarrow> (case p_dl (ig_pipe s) of None \<Rightarrow> False
     | Some d \<Rightarrow> dl_wf d \<and> subseq (map dl_Point (ig_replayed s @ dl_items d)) (p_failed (ig_pipe s))
         \<and> (case dl_reg d of None \<Rightarrow> False | Some r \<Rightarrow> r_deadLetters r = of_nat (length (p_failed (ig_pipe s)))))"

lemma subseq_lastn: "subseq (lastn n xs) xs"
  unfolding lastn_def by (rule suffix_imp_subseq) (rule suffix_drop)

lemma letters_put:
  assumes "dl_wf d" "subseq (map dl_Point (rs @ dl_items d)) fs"
  shows "subseq (map dl_Point (rs @ dl_items (fold Put (map (\<lambda>pt. \<lparr>dl_Point = pt, dl_Error = e, dl_Attempted = now\<rparr>) b) d))) (fs @ b)"
proof -
  let ?ls = "map (\<lambda>pt. \<lparr>dl_Point = pt, dl_Error = e, dl_Attempted = now\<rparr>) b"
  have "subseq (rs @ lastn (dl_cap d) (dl_items d @ ?ls)) (rs @ dl_items d @ ?ls)"
    unfolding subseq_append' by (rule subseq_lastn)
  then have "subseq (map dl_Point (rs @ dl_items (fold Put ?ls d))) (map dl_Point (rs @ dl_items d @ ?ls))"
    unfolding Puts_items [OF assms(1)] by (rule subseq_map)
  also have "subseq (map dl_Point (rs @ dl_items d @ ?ls)) (fs @ b)"
    using list_emb_append_mono [OF assms(2), of b b] by (simp add: comp_def)
  finally show ?thesis .
qed

lemma step_letters:
  assumes "ingest_step sprintf every cfg s s'" "letters_inv s"
  shows "letters_inv s'"
  using assms(1)
proof cases
  case (inside p)
  then show ?thesis using assms(2) inside_frame [OF inside(2,3)] by (auto simp: letters_inv_def split: option.splits)
next
  case (refused j b stop ev snk e now)
  obtain d r where d: "p_dl (ig_pipe s) = Some d" "dl_wf d" "subseq (map dl_Point (ig_replayed s @ dl_items d)) (p_failed (ig_pipe s))"
    "dl_reg d = Some r" "r_deadLetters r = of_nat (length (p_failed (ig_pipe s)))"
    using assms(2) by (auto simp: letters_inv_def split: option.splits)
  show ?thesis
    using letters_put [OF d(2,3)] dl_log.wf_fold [OF d(2)] d(5)
    by (simp add: refused(1) letters_inv_def d(1,4) Puts_reg IncDeadLetters_def)
next
  case (replay d)
  then show ?thesis using assms(2) by (auto simp: letters_inv_def dl_wf_def split: option.splits)
qed (use assms(2) in \<open>auto simp: letters_inv_def split: option.splits\<close>)

subsection \<open>From the start of the command\<close>

lemma telemetry_main_parts:
  assumes "telemetry_main quote getenv fl = Up r"
  shows "buildCollectors quote getenv (if_mode fl) = Inr (in_collectors r) \<and> sink_wire (in_sink r) = [] \<and> cfg_ok (in_cfg r)
    \<and> in_pipe r = pipe_start (in_cfg r) (length (in_collectors r)) (Some (NewDeadLetterSink (Some NewRegistry) 4096))"
  using assms
  by (auto simp: telemetry_main_def Let_def New_pipeline_ok buildSink_def NewLogWriter_def NewQuestDB_def on_wire_def split: sum.splits)

lemma start_invs:
  assumes "telemetry_main quote getenv fl = Up r"
  shows "formats_index sprintf \<Longrightarrow> ready_inv sprintf (ingest_start r)" "wire_inv (in_sink r) (ingest_start r)"
    "calls_inv (ingest_start r)" "letters_inv (ingest_start r)"
proof -
  note parts = telemetry_main_parts [OF assms]
  show "ready_inv sprintf (ingest_start r)" if "formats_index sprintf"
    using parts buildCollectors_ready [OF that, of quote getenv "if_mode fl"]
    by (simp add: ready_inv_def ingest_start_def named_points_def pipe_start_def list_all_length)
  show "wire_inv (in_sink r) (ingest_start r)"
    by (auto simp: wire_inv_def ingest_start_def intro: exI [of _ "[]"])
  show "calls_inv (ingest_start r)"
    using parts by (simp add: calls_inv_def ingest_start_def pipe_start_def)
  show "letters_inv (ingest_start r)"
    using parts by (simp add: letters_inv_def ingest_start_def pipe_start_def NewDeadLetterSink_wf)
      (simp add: NewDeadLetterSink_def NewRegistry_def)
qed

lemma reach_invs:
  assumes "ingest_reach sprintf every cfg s0 s"
  shows "ready_inv sprintf s0 \<Longrightarrow> ready_inv sprintf s" "wire_inv snk s0 \<Longrightarrow> wire_inv snk s"
    "calls_inv s0 \<Longrightarrow> calls_inv s" "letters_inv s0 \<Longrightarrow> letters_inv s"
  using assms by (induction rule: rtranclp_induct) (simp_all add: step_ready step_wire step_calls step_letters)

lemma handed_sent:
  assumes "calls_inv s" "conserved (ig_pipe s)"
  shows "set (p_handed (ig_pipe s)) \<subseteq> set (p_sent (ig_pipe s))"
proof -
  have "set (fst (snd c)) = set (taken_of c) \<union> set (refused_of c)" for c
    by (cases "snd (snd c)") (simp_all add: taken_of_def refused_of_def)
  then have "set (p_handed (ig_pipe s)) = set (p_written (ig_pipe s)) \<union> set (p_failed (ig_pipe s))"
    using assms(1) by (simp add: calls_inv_def UN_Un_distrib)
  moreover have "mset (p_written (ig_pipe s)) + mset (p_failed (ig_pipe s)) \<subseteq># mset (p_sent (ig_pipe s))"
    using assms(2) by (simp add: conserved_def)
  then have "set (p_written (ig_pipe s)) \<union> set (p_failed (ig_pipe s)) \<subseteq> set (p_sent (ig_pipe s))"
    using set_mset_mono by fastforce
  ultimately show ?thesis by simp
qed

subsection \<open>The command can always stop\<close>

text \<open>A write in progress ends whatever the sink answers; a return closes the sink.\<close>

lemma flush_runs:
  assumes "j < length (p_workers (ig_pipe s))" "p_workers (ig_pipe s) ! j = WFlush b stop"
  shows "\<exists>s'. ingest_step sprintf every cfg s s' \<and> progress cfg (ig_pipe s) (ig_pipe s')"
proof -
  have changed: "(p_workers (ig_pipe s))[j := after_flush stop] \<noteq> p_workers (ig_pipe s)"
    using assms by (metis after_flush_def nth_list_update_eq worker_state.distinct(1,5))
  obtain snk res where call: "sink_WriteBatch undefined b (ig_sink s) = (snk, res)"
    by fastforce
  show ?thesis
  proof (cases res)
    case None
    have "progress cfg (ig_pipe s) ((flush_ok b (ig_pipe s))\<lparr>p_workers := (p_workers (ig_pipe s))[j := after_flush stop]\<rparr>)"
      by (intro progressI wrote [OF assms]) (simp_all add: changed)
    then show ?thesis
      using taken [OF assms, of undefined snk sprintf every cfg] call None by fastforce
  next
    case (Some e)
    have "progress cfg (ig_pipe s) ((flush_err e 0 b (ig_pipe s))\<lparr>p_workers := (p_workers (ig_pipe s))[j := after_flush stop]\<rparr>)"
      by (intro progressI write_failed [OF assms]) (simp_all add: changed)
    then show ?thesis
      using refused [OF assms, of undefined snk e sprintf every cfg 0] call Some by fastforce
  qed
qed

lemma progress_runs:
  assumes "progress cfg (ig_pipe s) p" "\<not> p_returned (ig_pipe s)"
  shows "\<exists>s'. ingest_step sprintf every cfg s s' \<and> progress cfg (ig_pipe s) (ig_pipe s')"
proof -
  have in_step: ?thesis if "inside_step (ig_pipe s) p"
    using inside [OF _ that, of cfg sprintf every] assms(1) by (intro exI [of _ "s\<lparr>ig_pipe := p\<rparr>"]) (simp add: progress_def)
  have "pipe_step cfg (ig_pipe s) p" "\<not> new_poll (ig_pipe s) p" "\<not> only_counts (ig_pipe s) p"
    using assms(1) by (simp_all add: progress_def)
  from this(1) show ?thesis
  proof cases
    case (poll i pts name)
    then show ?thesis using \<open>\<not> new_poll (ig_pipe s) p\<close> by (auto simp: new_poll_def)
  next
    case (poll_error i)
    then show ?thesis using \<open>\<not> only_counts (ig_pipe s) p\<close> by (simp add: only_counts_def)
  next
    case (wrote j b stop)
    then show ?thesis using flush_runs by blast
  next
    case (write_failed j b stop e now)
    then show ?thesis using flush_runs by blast
  next
    case return
    then have "ingest_step sprintf every cfg s (s\<lparr>ig_sink := fst (sink_Close None (ig_sink s)), ig_pipe := p\<rparr>)"
      using close_sink [of s sprintf every cfg None] assms(2) by simp
    then show ?thesis
      using assms(1) by (intro exI conjI) auto
  qed (rule in_step, simp add: inside_step_def sending_def nth_list_update)+
qed

lemma ingestion_can_stop:
  "p_done (ig_pipe s) \<Longrightarrow> \<exists>s'. ingest_reach sprintf every cfg s s' \<and> p_returned (ig_pipe s')"
proof (induction "run_weight (ig_pipe s)" arbitrary: s rule: less_induct)
  case less
  show ?case
  proof (cases "p_returned (ig_pipe s)")
    case True
    then show ?thesis by blast
  next
    case False
    then obtain t where t: "ingest_step sprintf every cfg s t" "progress cfg (ig_pipe s) (ig_pipe t)"
      using shutdown_progress [OF less.prems False] progress_runs by blast
    then obtain s' where "ingest_reach sprintf every cfg t s'" "p_returned (ig_pipe s')"
      using less.hyps [OF progress_weight [OF t(2)]] progress_done [OF t(2) less.prems] by blast
    then show ?thesis
      using t(1) by (meson converse_rtranclp_into_rtranclp)
  qed
qed

subsection \<open>What a database reads off the wire\<close>

lemma read_payload_then:
  "plain_name table \<Longrightarrow> list_all point_safe pts \<Longrightarrow>
   read_rows (length pts + k) (payload_from table clk i pts @ w) = map_option (\<lambda>rows. rows_from table clk i pts @ rows) (read_rows k w)"
  by (induction pts arbitrary: i; cases "read_rows k w"; simp add: line_stamp read_row_ilp)

text \<open>The rows of a call, and the readings they stand for.\<close>

definition call_rows :: "string \<Rightarrow> sink_env \<times> data_point list \<times> string option \<Rightarrow> ilp_row list" where
  "call_rows table call = rows_from table (e_clock (fst (fst call))) 0 (taken_of call)"

definition call_readings ::
  "string \<Rightarrow> sink_env \<times> data_point list \<times> string option \<Rightarrow> (string \<times> (string \<times> string) list \<times> string \<times> (f64 \<times> num_error option) \<times> int option) list" where
  "call_readings table call = readings_from table (e_clock (fst (fst call))) 0 (taken_of call)"

lemma carried_text:
  "carried (QuestSink q) call t \<Longrightarrow> refused_of call = [] \<Longrightarrow> t = payload_from (q_Table (q_cfg q)) (e_clock (fst (fst call))) 0 (taken_of call)"
  by (auto simp: carried_def refused_of_def taken_of_def questdb_rendering_def split: if_splits prod.splits)

lemma read_calls:
  assumes "list_all2 (carried (QuestSink q)) calls ts" "plain_name (q_Table (q_cfg q))"
    "concat (map refused_of calls) = []" "list_all point_safe (concat (map taken_of calls))"
  shows "read_rows (length (concat (map taken_of calls))) (concat ts) = Some (concat (map (call_rows (q_Table (q_cfg q))) calls))"
  using assms(1,3,4)
proof (induction rule: list_all2_induct)
  case Nil
  then show ?case by simp
next
  case (Cons c cs t ts)
  then have "t = payload_from (q_Table (q_cfg q)) (e_clock (fst (fst c))) 0 (taken_of c)"
    using carried_text [of q c t] by simp
  moreover have "list_all point_safe (taken_of c)"
    using Cons.prems(2) by simp
  ultimately show ?case
    using Cons.IH Cons.prems read_payload_then [OF assms(2), of "taken_of c"] by (simp add: call_rows_def)
qed

lemma decode_calls:
  "list_all (\<lambda>p. f64_finite (dp_Value p)) (concat (map taken_of calls)) \<Longrightarrow>
   map decode_row (concat (map (call_rows table) calls)) = concat (map (call_readings table) calls)"
  by (induction calls) (simp_all add: call_rows_def call_readings_def decode_rows)

subsection \<open>The load test\<close>

text \<open>The load test runs the same pipeline over synthetic sources and the null writer, logs every second, and
  once \<open>Run\<close> has returned logs the totals; it has no dead letters to replay.\<close>

definition loadtest_start :: "synthetic list \<times> config \<times> null_writer \<times> pipe \<Rightarrow> ingest" where
  "loadtest_start x = (case x of (cs, cfg, n, p) \<Rightarrow> \<lparr>ig_pipe = p, ig_sources = map BSynthetic cs, ig_sink = NullSink n, ig_calls = [],
     ig_replayed = [], ig_logged = []\<rparr>)"

definition loadtest_run :: "(string \<Rightarrow> nat \<Rightarrow> string) \<Rightarrow> config \<Rightarrow> ingest \<Rightarrow> ingest \<Rightarrow> bool" where
  "loadtest_run sprintf cfg = ingest_step sprintf (10 ^ 9) cfg"

definition loadtest_inv :: "ingest \<Rightarrow> bool" where
  "loadtest_inv s \<longleftrightarrow> (case ig_sink s of NullSink n \<Rightarrow> True | _ \<Rightarrow> False) \<and> p_failed (ig_pipe s) = [] \<and> p_dl (ig_pipe s) = None"

lemma loadtest_step:
  assumes "loadtest_run sprintf cfg s s'" "loadtest_inv s"
  shows "loadtest_inv s'"
  using assms(1) unfolding loadtest_run_def
proof cases
  case (inside p)
  then show ?thesis using assms(2) inside_frame [OF inside(2,3)] by (auto simp: loadtest_inv_def)
qed (use assms(2) in \<open>auto simp: loadtest_inv_def null_WriteBatch_def null_Close_def split: sink_writer.splits\<close>)

text \<open>The null writer refuses nothing: in a load test every point handed over is counted as written, and the
  totals differ only by what is still on the bus or in a batch.\<close>

lemma loadtest_counts:
  assumes "loadtest_main fl = Ret (cs, cfg, n, p)" "(loadtest_run sprintf cfg)\<^sup>*\<^sup>* (loadtest_start (cs, cfg, n, p)) s"
  shows "p_failed (ig_pipe s) = [] \<and> counted (ig_pipe s)
    \<and> mset (p_sent (ig_pipe s)) = mset (p_bus (ig_pipe s)) + in_batches (p_workers (ig_pipe s)) + mset (p_written (ig_pipe s))"
proof -
  have p: "p = pipe_start cfg (length cs) None" "cfg_ok cfg"
    using assms(1) loadtest_sources [OF assms(1)] by (auto simp: loadtest_main_def Let_def split: if_splits)
  have "loadtest_inv (loadtest_start (cs, cfg, n, p))"
    by (simp add: loadtest_inv_def loadtest_start_def p(1) pipe_start_def)
  with assms(2) have inv: "loadtest_inv s"
    by (induction rule: rtranclp_induct) (auto intro: loadtest_step)
  obtain q where q: "pipe_reach cfg p q" "same_but_dl (ig_pipe s) q"
    using ingest_simulated [OF assms(2) [unfolded loadtest_run_def]] by (auto simp: loadtest_start_def)
  have "counted q \<and> conserved q"
    using reach_inv [OF q(1) p(2), of None] start_inv [of cfg None "length cs"] p by simp
  then show ?thesis
    using inv same_but_dl_sel [OF q(2)] by (simp add: counted_def conserved_def loadtest_inv_def)
qed

subsection \<open>Properties\<close>

text \<open>C17. The running command refines the pipeline: whatever its collectors and its sink answer, and
  however the replay and the metrics logger interleave, every state the command reaches is one that
  the abstract pipeline reaches from the same start, up to the contents of the dead-letter sink. So
  what holds of the pipeline holds of the command: it conserves points, keeps its counters and bounds,
  and shuts down in order; and once its context is done the command can always come to its end.\<close>

theorem ingestion_refines_pipeline:
  assumes "telemetry_main quote getenv fl = Up r"
    and "ingest_reach sprintf (if_metrics fl) (in_cfg r) (ingest_start r) s"
  shows "(\<exists>q d. pipe_reach (in_cfg r) (in_pipe r) q \<and> q = (ig_pipe s)\<lparr>p_dl := d\<rparr>)
    \<and> counted (ig_pipe s) \<and> conserved (ig_pipe s) \<and> bounded (in_cfg r) (ig_pipe s) \<and> shut (ig_pipe s)
    \<and> (if p_done (ig_pipe s) then \<exists>s'. ingest_reach sprintf (if_metrics fl) (in_cfg r) s s' \<and> p_returned (ig_pipe s') else True)"
proof -
  note parts = telemetry_main_parts [OF assms(1)]
  obtain q where q: "pipe_reach (in_cfg r) (in_pipe r) q" "same_but_dl (ig_pipe s) q"
    using ingest_simulated [OF assms(2)] by (auto simp: ingest_start_def)
  have "counted q \<and> conserved q \<and> bounded (in_cfg r) q \<and> shut q"
    using reach_inv [OF q(1), of "Some (NewDeadLetterSink (Some NewRegistry) 4096)"]
      start_inv [of "in_cfg r" "Some (NewDeadLetterSink (Some NewRegistry) 4096)"] parts by (simp add: NewDeadLetterSink_wf)
  moreover have "counted (ig_pipe s) = counted q" "conserved (ig_pipe s) = conserved q" "bounded (in_cfg r) (ig_pipe s) = bounded (in_cfg r) q"
    "shut (ig_pipe s) = shut q"
    using same_but_dl_sel [OF q(2)] by (simp_all add: counted_def conserved_def bounded_def shut_def)
  moreover have "\<exists>q d. pipe_reach (in_cfg r) (in_pipe r) q \<and> q = (ig_pipe s)\<lparr>p_dl := d\<rparr>"
    using q by (auto simp: same_but_dl_def)
  ultimately show ?thesis
    by (simp add: ingestion_can_stop)
qed

text \<open>C13. Ingestion is right end to end: in every state of the running command, what went out on the sink's
  connection is, call by call and in the order of the calls, the whole text of each batch the sink
  took and a prefix of the text of each it refused; the batches are the points handed over, and every
  one of them names its device, sensor and metric with the metric's unit; the points replayed as dead
  letters, followed by those still buffered, are refused points in the order of their refusal, each at
  most once; and the dead-letter counter is the number of refused points.\<close>

theorem ingestion_end_to_end:
  assumes "formats_index sprintf" and "telemetry_main quote getenv fl = Up r"
    and "ingest_reach sprintf (if_metrics fl) (in_cfg r) (ingest_start r) s"
  shows "(\<exists>ts. sink_wire (ig_sink s) = concat ts \<and> list_all2 (carried (in_sink r)) (ig_calls s) ts)
    \<and> p_handed (ig_pipe s) = concat (map (\<lambda>c. fst (snd c)) (ig_calls s)) \<and> p_written (ig_pipe s) = concat (map taken_of (ig_calls s))
    \<and> p_failed (ig_pipe s) = concat (map refused_of (ig_calls s)) \<and> list_all well_named (p_handed (ig_pipe s))
    \<and> (\<exists>d. p_dl (ig_pipe s) = Some d \<and> subseq (map dl_Point (ig_replayed s @ dl_items d)) (p_failed (ig_pipe s)))
    \<and> r_deadLetters (all_counters (ig_pipe s)) = of_nat (length (p_failed (ig_pipe s)))"
proof -
  note parts = telemetry_main_parts [OF assms(2)]
  have ready: "ready_inv sprintf s" and wire: "wire_inv (in_sink r) s" and calls: "calls_inv s" and letters: "letters_inv s"
    using reach_invs [OF assms(3)] start_invs [OF assms(2)] assms(1) by blast+
  obtain q where q: "pipe_reach (in_cfg r) (in_pipe r) q" "same_but_dl (ig_pipe s) q"
    using ingest_simulated [OF assms(3)] by (auto simp: ingest_start_def)
  have "conserved q"
    using reach_inv [OF q(1), of "Some (NewDeadLetterSink (Some NewRegistry) 4096)"]
      start_inv [of "in_cfg r" "Some (NewDeadLetterSink (Some NewRegistry) 4096)"] parts by (simp add: NewDeadLetterSink_wf)
  then have "conserved (ig_pipe s)"
    using same_but_dl_sel [OF q(2)] by (simp add: conserved_def)
  then have "list_all well_named (p_handed (ig_pipe s))"
    using ready handed_sent [OF calls] by (auto simp: ready_inv_def named_points_def list_all_iff)
  moreover have "\<exists>ts. sink_wire (ig_sink s) = concat ts \<and> list_all2 (carried (in_sink r)) (ig_calls s) ts"
    using wire parts by (simp add: wire_inv_def)
  moreover have "\<exists>d. p_dl (ig_pipe s) = Some d \<and> subseq (map dl_Point (ig_replayed s @ dl_items d)) (p_failed (ig_pipe s))"
    "r_deadLetters (all_counters (ig_pipe s)) = of_nat (length (p_failed (ig_pipe s)))"
    using letters by (auto simp: letters_inv_def all_counters_def split: option.splits)
  ultimately show ?thesis
    using calls by (simp add: calls_inv_def)
qed

text \<open>C14. What is ingested can be read back: when the command writes to QuestDB and no batch has been
  refused, everything on its connection, read by the rules of the line protocol, is one reading per
  point written, batch after batch in the order of the calls, with the point's table, tags, 64-bit
  value and timestamp, provided that the values are finite and no name holds a backslash or a newline.\<close>

theorem ingestion_reads_back:
  assumes "telemetry_main quote getenv fl = Up r" and "in_sink r = QuestSink q" and "plain_name (q_Table (q_cfg q))"
    and "ingest_reach sprintf (if_metrics fl) (in_cfg r) (ingest_start r) s" and "p_failed (ig_pipe s) = []"
    and "list_all point_safe (p_written (ig_pipe s))" and "list_all (\<lambda>p. f64_finite (dp_Value p)) (p_written (ig_pipe s))"
  shows "\<exists>rows. read_rows (length (p_written (ig_pipe s))) (sink_wire (ig_sink s)) = Some rows
    \<and> map decode_row rows = concat (map (call_readings (q_Table (q_cfg q))) (ig_calls s))
    \<and> p_written (ig_pipe s) = concat (map taken_of (ig_calls s))"
proof -
  have wire: "wire_inv (QuestSink q) s" and calls: "calls_inv s"
    using reach_invs(2,3) [OF assms(4)] start_invs(2,3) [OF assms(1)] by (simp_all add: assms(2))
  have w: "p_written (ig_pipe s) = concat (map taken_of (ig_calls s))" "concat (map refused_of (ig_calls s)) = []"
    using calls assms(5) by (simp_all add: calls_inv_def)
  obtain ts where "sink_wire (ig_sink s) = concat ts" "list_all2 (carried (QuestSink q)) (ig_calls s) ts"
    using wire telemetry_main_parts [OF assms(1)] by (auto simp: wire_inv_def assms(2))
  then show ?thesis
    using read_calls [OF _ assms(3) w(2), of ts] assms(6,7) decode_calls [of "ig_calls s" "q_Table (q_cfg q)"] by (simp add: w(1))
qed

text \<open>A run of the real mode: the Redfish source reads one point, which one worker writes to the sink.\<close>

definition demo_ingest_flags :: "string \<Rightarrow> ingest_flags" where
  "demo_ingest_flags kind = \<lparr>if_mode = ''real'', if_questdb = [], if_sink = kind, if_table = [], if_workers = 1, if_batch = 1,
     if_batch_timeout = 1, if_buf = 1, if_poll = 1, if_metrics = 0\<rparr>"

definition demo_sprintf :: "string \<Rightarrow> nat \<Rightarrow> string" where
  "demo_sprintf f i = take (length f - 2) f @ show_nat i"

definition demo_point :: data_point where
  "demo_point = New_point ''chassis:1'' ''thermal:Inlet'' MetricTemperature 0 5"

definition demo_redfish :: built_source where
  "demo_redfish = BRedfish (NewRedfish \<lparr>rc_BaseURL = [], rc_Username = [], rc_Password = [], rc_Chassis = [''1'']\<rparr>)"

lemma demo_formats: "formats_index demo_sprintf"
  by (simp add: formats_index_def demo_sprintf_def)

lemma demo_poll: "built_Poll demo_sprintf quiet_world demo_redfish = (demo_redfish, Inr [demo_point])"
  by (simp add: demo_redfish_def demo_point_def redfish_Poll_def NewRedfish_def redfish_get_def quiet_world_def bmc_answer_def decode_members_def
      get_field_def chassis_path_def member_points_def)

text \<open>The states: polled, sent, received, written.\<close>

definition demo_polled :: "ingest \<Rightarrow> ingest" where
  "demo_polled s = s\<lparr>ig_sources := (ig_sources s)[0 := demo_redfish], ig_pipe := (ig_pipe s)\<lparr>p_reg := IncSource ''redfish'' 1 (p_reg (ig_pipe s)),
     p_sources := (p_sources (ig_pipe s))[0 := SSending [demo_point]]\<rparr>\<rparr>"

definition demo_sent :: "ingest \<Rightarrow> ingest" where
  "demo_sent s = s\<lparr>ig_pipe := (ig_pipe s)\<lparr>p_bus := p_bus (ig_pipe s) @ [demo_point], p_sent := p_sent (ig_pipe s) @ [demo_point],
     p_reg := IncIngested 1 (p_reg (ig_pipe s)), p_sources := (p_sources (ig_pipe s))[0 := SSending []]\<rparr>\<rparr>"

definition demo_received :: "ingest \<Rightarrow> ingest" where
  "demo_received s = s\<lparr>ig_pipe := (ig_pipe s)\<lparr>p_bus := [], p_workers := (p_workers (ig_pipe s))[0 := WFlush [demo_point] False]\<rparr>\<rparr>"

definition demo_env :: sink_env where
  "demo_env = (\<lparr>e_dial = None, e_setdl = None, e_write = None, e_ctx = None, e_now = 5, e_clock = (\<lambda>i. 5)\<rparr>, None)"

definition demo_written :: "ingest \<Rightarrow> ingest" where
  "demo_written s = s\<lparr>ig_sink := fst (sink_WriteBatch demo_env [demo_point] (ig_sink s)), ig_calls := [(demo_env, [demo_point], None)],
     ig_pipe := (flush_ok [demo_point] (ig_pipe s))\<lparr>p_workers := (p_workers (ig_pipe s))[0 := WRun []]\<rparr>\<rparr>"

lemma demo_run:
  "\<exists>r. telemetry_main id (\<lambda>k. []) (demo_ingest_flags kind) = Up r \<and> in_sink r = buildSink kind [] []
     \<and> ingest_reach demo_sprintf 0 (in_cfg r) (ingest_start r) (demo_written (demo_received (demo_sent (demo_polled (ingest_start r)))))"
proof -
  obtain r where r: "telemetry_main id (\<lambda>k. []) (demo_ingest_flags kind) = Up r"
    by (simp add: telemetry_main_def demo_ingest_flags_def buildCollectors_def Let_def)
  have snk: "in_sink r = buildSink kind [] []" and cfg: "in_cfg r = \<lparr>IngestBuffer = 1, Workers = 1, BatchSize = 1, BatchTimeout = 1, PollInterval = 1\<rparr>"
    and src: "in_collectors r ! 0 = demo_redfish" "length (in_collectors r) = 3"
    using r by (auto simp: telemetry_main_def demo_ingest_flags_def buildCollectors_def Let_def New_pipeline_def demo_redfish_def)
  note pipe = telemetry_main_parts [OF r, THEN conjunct2, THEN conjunct2, THEN conjunct2]
  let ?s0 = "ingest_start r"
  let ?s1 = "demo_polled ?s0"
  let ?s2 = "demo_sent ?s1"
  let ?s3 = "demo_received ?s2"
  note st = ingest_start_def pipe pipe_start_def cfg src demo_polled_def demo_sent_def demo_received_def demo_written_def
  have "ingest_step demo_sprintf 0 (in_cfg r) ?s0 ?s1"
    using polled [of 0 ?s0 demo_sprintf quiet_world demo_redfish "[demo_point]" 0 "in_cfg r"] demo_poll
    by (simp add: st demo_redfish_def redfish_Name_def)
  moreover have "ingest_step demo_sprintf 0 (in_cfg r) ?s1 ?s2"
    using pipe_step.send [of 0 "ig_pipe ?s1" demo_point "[]" "in_cfg r"] inside [of "in_cfg r" ?s1 "ig_pipe ?s2" demo_sprintf 0]
    by (simp add: st inside_step_def sending_def nth_list_update)
  moreover have "ingest_step demo_sprintf 0 (in_cfg r) ?s2 ?s3"
    using pipe_step.recv [of 0 "ig_pipe ?s2" "[]" demo_point "[]" "in_cfg r"] inside [of "in_cfg r" ?s2 "ig_pipe ?s3" demo_sprintf 0]
    by (simp add: st inside_step_def sending_def received_def nth_list_update)
  moreover have "ingest_step demo_sprintf 0 (in_cfg r) ?s3 (demo_written ?s3)"
    using taken [of 0 ?s3 "[demo_point]" False demo_env _ demo_sprintf 0 "in_cfg r"]
    by (simp add: st after_flush_def snk buildSink_def demo_env_def log_WriteBatch_def WriteBatch_def dial_conn_def send_payload_def
        NewQuestDB_def Let_def)
  ultimately have "ingest_reach demo_sprintf 0 (in_cfg r) ?s0 (demo_written ?s3)"
    by (meson r_into_rtranclp rtranclp.rtrancl_into_rtrancl)
  then show ?thesis
    using r snk by blast
qed

theorem ingestion_refines_pipeline_witness:
  "\<exists>r q. telemetry_main id (\<lambda>k. []) (demo_ingest_flags ''log'') = Up r \<and> pipe_reach (in_cfg r) (in_pipe r) q \<and> p_written q = [demo_point]"
proof -
  obtain r where r: "telemetry_main id (\<lambda>k. []) (demo_ingest_flags ''log'') = Up r"
    "ingest_reach demo_sprintf (if_metrics (demo_ingest_flags ''log'')) (in_cfg r) (ingest_start r) (demo_written (demo_received (demo_sent (demo_polled (ingest_start r)))))"
    using demo_run [of "''log''"] by (auto simp: demo_ingest_flags_def buildSink_def)
  have "p_written (in_pipe r) = []"
    using telemetry_main_parts [OF r(1)] by (simp add: pipe_start_def)
  then show ?thesis
    using ingestion_refines_pipeline [OF r] r(1)
    by (auto simp: demo_written_def demo_received_def demo_sent_def demo_polled_def ingest_start_def)
qed

theorem ingestion_end_to_end_witness:
  "\<exists>r s. ingest_reach demo_sprintf 0 (in_cfg r) (ingest_start r) s
     \<and> sink_wire (ig_sink s) = sink_rendering demo_env (LogSink (NewLogWriter [])) [demo_point]"
proof -
  obtain r where r: "telemetry_main id (\<lambda>k. []) (demo_ingest_flags ''log'') = Up r" "in_sink r = LogSink (NewLogWriter [])"
    "ingest_reach demo_sprintf (if_metrics (demo_ingest_flags ''log'')) (in_cfg r) (ingest_start r) (demo_written (demo_received (demo_sent (demo_polled (ingest_start r)))))"
    using demo_run [of "''log''"] by (auto simp: demo_ingest_flags_def buildSink_def)
  let ?s = "demo_written (demo_received (demo_sent (demo_polled (ingest_start r))))"
  have "ig_calls ?s = [(demo_env, [demo_point], None)]"
    by (simp add: demo_written_def)
  then obtain ts where "sink_wire (ig_sink ?s) = concat ts" "list_all2 (carried (LogSink (NewLogWriter []))) [(demo_env, [demo_point], None)] ts"
    using ingestion_end_to_end [OF demo_formats r(1) r(3)] by (auto simp: r(2))
  then have "sink_wire (ig_sink ?s) = sink_rendering demo_env (LogSink (NewLogWriter [])) [demo_point]"
    by (auto simp: list_all2_Cons1 carried_def)
  moreover have "ingest_reach demo_sprintf 0 (in_cfg r) (ingest_start r) ?s"
    using r(3) by (simp add: demo_ingest_flags_def)
  ultimately show ?thesis by blast
qed

theorem ingestion_reads_back_witness:
  "\<exists>r s rows. in_sink r = QuestSink (NewQuestDB \<lparr>q_Address = [], q_Table = []\<rparr>) \<and> ingest_reach demo_sprintf 0 (in_cfg r) (ingest_start r) s
     \<and> read_rows 1 (sink_wire (ig_sink s)) = Some rows \<and> map decode_row rows = [reading_of ''readings'' 5 demo_point]"
proof -
  let ?q = "NewQuestDB \<lparr>q_Address = [], q_Table = []\<rparr>"
  obtain r where r: "telemetry_main id (\<lambda>k. []) (demo_ingest_flags ''questdb'') = Up r" "in_sink r = QuestSink ?q"
    "ingest_reach demo_sprintf (if_metrics (demo_ingest_flags ''questdb'')) (in_cfg r) (ingest_start r) (demo_written (demo_received (demo_sent (demo_polled (ingest_start r)))))"
    using demo_run [of "''questdb''"] by (auto simp: demo_ingest_flags_def buildSink_def)
  let ?s = "demo_written (demo_received (demo_sent (demo_polled (ingest_start r))))"
  have q: "q_Table (q_cfg ?q) = ''readings''"
    by (simp add: NewQuestDB_def)
  have plain: "plain_name (q_Table (q_cfg ?q))"
    by (simp add: q plain_name_def ilp_stop_def ilp_special_def)
  have w: "p_written (ig_pipe ?s) = [demo_point]" "p_failed (ig_pipe ?s) = []" "ig_calls ?s = [(demo_env, [demo_point], None)]"
    using telemetry_main_parts [OF r(1)]
    by (simp_all add: pipe_start_def demo_written_def demo_received_def demo_sent_def demo_polled_def ingest_start_def)
  have "list_all point_safe [demo_point]" "list_all (\<lambda>p. f64_finite (dp_Value p)) [demo_point]"
    by (simp_all add: point_safe_def tag_safe_def demo_point_def New_point_def f64_eval)
  then obtain rows where "read_rows 1 (sink_wire (ig_sink ?s)) = Some rows" "map decode_row rows = [reading_of ''readings'' 5 demo_point]"
    using ingestion_reads_back [OF r(1,2) plain r(3)] by (auto simp: w q call_readings_def taken_of_def demo_env_def)
  moreover have "ingest_reach demo_sprintf 0 (in_cfg r) (ingest_start r) ?s"
    using r(3) by (simp add: demo_ingest_flags_def)
  ultimately show ?thesis
    using r(2) by (intro exI [of _ r] exI [of _ ?s] exI [of _ rows] conjI)
qed

end
