(* ===== verification/Spec2Isabelle.thy ===== *)
theory Spec2Isabelle
  imports Control_Server Orchestrator_Server Hardware Pipeline Writer QuestDB_Server Topology_File Collectors
    Api_Cmd Telemetry_Cmd Dashboard Pipeline_Shutdown Service_Run Commands_Run Ingest_Run
begin

text \<open>
  A verification development for the Go services of TPT DataCenter.

  The program. Six services and an ingestion pipeline run a data center. api/cmd/control is the
  manual override of the actuators, api/cmd/orchestrator routes intents to the edge behind a
  policy, api/cmd/hardware drives BMCs and resolves power caps from the stress of the grid,
  go-telemetry/cmd/api queries the time-series database, go-telemetry/cmd/topology serves the graph
  of the plant, and dashboard/cmd/dashboard puts the five behind one origin. go-telemetry/cmd polls
  collectors (Redfish, Modbus TCP, IPMI, synthetic), batches their points in a pipeline with workers
  and writes them to the database by its line protocol.

  How it is modelled. A Go struct is a record, an operation under its mutex a function from the old
  to the new state; a handler maps a request and the state to the state and a response; an error is
  its text in a sum or option type, a panic is the value Panic. float64 is its bit pattern with
  IEEE arithmetic written out, the other machine integers are words, Go's int is int or nat where no
  overflow can occur, strings are byte strings. What lies outside the program (the clock, a map's
  iteration order, the network, the database, the file system, the output of a tool, the text that
  %q makes of a string) is an argument, usually a record named after its world. Where goroutines
  interleave (concurrent submits, the pipeline, the drain of the dead letters) the model is a step
  relation with one rule per critical section or channel operation.

  The theories, with the files they translate.
    Prelude: windows of lists, byte strings, big-endian integers, decimal text; the result type.
    Go_Float, Go_Strconv, Go_Format, Go_Text, Go_Time, Go_Json, Go_Http: what the code uses of Go's
      library: float64, number parsing and formatting, strings and runes, time.Parse, the decoding
      of JSON values into structs and slices, the middleware every server has.
    Bounded_Log: the contract of the capped logs (audits, dead letters).
    Control_Store, Control_Server: api/internal/control/state.go and server.go.
    Orchestrator, Orchestrator_Server: api/internal/orchestration/orchestrator.go, helpers.go and
      server.go, with the in-memory sink and the interleaving of submits.
    Hardware: api/internal/hardware (Redfish and IPMI clients, throttling, audit, the API).
    Point, Metrics, Pipeline: go-telemetry/internal/point, metrics and pipeline.
    Writer: go-telemetry/internal/writer (QuestDB line protocol, log and null writers).
    QuestDB_Client, QuestDB_Server: go-telemetry/internal/questdb (client, schema, retention, API).
    Topology, Topology_File, Topology_Server: go-telemetry/internal/topology (graph, model and
      author; the document on disk; the API).
    Modbus, Collectors: go-telemetry/internal/collector.
    Startup, Api_Cmd, Telemetry_Cmd: the commands, from their flags to what serves; Startup holds the
      guard against unauthenticated starts that five of them repeat.
    Dashboard: dashboard/cmd/dashboard, composed with the handler chains of the five services.
    Service_Run: the end of every command's main (Start in a goroutine, the wait, Shutdown with its
      deadline) and the Start and Shutdown of the servers, as steps over any handler chain.
    Commands_Run: the six commands running, each an instance of it, with the monitor of the hardware
      service and the maintenance loop of the query API.
    Pipeline_Shutdown: the end of the pipeline's Run.
    Ingest_Run: the ingestion command and the load test running, that is the pipeline with the
      collectors and the sink they build, replayDeadLetters and logMetrics.

  Interfaces are locales, and each is interpreted on the code's own definitions: bounded_log and
  sequenced_log (the four logs), token_checked and guarded_service (the five servers), hal_sink (the
  orchestrator's sink), ts_writer (the three writers and the one the command builds),
  telemetry_collector (the four collectors and the one the command builds) and kept_by_service (an
  invariant of the handlers and the background loop of a command that serves, for each of the six).

  What the theorems show, by component. Control: the safety envelope and the latch as invariants of
  every sequence of operations and requests, the audit of every change, the effect and status of an
  override on every branch, the devices of the service as it is started. Orchestrator: what reaches
  the sink respects the policy, one audit entry per intent, the two-person rule, agreement of the
  audit with the simulated devices, the same under interleaving. Hardware: monotone throttling,
  which actions are audited. Telemetry: round trips of the binary frame, the line protocol (floats
  to the bit), Modbus registers and the topology document; conservation, bounds and order in the
  pipeline; statements of the query API keep request values inside literals; a maintenance run
  drops nothing before its rollups were accepted. Topology: the chains are reachability, the graph
  invariant, discovery only adds. Commands: every point a built collector yields is well named and
  encodes; the running ingestion refines the pipeline and can always end, what its sink puts on the
  wire is the text of the batches it was handed, and a database reads it back as the points written; the plant, started by the five commands and served through the
  dashboard and directly at once, stays inside its invariants until it stops; the query API sends the
  database only what was asked for; a service shuts down gracefully; and here, in the root, the
  services and the dashboard fail closed.
  Some theorems and lemmas state where the code departs from what it means to do (a lost wake-up, points
  left on the bus at shutdown, the layout of a Modbus answer, starts the documentation gives and the
  guard refuses).

  Termination and bounds. Every function is total: recursion is structural or has a measure; the
  breadth-first search decreases the nodes not seen and then its queue, the text scanners the
  length of their input. The reader of the line protocol is told how many lines and tags to read, and
  the theorem gives it exactly the batch. The search for the shortest decimal of a float ends because
  the least place is exact. The pipeline, the drain and the running commands are step relations
  without fuel. That the pipeline's Run returns is proved by a weight: after the cancellation every
  step that does not start a poll or only counts lowers it, and until Run has returned there is such a
  step. The same holds of a command's shutdown once its listener is closed.

  Not modelled: parsing of flags (their defaults are definitions), sockets below net/http, the log lines other than those of the
  shutdown, the metrics and the dead letters, the tokenizer of JSON (a body is its value, or none),
  the static file server and url.Parse (arguments), Point.MarshalJSON (one library call), Trace (it
  only logs, and nothing calls it), the generated protobuf bindings, and the parts in other
  languages: rust-edge and ai-brain (Rust) and the browser code of the dashboard. A Submit is one step
  of the running orchestrator; the interleaving of its critical sections is in Orchestrator_Server.
  The guard of the start, writeJSON and the token check, which several packages repeat, are modelled
  once.
\<close>

subsection \<open>The five services and the dashboard\<close>

lemma started_no_token:
  assumes "control_main quote clock path src fc = Serving (pg_control cfg, c0)"
    and "orchestrator_main quote two fo = Serving (pg_orchestrator cfg, o0)"
    and "hardware_main quote getenv now w crit fh = Serving (fst (pg_hardware cfg), snd (pg_hardware cfg), h0)"
    and "topology_main quote doc qv ft hist = (hist', Up (pg_topology cfg, g0))"
    and "api_main quote qv fq hist = (hist'', Up (c, pg_query cfg, tick))"
    and "exposed fc" "exposed fo" "exposed fh" "exposed ft" "exposed fq"
    and "trim_prefix (rq_auth rq) ''Bearer '' \<notin> {sf_token fc, sf_token fo, sf_token fh, sf_token ft, sf_token fq}"
  shows "no_token cfg rq"
proof -
  have "authToken (pg_control cfg) = sf_token fc \<and> sf_token fc \<noteq> []"
    using guarded_start_exposed [OF assms(1) [unfolded control_main_def] assms(6)] by (auto simp: prod_eq_iff)
  moreover have "os_authToken (pg_orchestrator cfg) = sf_token fo \<and> sf_token fo \<noteq> []"
    using guarded_start_exposed [OF assms(2) [unfolded orchestrator_main_def] assms(7)] by (auto simp: prod_eq_iff)
  moreover have "hw_authToken (fst (pg_hardware cfg)) = sf_token fh \<and> sf_token fh \<noteq> []"
    using guarded_start_exposed [OF assms(3) [unfolded hardware_main_def] assms(8)] by (auto simp: prod_eq_iff)
  moreover have "pg_topology cfg = sf_token ft \<and> sf_token ft \<noteq> []"
    using topology_main_Up [OF assms(4)] assms(9) by (auto simp: exposed_def)
  moreover have "pg_query cfg = sf_token fq \<and> sf_token fq \<noteq> []"
    using api_main_Up [OF assms(5)] assms(10) by (auto simp: exposed_def)
  ultimately show ?thesis
    using assms(11) by (simp add: no_token_def cfg_tokens_def)
qed

text \<open>C4. The services fail closed: when all five have been started on addresses other hosts can reach,
  without the insecure flag, a request whose bearer token is none of theirs changes nothing of the plant
  (devices, sinks and audits, the calls to BMCs, the graph, the statements sent to the database),
  neither sent to a service, except for the ping of the query API's health check, nor sent through the
  dashboard, whatever its upstreams and links.\<close>

theorem services_fail_closed:
  assumes "control_main quote clock path src fc = Serving (pg_control cfg, c0)"
    and "orchestrator_main quote two fo = Serving (pg_orchestrator cfg, o0)"
    and "hardware_main quote getenv now w crit fh = Serving (fst (pg_hardware cfg), snd (pg_hardware cfg), h0)"
    and "topology_main quote doc qv ft hist = (hist', Up (pg_topology cfg, g0))"
    and "api_main quote qv fq hist = (hist'', Up (c, pg_query cfg, tick))"
    and "exposed fc" "exposed fo" "exposed fh" "exposed ft" "exposed fq"
    and "trim_prefix (rq_auth rq) ''Bearer '' \<notin> {sf_token fc, sf_token fo, sf_token fh, sf_token ft, sf_token fq}"
  shows "((s = STelemetry \<and> rq_path rq = ''/health'') \<or> fst (serve_at cfg ev s rq pl) = pl)
    \<and> fst (dashboard files ups links (serve_at cfg ev) rq pl) = pl"
  using serve_at_frame [of cfg rq s ev pl] dashboard_frame [of cfg rq files ups links ev pl] started_no_token [OF assms]
  by blast

theorem services_fail_closed_witness:
  "\<forall>ev links pl. fst (dashboard (\<lambda>rq. not_found) (\<lambda>s. \<lparr>us_Host = ''plant'', us_Path = []\<rparr>) links
     (serve_at \<lparr>pg_control = \<lparr>authToken = ''t'', cors = []\<rparr>, pg_orchestrator = \<lparr>os_authToken = ''t'', os_cors = []\<rparr>,
        pg_hardware = (\<lparr>hw_authToken = ''t'', hw_cors = []\<rparr>, hardware_manager (\<lambda>k. []) 0 []), pg_topology = ''t'', pg_query = ''t''\<rparr> ev)
     \<lparr>rq_method = ''POST'', rq_path = ''/hw/power'', rq_auth = ''Bearer guess'', rq_query = (\<lambda>_. []),
      rq_body = Some (JObj [(''server'', JStr ''srv1''), (''action'', JStr ''off'')])\<rparr> pl) = pl"
proof (intro allI)
  fix ev :: plant_env and links :: "service \<Rightarrow> link" and pl :: plant
  let ?cfg = "\<lparr>pg_control = \<lparr>authToken = ''t'', cors = []\<rparr>, pg_orchestrator = \<lparr>os_authToken = ''t'', os_cors = []\<rparr>,
        pg_hardware = (\<lparr>hw_authToken = ''t'', hw_cors = []\<rparr>, hardware_manager (\<lambda>k. []) 0 []), pg_topology = ''t'', pg_query = ''t''\<rparr>"
  let ?rq = "\<lparr>rq_method = ''POST'', rq_path = ''/hw/power'', rq_auth = ''Bearer guess'', rq_query = (\<lambda>_. []),
      rq_body = Some (JObj [(''server'', JStr ''srv1''), (''action'', JStr ''off'')])\<rparr>"
  let ?fl = "\<lparr>sf_addr = '':8082'', sf_token = ''t'', sf_insecure = False, af_cors = []\<rparr>"
  let ?ft = "\<lparr>sf_addr = '':8082'', sf_token = ''t'', sf_insecure = False, tf_spec = [], tf_questdb = [], tf_discover = False\<rparr>"
  let ?fq = "\<lparr>sf_addr = '':8082'', sf_token = ''t'', sf_insecure = False, qf_questdb = [], qf_apply = False, qf_maintenance = False,
    qf_every = 0, qf_raw = [], qf_rollup = []\<rparr>"
  have "control_main id (\<lambda>i. 0) [] (SeedUnreadable []) ?fl = Serving (pg_control ?cfg, fst (seed (\<lambda>i. 0) [] (SeedUnreadable []) (NewStore DefaultLimits)))"
    by (simp add: control_main_def guarded_start_Serving)
  moreover have "orchestrator_main id False ?fl = Serving (pg_orchestrator ?cfg, New (DefaultPolicy\<lparr>RequireTwoPerson := False\<rparr>), NewSimSink)"
    by (simp add: orchestrator_main_def guarded_start_Serving)
  moreover have "hardware_main id (\<lambda>k. []) 0 0 [] ?fl = Serving (fst (pg_hardware ?cfg), snd (pg_hardware ?cfg),
      \<lparr>hs_latest = NewGridStressMonitor 0, hs_audit = Some NewAuditLog, hs_sent = []\<rparr>)"
    by (simp add: hardware_main_def guarded_start_Serving)
  moreover have "topology_main id (Inl []) (qe_db (pe_query ev)) ?ft [] = ([], Up (pg_topology ?cfg, NewGraph))"
    by (simp add: topology_main_def requireAuthOrLoopback_def)
  moreover have "api_main id (qe_db (pe_query ev)) ?fq [] = ([], Up (NewClient [], pg_query ?cfg, False))"
    by (simp add: api_main_def guarded_start_def requireAuthOrLoopback_def)
  moreover have "exposed ?fl" "exposed ?fl" "exposed ?fl" "exposed ?ft" "exposed ?fq"
    by (simp_all add: exposed_def loopback_examples(1))
  moreover have "trim_prefix (rq_auth ?rq) ''Bearer '' \<notin> {sf_token ?fl, sf_token ?fl, sf_token ?fl, sf_token ?ft, sf_token ?fq}"
    by (simp add: trim_prefix_def has_prefix_def)
  ultimately show "fst (dashboard (\<lambda>rq. not_found) (\<lambda>s. \<lparr>us_Host = ''plant'', us_Path = []\<rparr>) links (serve_at ?cfg ev) ?rq pl) = pl"
    by (rule conjunct2 [OF services_fail_closed])
qed

end
